(* ===== verification/Prelude.thy ===== *)
theory Prelude
  imports Main "HOL-Library.Multiset" "HOL-Library.AList"
begin

text \<open>
  Shared ground of the development.  Go's three ways of leaving a function are one result
  type: a value, a non-nil \<open>error\<close> (modelled by the text its \<open>Error()\<close> method returns)
  and a panic.  A Go map that the code iterates over is an association list with distinct
  keys whose list order stands for the iteration order; \<^const>\<open>map_of\<close> is its lookup and
  \<^const>\<open>AList.update\<close> its assignment.  The lemmas below are the generic facts on lists, maps
  and multisets that the component theories use.
\<close>

named_theorems go_simps \<open>the definitions of single calls and bindings, to run a fixed path through an operation\<close>

type_synonym goerr = string
type_synonym bytes = string
type_synonym gotime = int  \<comment> \<open>nanoseconds since Go's zero time\<close>
type_synonym 'v gomap = "(string \<times> 'v) list"

datatype gopanic = NilDeref | IndexOutOfRange | SliceOutOfRange | NegativeLen | TypeAssertion

datatype 'a res = OK 'a | Err goerr | Panic gopanic

primrec is_OK :: "'a res \<Rightarrow> bool" where
  "is_OK (OK x) = True"
| "is_OK (Err e) = False"
| "is_OK (Panic p) = False"

primrec res_map :: "('a \<Rightarrow> 'b) \<Rightarrow> 'a res \<Rightarrow> 'b res" where
  "res_map f (OK x) = OK (f x)"
| "res_map f (Err e) = Err e"
| "res_map f (Panic p) = Panic p"

lemma is_OK_iff: "is_OK r \<longleftrightarrow> (\<exists>x. r = OK x)"
  by (cases r) auto

lemma res_map_OK_iff: "res_map f r = OK y \<longleftrightarrow> (\<exists>x. r = OK x \<and> y = f x)"
  by (cases r) auto

subsection \<open>Association lists as Go maps\<close>

abbreviation map_wf :: "'v gomap \<Rightarrow> bool" where
  "map_wf m \<equiv> distinct (map fst m)"

lemma map_of_filter_key:
  "map_of (filter (\<lambda>p. P (fst p)) m) k = (if P k then map_of m k else None)"
  by (induction m) auto

lemma map_wf_filter: "map_wf m \<Longrightarrow> map_wf (filter P m)"
  by (rule distinct_map_filter)

lemma map_wf_update: "map_wf m \<Longrightarrow> map_wf (AList.update k v m)"
  by (rule AList.distinct_update)

lemma map_of_None_fst: "map_of m k = None \<longleftrightarrow> k \<notin> fst ` set m"
  by (rule map_of_eq_None_iff)

lemma map_of_mset_eq:
  assumes "map_wf m" and "mset m = mset m'"
  shows "map_of m = map_of m'"
proof -
  from assms(2) have "mset (map fst m) = mset (map fst m')" by simp
  with assms(1) have "map_wf m'" using mset_eq_imp_distinct_iff by blast
  moreover from assms(2) have "set m = set m'" by (metis set_mset_mset)
  ultimately show ?thesis using assms(1) by (metis map_of_inject_set)
qed

subsection \<open>Lists\<close>

lemma filter_map_inj_single:
  "distinct (map f xs) \<Longrightarrow> x \<in> set xs \<Longrightarrow> filter (\<lambda>y. f y = f x) xs = [x]"
proof (induction xs)
  case (Cons a xs)
  show ?case
  proof (cases "a = x")
    case True
    with Cons.prems(1) have "f x \<notin> f ` set xs" by simp
    then have "\<forall>y\<in>set xs. f y \<noteq> f x" by (metis imageI)
    with True show ?thesis by simp
  next
    case False
    with Cons.prems have "x \<in> set xs" and "f a \<noteq> f x" by auto
    with Cons show ?thesis by simp
  qed
qed simp

lemma set_perm: "mset xs = mset ys \<Longrightarrow> set xs = set ys"
  by (rule mset_eq_setD)

lemma length_perm: "mset xs = mset ys \<Longrightarrow> length xs = length ys"
  by (rule mset_eq_length)

end
