(* ===== verification/GoStd.thy ===== *)
theory GoStd
  imports Prelude
begin

text \<open>
  The parts of Go's standard library that the sources use, on byte strings: decimal
  formatting (\<open>fmt.Sprintf("%d", x)\<close>) and parsing (\<open>strconv.Atoi\<close>,
  \<open>strconv.ParseInt(s, 10, 64)\<close>), \<open>strings.Split\<close>, \<open>HasPrefix\<close>, \<open>TrimPrefix\<close>,
  \<open>TrimSpace\<close>, \<open>Join\<close>, \<open>Contains\<close> and \<open>ToLower\<close>, \<open>hex.EncodeToString\<close>,
  \<open>fmt.Sprintf\<close> with string arguments, slice expressions, and the conversion of a 64-bit
  integer to \<open>float64\<close>.
\<close>

subsection \<open>Decimal formatting and parsing\<close>

abbreviation int64_max :: int where "int64_max \<equiv> 9223372036854775807"
abbreviation int64_min :: int where "int64_min \<equiv> -9223372036854775808"

definition is_int64 :: "int \<Rightarrow> bool" where
  "is_int64 x \<longleftrightarrow> int64_min \<le> x \<and> x \<le> int64_max"

definition digit_char :: "nat \<Rightarrow> char" where
  "digit_char d = char_of (48 + d)"

definition digit_val :: "char \<Rightarrow> nat option" where
  "digit_val c =
     (let n = (of_char c :: nat) in if 48 \<le> n \<and> n \<le> 57 then Some (n - 48) else None)"

fun fmt_nat :: "nat \<Rightarrow> string" where
  "fmt_nat n = (if n < 10 then [digit_char n] else fmt_nat (n div 10) @ [digit_char (n mod 10)])"

declare fmt_nat.simps [simp del]

definition fmt_d :: "int \<Rightarrow> string" where
  "fmt_d x = (if x < 0 then CHR ''-'' # fmt_nat (nat (- x)) else fmt_nat (nat x))"

fun parse_nat :: "nat \<Rightarrow> string \<Rightarrow> nat option" where
  "parse_nat acc [] = Some acc"
| "parse_nat acc (c # cs) =
     (case digit_val c of None \<Rightarrow> None | Some d \<Rightarrow> parse_nat (10 * acc + d) cs)"

text \<open>\<open>strconv.ParseInt(s, 10, 64)\<close> (and \<open>Atoi\<close>, whose \<open>int\<close> is 64 bits wide): the value
  and the error.  A syntax error comes with 0, a range error with the nearest bound.\<close>

definition ErrSyntax :: goerr where "ErrSyntax = ''invalid syntax''"
definition ErrRange :: goerr where "ErrRange = ''value out of range''"

definition ParseInt :: "string \<Rightarrow> int \<times> goerr option" where
  "ParseInt s =
     (let neg = (s \<noteq> [] \<and> hd s = CHR ''-'');
          ds = (if s \<noteq> [] \<and> (hd s = CHR ''-'' \<or> hd s = CHR ''+'') then tl s else s)
      in if ds = [] then (0, Some ErrSyntax)
         else case parse_nat 0 ds of
           None \<Rightarrow> (0, Some ErrSyntax)
         | Some n \<Rightarrow>
             (let v = (if neg then - int n else int n)
              in if v < int64_min then (int64_min, Some ErrRange)
                 else if int64_max < v then (int64_max, Some ErrRange)
                 else (v, None)))"

definition Atoi :: "string \<Rightarrow> int \<times> goerr option" where
  "Atoi s = ParseInt s"

subsection \<open>Strings\<close>

fun split_char :: "char \<Rightarrow> string \<Rightarrow> string list" where
  "split_char c [] = [[]]"
| "split_char c (x # xs) =
     (if x = c then [] # split_char c xs
      else case split_char c xs of [] \<Rightarrow> [[x]] | y # ys \<Rightarrow> (x # y) # ys)"

fun join_with :: "string \<Rightarrow> string list \<Rightarrow> string" where
  "join_with sep [] = []"
| "join_with sep [x] = x"
| "join_with sep (x # y # ys) = x @ sep @ join_with sep (y # ys)"

fun HasPrefix :: "string \<Rightarrow> string \<Rightarrow> bool" where
  "HasPrefix s [] = True"
| "HasPrefix [] (p # ps) = False"
| "HasPrefix (x # xs) (p # ps) = (x = p \<and> HasPrefix xs ps)"

text \<open>\<open>strings.Split\<close> for a separator that is not empty.\<close>

function strings_Split :: "string \<Rightarrow> string \<Rightarrow> string list" where
  "strings_Split sep [] = [[]]"
| "strings_Split sep (c # cs) =
     (if sep \<noteq> [] \<and> HasPrefix (c # cs) sep then [] # strings_Split sep (drop (length sep) (c # cs))
      else case strings_Split sep cs of [] \<Rightarrow> [[c]] | p # ps \<Rightarrow> (c # p) # ps)"
  by pat_completeness auto
termination
  by (relation "measure (\<lambda>(sep, s). length s)") auto

definition TrimPrefix :: "string \<Rightarrow> string \<Rightarrow> string" where
  "TrimPrefix s p = (if HasPrefix s p then drop (length p) s else s)"

text \<open>The UTF-8 encodings of the characters \<open>unicode.IsSpace\<close> accepts; \<open>TrimSpace\<close> strips them
  from both ends.\<close>

definition space_seqs :: "string list" where
  "space_seqs = map (map char_of)
     ([[9], [10], [11], [12], [13], [32], [194, 133], [194, 160], [225, 154, 128]]
      @ map (\<lambda>k. [226, 128, k]) ([128..<139] @ [168, 169, 175])
      @ [[226, 129, 159], [227, 128, 128 :: nat]])"

function strip_seqs :: "string list \<Rightarrow> string \<Rightarrow> string" where
  "strip_seqs ps s =
     (case find (\<lambda>p. p \<noteq> [] \<and> HasPrefix s p) ps of
        None \<Rightarrow> s
      | Some p \<Rightarrow> strip_seqs ps (drop (length p) s))"
  by pat_completeness auto
termination
proof (relation "measure (\<lambda>(ps, s). length s)")
  fix ps s p
  assume "find (\<lambda>p. p \<noteq> [] \<and> HasPrefix s p) ps = Some (p :: string)"
  then have "p \<noteq> []" and "HasPrefix s p" by (auto simp: find_Some_iff)
  then show "((ps, drop (length p) s), (ps, s)) \<in> measure (\<lambda>(ps, s). length s)"
    by (cases s; cases p) auto
qed simp

declare strip_seqs.simps [simp del]

definition TrimSpace :: "string \<Rightarrow> string" where
  "TrimSpace s = rev (strip_seqs (map rev space_seqs) (rev (strip_seqs space_seqs s)))"

definition to_lower_char :: "char \<Rightarrow> char" where
  "to_lower_char c =
     (let n = (of_char c :: nat) in if 65 \<le> n \<and> n \<le> 90 then char_of (n + 32) else c)"

definition ToLower :: "string \<Rightarrow> string" where
  "ToLower s = map to_lower_char s"

definition hex_digit :: "nat \<Rightarrow> char" where
  "hex_digit d = (if d < 10 then char_of (48 + d) else char_of (87 + d))"

definition hex_EncodeToString :: "bytes \<Rightarrow> string" where
  "hex_EncodeToString bs =
     concat (map (\<lambda>b. let n = (of_char b :: nat) in [hex_digit (n div 16), hex_digit (n mod 16)]) bs)"

text \<open>\<open>fmt.Sprintf\<close> with string arguments: \<open>%s\<close> and \<open>%v\<close> take the next argument, \<open>%%\<close> is a
  percent sign, another verb, a missing argument and arguments left over are reported in the
  text the way package \<open>fmt\<close> documents.  Flags, widths and precisions do not occur in the
  sources.\<close>

fun sprintf_extra :: "string list \<Rightarrow> string" where
  "sprintf_extra [] = []"
| "sprintf_extra (a # as) =
     ''%!(EXTRA '' @ join_with '', '' (map (\<lambda>x. ''string='' @ x) (a # as)) @ '')''"

fun Sprintf_s :: "string \<Rightarrow> string list \<Rightarrow> string" where
  "Sprintf_s [] args = sprintf_extra args"
| "Sprintf_s (c # cs) args =
     (if c \<noteq> CHR ''%'' then c # Sprintf_s cs args
      else case cs of
        [] \<Rightarrow> ''%!(NOVERB)'' @ sprintf_extra args
      | v # vs \<Rightarrow>
          (if v = CHR ''%'' then CHR ''%'' # Sprintf_s vs args
           else case args of
             [] \<Rightarrow> ''%!'' @ [v] @ ''(MISSING)'' @ Sprintf_s vs []
           | a # as \<Rightarrow>
               (if v = CHR ''s'' \<or> v = CHR ''v'' then a @ Sprintf_s vs as
                else ''%!'' @ [v] @ ''(string='' @ a @ '')'' @ Sprintf_s vs as)))"

subsection \<open>Slices and floats\<close>

text \<open>\<open>s[0:k]\<close> on a slice of pointers with capacity \<open>cp\<close>: up to the capacity the slice is
  extended by the nil pointers of its backing array, beyond it the expression panics.\<close>

definition slice_to :: "nat \<Rightarrow> 'a list \<Rightarrow> int \<Rightarrow> 'a option list res" where
  "slice_to cp xs k =
     (if k < 0 \<or> int cp < k then Panic SliceOutOfRange
      else OK (take (nat k) (map Some xs) @ replicate (nat k - length xs) None))"

fun bit_len :: "nat \<Rightarrow> nat" where
  "bit_len n = (if n = 0 then 0 else Suc (bit_len (n div 2)))"

declare bit_len.simps [simp del]

text \<open>\<open>float64(x)\<close> of an integer: IEEE 754 round to nearest, ties to even, with a 53-bit
  significand.  The result is an integer for every 64-bit \<open>x\<close>.\<close>

definition f64_of_nat :: "nat \<Rightarrow> nat" where
  "f64_of_nat n =
     (if n < 2 ^ 53 then n
      else let e = bit_len n - 53; q = n div 2 ^ e; r = n mod 2 ^ e; h = 2 ^ (e - 1)
           in (if h < r \<or> (r = h \<and> odd q) then Suc q else q) * 2 ^ e)"

definition f64_of_int :: "int \<Rightarrow> int" where
  "f64_of_int x = sgn x * int (f64_of_nat (nat \<bar>x\<bar>))"

text \<open>\<open>int(x / y)\<close> truncates toward zero.\<close>

definition tquot :: "int \<Rightarrow> int \<Rightarrow> int" where
  "tquot a b = sgn a * sgn b * (\<bar>a\<bar> div \<bar>b\<bar>)"

subsection \<open>Lemmas\<close>

lemma digit_val_digit_char: "d < 10 \<Longrightarrow> digit_val (digit_char d) = Some d"
  by (simp add: digit_val_def digit_char_def)

lemma digit_char_not_sign: "d < 10 \<Longrightarrow> digit_char d \<noteq> CHR ''-'' \<and> digit_char d \<noteq> CHR ''+''"
proof -
  assume d: "d < 10"
  have "digit_val (CHR ''-'') = None" and "digit_val (CHR ''+'') = None"
    by (simp_all add: digit_val_def)
  with digit_val_digit_char [OF d] show ?thesis by auto
qed

lemma parse_nat_append:
  "parse_nat acc (xs @ ys) = (case parse_nat acc xs of None \<Rightarrow> None | Some a \<Rightarrow> parse_nat a ys)"
  by (induction acc xs rule: parse_nat.induct) (auto split: option.splits)

lemma fmt_nat_nonempty: "fmt_nat n \<noteq> []"
  by (subst fmt_nat.simps) simp

lemma parse_fmt_nat: "parse_nat 0 (fmt_nat n) = Some n"
proof (induction n rule: fmt_nat.induct)
  case (1 n)
  show ?case
  proof (cases "n < 10")
    case True
    then show ?thesis by (simp add: fmt_nat.simps digit_val_digit_char)
  next
    case False
    with 1 have "parse_nat 0 (fmt_nat (n div 10)) = Some (n div 10)" by simp
    with False show ?thesis
      by (subst fmt_nat.simps) (simp add: parse_nat_append digit_val_digit_char)
  qed
qed

lemma hd_fmt_nat: "hd (fmt_nat n) \<noteq> CHR ''-'' \<and> hd (fmt_nat n) \<noteq> CHR ''+''"
proof (induction n rule: fmt_nat.induct)
  case (1 n)
  show ?case
  proof (cases "n < 10")
    case True
    then show ?thesis by (simp add: fmt_nat.simps digit_char_not_sign)
  next
    case False
    with 1 show ?thesis by (subst (1 2) fmt_nat.simps) (simp add: fmt_nat_nonempty)
  qed
qed

lemma fmt_nat_digits: "c \<in> set (fmt_nat n) \<Longrightarrow> \<exists>d<10. c = digit_char d"
proof (induction n rule: fmt_nat.induct)
  case (1 n)
  show ?case
  proof (cases "n < 10")
    case True
    with 1 show ?thesis by (auto simp: fmt_nat.simps [of n])
  next
    case False
    with 1 have "c \<in> set (fmt_nat (n div 10)) \<or> c = digit_char (n mod 10)"
      by (auto simp: fmt_nat.simps [of n])
    with 1 False show ?thesis by (auto intro: exI [of _ "n mod 10"])
  qed
qed

lemma fmt_d_chars: "c \<in> set (fmt_d x) \<Longrightarrow> c = CHR ''-'' \<or> (\<exists>d<10. c = digit_char d)"
  by (auto simp: fmt_d_def dest: fmt_nat_digits split: if_splits)

lemma fmt_d_no_char: "digit_val c = None \<Longrightarrow> c \<noteq> CHR ''-'' \<Longrightarrow> c \<notin> set (fmt_d x)"
  using fmt_d_chars digit_val_digit_char by fastforce

lemma fmt_d_no_sep [simp]: "CHR '':'' \<notin> set (fmt_d x)" "CHR ''/'' \<notin> set (fmt_d x)"
  "CHR ''_'' \<notin> set (fmt_d x)"
  by (rule fmt_d_no_char; simp add: digit_val_def)+

lemma fmt_d_nonempty [simp]: "fmt_d x \<noteq> []" "[] \<noteq> fmt_d x"
  using fmt_nat_nonempty fmt_nat_nonempty [symmetric] by (simp_all add: fmt_d_def)

lemma fmt_d_inj: "fmt_d x = fmt_d y \<longleftrightarrow> x = y"
proof
  assume eq: "fmt_d x = fmt_d y"
  have nz: "x < 0 \<longleftrightarrow> y < 0"
    using eq hd_fmt_nat by (auto simp: fmt_d_def split: if_splits) (metis list.sel(1))+
  have "nat \<bar>x\<bar> = nat \<bar>y\<bar>"
  proof (cases "x < 0")
    case True
    with nz eq have "fmt_nat (nat (- x)) = fmt_nat (nat (- y))" by (simp add: fmt_d_def)
    then have "nat (- x) = nat (- y)" by (metis option.inject parse_fmt_nat)
    with True nz show ?thesis by simp
  next
    case False
    with nz eq have "fmt_nat (nat x) = fmt_nat (nat y)" by (simp add: fmt_d_def)
    then have "nat x = nat y" by (metis option.inject parse_fmt_nat)
    with False nz show ?thesis by simp
  qed
  with nz show "x = y" by auto
qed simp

lemma ParseInt_fmt_d: "is_int64 x \<Longrightarrow> ParseInt (fmt_d x) = (x, None)"
proof -
  assume r: "is_int64 x"
  show ?thesis
  proof (cases "x < 0")
    case True
    then show ?thesis using r
      by (simp add: ParseInt_def fmt_d_def Let_def parse_fmt_nat fmt_nat_nonempty is_int64_def)
  next
    case False
    then show ?thesis using r hd_fmt_nat [of "nat x"]
      by (simp add: ParseInt_def fmt_d_def Let_def parse_fmt_nat fmt_nat_nonempty is_int64_def)
  qed
qed

lemma ParseInt_range: "is_int64 (fst (ParseInt s))"
  by (auto simp: ParseInt_def is_int64_def Let_def split: option.splits)

lemma ParseInt_OK_range: "ParseInt s = (v, None) \<Longrightarrow> is_int64 v"
  using ParseInt_range [of s] by simp

lemma split_char_nonempty: "split_char c s \<noteq> []"
  by (induction s) (auto split: list.splits)

lemma split_char_none: "c \<notin> set s \<Longrightarrow> split_char c s = [s]"
  by (induction s) auto

lemma split_char_append: "c \<notin> set s \<Longrightarrow> split_char c (s @ c # t) = s # split_char c t"
  by (induction s) auto

lemma split_char_no_sep: "x \<in> set (split_char c s) \<Longrightarrow> c \<notin> set x"
proof (induction s arbitrary: x)
  case (Cons a s)
  then show ?case by (cases "split_char c s") (auto split: if_splits)
qed simp

lemma join_split_char: "join_with [c] (split_char c s) = s"
proof (induction s)
  case (Cons a s)
  obtain y ys where y: "split_char c s = y # ys"
    using split_char_nonempty by (cases "split_char c s") auto
  show ?case
  proof (cases ys)
    case Nil
    with Cons y show ?thesis by auto
  next
    case (Cons z zs)
    with Cons.IH y show ?thesis by auto
  qed
qed simp

lemma HasPrefix_iff: "HasPrefix s p \<longleftrightarrow> (\<exists>t. s = p @ t)"
  by (induction s p rule: HasPrefix.induct) auto

text \<open>Splitting at a separator that repeats one character: a piece that does not contain it and does
  not end in the character is cut off whole.\<close>

lemma HasPrefix_replicate:
  "HasPrefix (u @ v) (replicate k c) \<Longrightarrow> HasPrefix u (replicate k c) \<or> u = replicate (length u) c"
proof (induction u arbitrary: k)
  case (Cons x u)
  then show ?case by (cases k) auto
qed simp

definition run_free :: "nat \<Rightarrow> char \<Rightarrow> string \<Rightarrow> bool" where
  "run_free k c s \<longleftrightarrow> strings_Split (replicate k c) s = [s] \<and> (s = [] \<or> last s \<noteq> c)"

lemma run_free_Cons:
  assumes "run_free k c (x # s)"
  shows "run_free k c s" and "k \<noteq> 0 \<Longrightarrow> \<not> HasPrefix (x # s) (replicate k c)"
  using assms by (auto simp: run_free_def split: if_splits list.splits)

lemma strings_Split_at:
  "0 < k \<Longrightarrow> run_free k c s \<Longrightarrow> strings_Split (replicate k c) (s @ replicate k c @ t) = s # strings_Split (replicate k c) t"
proof (induction s)
  case Nil
  obtain j where k: "k = Suc j" using Nil by (cases k) auto
  have "HasPrefix (replicate k c @ t) (replicate k c)" by (auto simp: HasPrefix_iff)
  with k show ?case by simp
next
  case (Cons x s)
  note free = run_free_Cons [OF Cons.prems(2)]
  have "\<not> HasPrefix ((x # s) @ replicate k c @ t) (replicate k c)"
  proof
    assume "HasPrefix ((x # s) @ replicate k c @ t) (replicate k c)"
    with HasPrefix_replicate free(2) Cons.prems(1) have "x # s = replicate (length (x # s)) c" by fastforce
    then have "last (x # s) = c" by (metis last_replicate length_0_conv list.distinct(1))
    with Cons.prems(2) show False by (simp add: run_free_def)
  qed
  with Cons.IH [OF Cons.prems(1) free(1)] show ?case by simp
qed

lemma strings_Split_plain:
  assumes "c \<notin> set u" "strings_Split (replicate k c) v = [v]"
  shows "strings_Split (replicate k c) (u @ v) = [u @ v]"
  using assms
proof (induction u)
  case (Cons x u)
  then have "\<not> HasPrefix (x # u @ v) (replicate k c) \<or> k = 0" by (cases k) auto
  with Cons show ?case by auto
qed simp

lemma strings_Split_join:
  assumes "0 < k" "list_all (run_free k c) ps" "ps \<noteq> []"
  shows "strings_Split (replicate k c) (join_with (replicate k c) ps) = ps"
  using assms(2,3)
proof (induction "replicate k c" ps rule: join_with.induct)
  case (2 x)
  then show ?case by (simp add: run_free_def)
next
  case (3 x y ys)
  then show ?case using strings_Split_at [OF assms(1), of c x "join_with (replicate k c) (y # ys)"] by simp
qed simp

lemma join_with_pieces: "join_with sep ([] # ps) = concat (map (\<lambda>p. sep @ p) ps)"
proof (induction ps)
  case (Cons p ps)
  then show ?case by (cases ps) auto
qed simp

lemma strings_Split_pieces:
  assumes "0 < k" "list_all (run_free k c) ps"
  shows "strings_Split (replicate k c) (concat (map (\<lambda>p. replicate k c @ p) ps)) = [] # ps"
  using strings_Split_join [OF assms(1), of c "[] # ps"] assms(2) by (simp add: join_with_pieces run_free_def)

lemma TrimPrefix_append [simp]: "TrimPrefix (p @ s) p = s"
  by (auto simp: TrimPrefix_def HasPrefix_iff)

lemma strip_seqs_fixed:
  assumes "\<And>p. p \<in> set ps \<Longrightarrow> p \<noteq> [] \<Longrightarrow> \<not> HasPrefix s p"
  shows "strip_seqs ps s = s"
proof -
  have "find (\<lambda>p. p \<noteq> [] \<and> HasPrefix s p) ps = None"
    using assms by (auto simp: find_None_iff)
  then show ?thesis by (subst strip_seqs.simps) simp
qed

definition printable :: "string \<Rightarrow> bool" where
  "printable s \<longleftrightarrow> (\<forall>c \<in> set s. 33 \<le> (of_char c :: nat) \<and> (of_char c :: nat) \<le> 126)"

lemma space_seqs_bytes:
  assumes "p \<in> set space_seqs \<or> p \<in> set (map rev space_seqs)" and "p \<noteq> []"
  shows "(of_char (hd p) :: nat) \<le> 32 \<or> 127 \<le> (of_char (hd p) :: nat)"
proof -
  have "\<forall>p \<in> set space_seqs. \<forall>c \<in> set p. (of_char c :: nat) \<le> 32 \<or> 127 \<le> (of_char c :: nat)"
    by (simp add: space_seqs_def upt_rec)
  moreover from assms(1) obtain q where "q \<in> set space_seqs" and "set q = set p"
    by auto
  moreover from assms(2) have "hd p \<in> set p" by simp
  ultimately show ?thesis by blast
qed

lemma printable_not_prefix:
  assumes "printable s" and "p \<in> set space_seqs \<or> p \<in> set (map rev space_seqs)" and "p \<noteq> []"
  shows "\<not> HasPrefix s p"
proof
  assume "HasPrefix s p"
  then obtain t where "s = p @ t" by (auto simp: HasPrefix_iff)
  with assms(3) have "hd p \<in> set s" by (cases p) auto
  with assms(1) have "33 \<le> (of_char (hd p) :: nat)" and "(of_char (hd p) :: nat) \<le> 126"
    by (auto simp: printable_def)
  with space_seqs_bytes [OF assms(2,3)] show False by linarith
qed

lemma TrimSpace_id: "printable s \<Longrightarrow> TrimSpace s = s"
proof -
  assume s: "printable s"
  then have r: "printable (rev s)" by (simp add: printable_def)
  have "strip_seqs space_seqs s = s"
    using printable_not_prefix [OF s] by (intro strip_seqs_fixed) blast
  moreover have "strip_seqs (map rev space_seqs) (rev s) = rev s"
    using printable_not_prefix [OF r] by (intro strip_seqs_fixed) blast
  ultimately show ?thesis by (simp add: TrimSpace_def)
qed

lemma length_hex: "length (hex_EncodeToString bs) = 2 * length bs"
  by (induction bs) (auto simp: hex_EncodeToString_def Let_def)

lemma hex_digit_inj: "a < 16 \<Longrightarrow> b < 16 \<Longrightarrow> hex_digit a = hex_digit b \<Longrightarrow> a = b"
proof -
  assume a: "a < 16" and b: "b < 16" and eq: "hex_digit a = hex_digit b"
  have v: "(of_char (hex_digit d) :: nat) = (if d < 10 then 48 + d else 87 + d)" if "d < 16" for d
    using that by (auto simp: hex_digit_def)
  from arg_cong [OF eq, of "of_char :: char \<Rightarrow> nat"] show "a = b"
    using a b by (auto simp: v split: if_splits)
qed

lemma hex_inj: "hex_EncodeToString a = hex_EncodeToString b \<longleftrightarrow> a = b"
proof
  show "hex_EncodeToString a = hex_EncodeToString b \<Longrightarrow> a = b"
  proof (induction a arbitrary: b)
    case Nil
    then show ?case by (cases b) (auto simp: hex_EncodeToString_def Let_def)
  next
    case (Cons x a)
    then obtain y b' where b: "b = y # b'" by (cases b) (auto simp: hex_EncodeToString_def Let_def)
    let ?n = "of_char x :: nat" and ?m = "of_char y :: nat"
    from Cons.prems b have hi: "hex_digit (?n div 16) = hex_digit (?m div 16)"
      and lo: "hex_digit (?n mod 16) = hex_digit (?m mod 16)"
      and tl: "hex_EncodeToString a = hex_EncodeToString b'"
      by (auto simp: hex_EncodeToString_def Let_def)
    have bd: "(of_char c :: nat) div 16 < 16" for c :: char
      using nat_of_char_less_256 [of c] by (simp add: less_mult_imp_div_less)
    have "?n div 16 = ?m div 16" by (rule hex_digit_inj [OF bd bd hi])
    moreover have "?n mod 16 = ?m mod 16" by (rule hex_digit_inj [OF _ _ lo]) simp_all
    ultimately have "?n = ?m" by (metis div_mult_mod_eq)
    then have "x = y" by (simp only: of_char_eq_iff)
    with Cons.IH [OF tl] b show ?case by simp
  qed
qed simp

lemma sprintf_plain: "CHR ''%'' \<notin> set s \<Longrightarrow> Sprintf_s s [] = s"
  by (induction s) auto

lemma sprintf_prefix_s:
  "CHR ''%'' \<notin> set p \<Longrightarrow> Sprintf_s (p @ ''%s'') [a] = p @ a"
  by (induction p) auto

lemma slice_to_exact: "slice_to cp xs (int (length xs)) = OK (map Some xs)" if "length xs \<le> cp"
  using that by (simp add: slice_to_def)

lemma f64_of_int_small: "\<bar>x\<bar> < 2 ^ 53 \<Longrightarrow> f64_of_int x = x"
proof -
  assume "\<bar>x\<bar> < 2 ^ 53"
  then have "nat \<bar>x\<bar> < 2 ^ 53" by simp
  then have "f64_of_nat (nat \<bar>x\<bar>) = nat \<bar>x\<bar>" by (simp only: f64_of_nat_def if_True)
  then show ?thesis by (simp add: f64_of_int_def mult_sgn_abs)
qed

lemma tquot_nonneg: "0 \<le> a \<Longrightarrow> 0 < b \<Longrightarrow> tquot a b = a div b"
  by (cases "a = 0") (simp_all add: tquot_def)

end
