(* ===== verification/Api.thy ===== *)
theory Api
  imports GoStd
begin

text \<open>
  \<open>core/api/response.go\<close>: errors travel as texts of the form \<open>err_key:err_code:status_code\<close>
  and become the HTTP status, the error code and the message of a response.  Also the two
  small generic packages \<open>pkg/rho\<close> and \<open>pkg/templating\<close>.
\<close>

record ErrorResponse =
  er_Message :: string
  er_HttpStatus :: int
  er_Code :: int

record 'd Response =
  rs_Success :: bool
  rs_Data :: "'d option"
  rs_Error :: "ErrorResponse option"

definition ParserErrorResponse :: "goerr \<Rightarrow> ErrorResponse" where
  "ParserErrorResponse err =
     (case split_char (CHR '':'') err of
        key # code # status # rest \<Rightarrow>
          \<lparr>er_Message = key, er_HttpStatus = fst (Atoi status), er_Code = fst (Atoi code)\<rparr>
      | _ \<Rightarrow> \<lparr>er_Message = ''terrible'', er_HttpStatus = 501, er_Code = 9\<rparr>)"

definition BuildResponse :: "goerr option \<Rightarrow> 'd option \<Rightarrow> 'd Response" where
  "BuildResponse err data =
     (case err of
        Some e \<Rightarrow> \<lparr>rs_Success = False, rs_Data = None, rs_Error = Some (ParserErrorResponse e)\<rparr>
      | None \<Rightarrow> \<lparr>rs_Success = True, rs_Data = data, rs_Error = None\<rparr>)"

subsection \<open>Package rho\<close>

fun rho_Map_from :: "nat \<Rightarrow> ('e \<Rightarrow> nat \<Rightarrow> 'v) \<Rightarrow> 'e list \<Rightarrow> 'v list" where
  "rho_Map_from i mapper [] = []"
| "rho_Map_from i mapper (el # arr) = mapper el i # rho_Map_from (Suc i) mapper arr"

definition rho_Map :: "'e list \<Rightarrow> ('e \<Rightarrow> nat \<Rightarrow> 'v) \<Rightarrow> 'v list" where
  "rho_Map arr mapper = rho_Map_from 0 mapper arr"

fun rho_Filter_from :: "nat \<Rightarrow> ('e \<Rightarrow> nat \<Rightarrow> bool) \<Rightarrow> 'e list \<Rightarrow> 'e list" where
  "rho_Filter_from i p [] = []"
| "rho_Filter_from i p (el # arr) =
     (if p el i then el # rho_Filter_from (Suc i) p arr else rho_Filter_from (Suc i) p arr)"

definition rho_Filter :: "'e list \<Rightarrow> ('e \<Rightarrow> nat \<Rightarrow> bool) \<Rightarrow> 'e list" where
  "rho_Filter arr p = rho_Filter_from 0 p arr"

subsection \<open>Package templating\<close>

definition NewTemplateString :: "string \<Rightarrow> string list \<Rightarrow> string" where
  "NewTemplateString tmplStr values =
     (if CHR ''%'' \<in> set tmplStr then Sprintf_s tmplStr values else tmplStr)"

subsection \<open>Lemmas\<close>

lemma rho_Map_from_map: "rho_Map_from i (\<lambda>x _. f x) xs = map f xs"
  by (induction xs arbitrary: i) auto

lemma rho_Map_map: "rho_Map xs (\<lambda>x _. f x) = map f xs"
  by (simp add: rho_Map_def rho_Map_from_map)

lemma rho_Filter_from_filter: "rho_Filter_from i (\<lambda>x _. p x) xs = filter p xs"
  by (induction xs arbitrary: i) auto

lemma rho_Filter_filter: "rho_Filter xs (\<lambda>x _. p x) = filter p xs"
  by (simp add: rho_Filter_def rho_Filter_from_filter)

lemma rho_Map_nth: "i < length xs \<Longrightarrow> rho_Map xs f ! i = f (xs ! i) i \<and> length (rho_Map xs f) = length xs"
proof -
  have len: "length (rho_Map_from k f xs) = length xs" for k
    by (induction xs arbitrary: k) auto
  have "i < length xs \<Longrightarrow> rho_Map_from k f xs ! i = f (xs ! i) (k + i)" for k
    by (induction xs arbitrary: i k) (auto simp: nth_Cons split: nat.splits)
  then show "i < length xs \<Longrightarrow> rho_Map xs f ! i = f (xs ! i) i \<and> length (rho_Map xs f) = length xs"
    by (simp add: rho_Map_def len)
qed

lemma BuildResponse_simps [simp]:
  "rs_Success (BuildResponse None d)" "rs_Data (BuildResponse None d) = d"
  "rs_Error (BuildResponse None d) = None"
  "\<not> rs_Success (BuildResponse (Some e) d)" "rs_Data (BuildResponse (Some e) d) = None"
  "rs_Error (BuildResponse (Some e) d) = Some (ParserErrorResponse e)"
  by (simp_all add: BuildResponse_def)

lemma NewTemplateString_plain: "CHR ''%'' \<notin> set t \<Longrightarrow> NewTemplateString t vs = t"
  by (simp add: NewTemplateString_def)

lemma NewTemplateString_s:
  "CHR ''%'' \<notin> set p \<Longrightarrow> NewTemplateString (p @ ''%s'') [a] = p @ a"
  by (simp add: NewTemplateString_def sprintf_prefix_s)

lemma parse_three_fields:
  assumes "CHR '':'' \<notin> set key"
  shows "ParserErrorResponse (key @ '':'' @ fmt_d code @ '':'' @ fmt_d status)
    = \<lparr>er_Message = key, er_HttpStatus = fst (Atoi (fmt_d status)), er_Code = fst (Atoi (fmt_d code))\<rparr>"
  using assms by (simp add: ParserErrorResponse_def split_char_append split_char_none)

subsection \<open>Properties\<close>

text \<open>
  Error texts carry their codes: a text built from a key without a colon, a code and a status,
  both 64-bit integers, becomes an error response with exactly that message, code and status,
  and any text with fewer than two colons becomes the fallback 501.
\<close>

theorem error_text_roundtrip:
  assumes "CHR '':'' \<notin> set key" and "is_int64 code" and "is_int64 status"
    and "CHR '':'' \<notin> set a" and "CHR '':'' \<notin> set b"
  shows "rs_Error (BuildResponse (Some (key @ '':'' @ fmt_d code @ '':'' @ fmt_d status)) d) =
      Some \<lparr>er_Message = key, er_HttpStatus = status, er_Code = code\<rparr> \<and>
    ParserErrorResponse a = \<lparr>er_Message = ''terrible'', er_HttpStatus = 501, er_Code = 9\<rparr> \<and>
    ParserErrorResponse (a @ '':'' @ b) = \<lparr>er_Message = ''terrible'', er_HttpStatus = 501, er_Code = 9\<rparr>"
  using assms parse_three_fields [OF assms(1), of code status]
  by (simp add: ParseInt_fmt_d Atoi_def) (simp add: ParserErrorResponse_def split_char_none split_char_append)

theorem error_text_roundtrip_witness:
  "rs_Error (BuildResponse (Some (''not_found:2027:404'')) (None :: nat option)) =
     Some \<lparr>er_Message = ''not_found'', er_HttpStatus = 404, er_Code = 2027\<rparr>"
proof -
  have "fmt_d 2027 = ''2027''" "fmt_d 404 = ''404''" by code_simp+
  moreover have "is_int64 2027" "is_int64 404" by (simp_all add: is_int64_def)
  ultimately show ?thesis
    using error_text_roundtrip [of "''not_found''" 2027 404 "[]" "[]" "None :: nat option"] by simp
qed

end
