(* ===== verification/Data.thy ===== *)
theory Data
  imports Api
begin

text \<open>
  The records of \<open>core/files/model.go\<close>, \<open>core/tokens/token.go\<close>,
  \<open>core/database/timestamps.go\<close>, \<open>core/notifiers/metadata.go\<close> and
  \<open>pkg/queuer/redis.queue.go\<close>, and the world the operations run in.

  Everything the program gets from outside its sources is a field of the environment
  record \<open>env\<close>, an argument of the operations: the outcome of each call into the SQL driver
  and the file system (\<open>e_fault\<close>), the clock, the ULID and random generators, SHA-256,
  package \<open>gob\<close>, the Redis client, the order SQLite returns rows in where the \<open>ORDER BY\<close> leaves
  it open, the iteration order of a Go map the capacity \<open>append\<close> gives a slice
  and the number of bytes a failing write has written.  The
  state record \<open>world\<close> counts the calls (\<open>w_tick\<close>), so each call has its own outcome, and
  holds the SQL tables, the Redis server's state (of an arbitrary type \<open>'r\<close>) and the file
  system.
\<close>

subsection \<open>Records of the sources\<close>

record Timestamp =
  ts_CreatedAt :: gotime
  ts_UpdatedAt :: gotime

record FileMetadata =
  fm_ID :: string
  fm_UserID :: string
  fm_Filename :: string
  fm_FileSize :: int
  fm_FileType :: string
  fm_FileHash :: string
  fm_NChunks :: int
  fm_CurrentFlag :: bool
  fm_UploadStaus :: string
  fm_PrevID :: "string option"
  fm_EndDate :: "gotime option"
  fm_Timestamp :: Timestamp

record CacheMetadata =
  cm_UserID :: string
  cm_PrevID :: "string option"
  cm_DeviceID :: string
  cm_ID :: string

record UserFile =
  uf_UserID :: string
  uf_FileID :: string
  uf_ChunkID :: int
  uf_ChunkBlobUrl :: string
  uf_ChunkHash :: string
  uf_NextChunkID :: "int option"
  uf_Timestamp :: Timestamp

record FilesWithChunks =
  fwc_ID :: string
  fwc_UserID :: string
  fwc_Filename :: string
  fwc_FileSize :: int
  fwc_FileType :: string
  fwc_FileHash :: string
  fwc_NChunks :: int
  fwc_CurrentFlag :: bool
  fwc_UploadStaus :: string
  fwc_FileID :: string
  fwc_ChunkID :: int
  fwc_ChunkBlobUrl :: string
  fwc_ChunkHash :: string
  fwc_NextChunkID :: "int option"
  fwc_PrevID :: "string option"
  fwc_EndDate :: "gotime option"
  fwc_Timestamp :: Timestamp

record Token =
  tk_ResourceID :: string
  tk_ResouceType :: string
  tk_AccessToken :: string
  tk_RefreshToken :: string
  tk_TokenType :: string
  tk_UserID :: "string option"
  tk_DeviceID :: string
  tk_AccessExpiresAt :: gotime
  tk_RefreshExpiresAt :: gotime
  tk_Timestamp :: Timestamp

record MetadataUpdateStatusEvent =
  ev_FileID :: string
  ev_UserID :: string
  ev_PrevFileID :: "string option"
  ev_DeviceID :: string

record Payload =
  pl_Message :: bytes
  pl_Key :: string
  pl_TTL :: int

text \<open>Go's constants of \<open>model.go\<close>.\<close>

definition StatusUploading :: string where "StatusUploading = ''uploading''"
definition StatusFailed :: string where "StatusFailed = ''failed''"
definition StatusCompleted :: string where "StatusCompleted = ''completed''"
definition FrontendChunkSize :: int where "FrontendChunkSize = 4 * 1024 * 1024"

lemma status_distinct [simp]:
  "StatusUploading \<noteq> StatusFailed" "StatusUploading \<noteq> StatusCompleted" "StatusFailed \<noteq> StatusCompleted"
  "StatusFailed \<noteq> StatusUploading" "StatusCompleted \<noteq> StatusUploading" "StatusCompleted \<noteq> StatusFailed"
  by (simp_all add: StatusUploading_def StatusFailed_def StatusCompleted_def)

subsection \<open>Environment and world\<close>

record db =
  file_metadatas :: "FileMetadata list"
  user_files :: "UserFile list"
  tokens_tbl :: "Token list"

text \<open>What \<open>BLPOP\<close> replies: \<open>redis.Nil\<close> after the timeout, another error, or the reply's texts.\<close>

datatype blpop_reply = BNil | BErr goerr | BReply "string list"

record 'r redis =
  RPush :: "string \<Rightarrow> string \<Rightarrow> 'r \<Rightarrow> goerr option \<times> 'r"
  BLPop :: "string \<Rightarrow> 'r \<Rightarrow> blpop_reply \<times> 'r"
  RGet :: "string \<Rightarrow> 'r \<Rightarrow> bytes option"
  SetEx :: "string \<Rightarrow> bytes \<Rightarrow> 'r \<Rightarrow> goerr option \<times> 'r"

datatype fsnode = FDir | FFile bytes

type_synonym fs = "string \<Rightarrow> fsnode option"

record 'r env =
  e_fault :: "nat \<Rightarrow> goerr option"
  e_clock :: "nat \<Rightarrow> gotime"
  e_ulid :: "nat \<Rightarrow> goerr + string"
  e_rand :: "nat \<Rightarrow> nat \<Rightarrow> goerr + bytes"
  e_sha256 :: "bytes \<Rightarrow> bytes"
  e_order :: "nat \<Rightarrow> (FileMetadata \<times> UserFile) list \<Rightarrow> (FileMetadata \<times> UserFile) list"
  e_range :: "nat \<Rightarrow> FilesWithChunks gomap \<Rightarrow> FilesWithChunks gomap"
  e_cap :: "nat \<Rightarrow> nat"
  e_written :: "nat \<Rightarrow> nat"
  e_metaQ :: "string \<rightharpoonup> string"
  e_chunkQ :: "string \<rightharpoonup> string"
  e_tokenQ :: "string \<rightharpoonup> string"
  e_gob_cache :: "CacheMetadata \<Rightarrow> goerr + bytes"
  e_ungob_cache :: "bytes \<Rightarrow> goerr + CacheMetadata"
  e_gob_event :: "MetadataUpdateStatusEvent \<Rightarrow> goerr + bytes"
  e_ungob_event :: "bytes \<Rightarrow> goerr + MetadataUpdateStatusEvent"
  e_redis :: "'r redis"

record 'r world =
  w_tick :: nat
  w_db :: db
  w_redis :: 'r
  w_fs :: fs

definition tick :: "'r world \<Rightarrow> 'r world" where
  "tick w = w\<lparr>w_tick := Suc (w_tick w)\<rparr>"

text \<open>One call into the SQL driver or the operating system: its error, if any.\<close>

definition ext_call :: "'r env \<Rightarrow> 'r world \<Rightarrow> goerr option \<times> 'r world" where
  "ext_call E w = (e_fault E (w_tick w), tick w)"

declare ext_call_def [go_simps] Let_def [go_simps]

text \<open>\<open>database.Now\<close> and \<open>database.NewTimestamp\<close>.\<close>

definition Now :: "'r env \<Rightarrow> 'r world \<Rightarrow> gotime \<times> 'r world" where
  "Now E w = (e_clock E (w_tick w), tick w)"

definition NewTimestamp :: "'r env \<Rightarrow> 'r world \<Rightarrow> Timestamp \<times> 'r world" where
  "NewTimestamp E w =
     (case Now E w of (now, w1) \<Rightarrow> (\<lparr>ts_CreatedAt = now, ts_UpdatedAt = now\<rparr>, w1))"

text \<open>\<open>database.NewID\<close>: a ULID from the current time and the random reader.\<close>

definition NewID :: "'r env \<Rightarrow> 'r world \<Rightarrow> string res \<times> 'r world" where
  "NewID E w =
     ((case e_ulid E (w_tick w) of Inl e \<Rightarrow> Err e | Inr i \<Rightarrow> OK i), tick w)"

subsection \<open>Assumptions about the environment\<close>

text \<open>No call of the driver or the operating system fails.\<close>

definition no_faults :: "'r env \<Rightarrow> bool" where
  "no_faults E \<longleftrightarrow> (\<forall>n. e_fault E n = None)"

text \<open>SQLite returns a permutation of the selected rows in descending order of
  \<open>fm.created_at\<close>; ranging over a Go map visits every entry once, in some order; a slice's
  capacity is at least its length.\<close>

definition sql_order_ok :: "'r env \<Rightarrow> bool" where
  "sql_order_ok E \<longleftrightarrow> (\<forall>n rows. mset (e_order E n rows) = mset rows \<and>
     sorted_wrt (\<lambda>a b. ts_CreatedAt (fm_Timestamp (fst b)) \<le> ts_CreatedAt (fm_Timestamp (fst a)))
       (e_order E n rows))"

definition range_ok :: "'r env \<Rightarrow> bool" where
  "range_ok E \<longleftrightarrow> (\<forall>n m. mset (e_range E n m) = mset m)"

definition cap_ok :: "'r env \<Rightarrow> bool" where
  "cap_ok E \<longleftrightarrow> (\<forall>n. n \<le> e_cap E n)"

text \<open>Package \<open>gob\<close> sends what a pointer points to and omits empty strings: a pointer to an
  empty string arrives as nil, everything else as it was.\<close>

definition gob_ptr :: "string option \<Rightarrow> string option" where
  "gob_ptr p = (if p = Some [] then None else p)"

definition gob_ok :: "'r env \<Rightarrow> bool" where
  "gob_ok E \<longleftrightarrow>
     (\<forall>c b. e_gob_cache E c = Inr b \<longrightarrow>
        e_ungob_cache E b = Inr (c\<lparr>cm_PrevID := gob_ptr (cm_PrevID c)\<rparr>)) \<and>
     (\<forall>v b. e_gob_event E v = Inr b \<longrightarrow>
        e_ungob_event E b = Inr (v\<lparr>ev_PrevFileID := gob_ptr (ev_PrevFileID v)\<rparr>))"

text \<open>Redis lists: \<open>view\<close> reads the list stored at a key.  A successful \<open>RPUSH\<close> appends,
  \<open>BLPOP\<close> takes the head of a non-empty list and replies with the key and the element, or
  replies nil when the list is empty.\<close>

definition redis_lists :: "'r redis \<Rightarrow> ('r \<Rightarrow> string \<Rightarrow> string list) \<Rightarrow> bool" where
  "redis_lists R view \<longleftrightarrow>
     (\<forall>q m r r'. RPush R q m r = (None, r') \<longrightarrow> view r' = (view r)(q := view r q @ [m])) \<and>
     (\<forall>q r r' xs. BLPop R q r = (BReply xs, r') \<longrightarrow>
        (\<exists>x rest. view r q = x # rest \<and> xs = [q, x] \<and> view r' = (view r)(q := rest))) \<and>
     (\<forall>q r r'. BLPop R q r = (BNil, r') \<longrightarrow> view r q = [] \<and> view r' = view r)"

text \<open>The Redis cache: a successful \<open>SETEX\<close> stores the value under the key, and neither it nor a
  failed one changes another key's value to something else.\<close>

definition redis_cache :: "'r redis \<Rightarrow> bool" where
  "redis_cache R \<longleftrightarrow>
     (\<forall>k v r r' e. SetEx R k v r = (e, r') \<longrightarrow>
        (\<forall>k' v'. RGet R k' r' = Some v' \<longrightarrow> RGet R k' r = Some v' \<or> (k' = k \<and> v' = v)))"

subsection \<open>Frame lemmas\<close>

lemma tick_sel [simp]:
  "w_tick (tick w) = Suc (w_tick w)" "w_db (tick w) = w_db w" "w_redis (tick w) = w_redis w"
  "w_fs (tick w) = w_fs w"
  by (simp_all add: tick_def)

lemma no_faultsD [simp]: "no_faults E \<Longrightarrow> e_fault E n = None"
  by (simp add: no_faults_def)

end
