(* ===== verification/FilesModel.thy ===== *)
theory FilesModel
  imports Data
begin

text \<open>
  Pure parts of package \<open>files\<close>: \<open>CalculateChunks\<close> (\<open>core/files/model.go\<close>), the clause
  builder \<open>FindClause\<close> (\<open>core/files/repository.go\<close>) and \<open>BuildFilesInfoResponse\<close>
  (\<open>core/files/service.metadata.go\<close>), which groups the joined rows of files and chunks by
  file.  The reference for the last one is \<open>group_files\<close>.
\<close>

subsection \<open>CalculateChunks\<close>

text \<open>\<open>float64(fileSize) / float64(FrontendChunkSize)\<close> is exact once \<open>fileSize\<close> is rounded,
  since the divisor is a power of two; \<open>m\<close> is the quotient scaled by that power.  The sum
  \<open>n_chunks + 1.0\<close> is rounded again.\<close>

definition CalculateChunks :: "int \<Rightarrow> int" where
  "CalculateChunks fileSize =
     (let m = f64_of_int fileSize;
          t = tquot m FrontendChunkSize
      in if t * FrontendChunkSize < m
         then tquot (f64_of_int (m + FrontendChunkSize)) FrontendChunkSize
         else t)"

subsection \<open>FindClause\<close>

datatype sqlval = SNull | SText string | SInt int | STime gotime

record FindKV =
  kv_Key :: string
  kv_PlaceHolder :: string
  kv_Operator :: string
  kv_Val :: sqlval

definition FindKV_String :: "FindKV \<Rightarrow> string" where
  "FindKV_String clause =
     (let placeholder = (if kv_PlaceHolder clause = [] then '':'' @ kv_Key clause
                         else kv_PlaceHolder clause)
      in kv_Key clause @ '' '' @ kv_Operator clause @ '' '' @ placeholder)"

definition FindClause_String :: "FindKV list \<Rightarrow> string" where
  "FindClause_String clauses = join_with '' AND '' (map FindKV_String clauses)"

fun FindClause_Args_from :: "(string \<rightharpoonup> sqlval) \<Rightarrow> FindKV list \<Rightarrow> (string \<rightharpoonup> sqlval)" where
  "FindClause_Args_from args [] = args"
| "FindClause_Args_from args (kv # kvs) = FindClause_Args_from (args(kv_Key kv \<mapsto> kv_Val kv)) kvs"

definition FindClause_Args :: "FindKV list \<Rightarrow> (string \<rightharpoonup> sqlval)" where
  "FindClause_Args clauses = FindClause_Args_from Map.empty clauses"

subsection \<open>BuildFilesInfoResponse\<close>

record FileInfoResponse =
  fi_ID :: string
  fi_Name :: string
  fi_Hash :: string
  fi_Size :: int
  fi_Type :: string
  fi_CurrentFlag :: bool
  fi_Chunks :: "FilesWithChunks gomap"
  fi_NChunks :: int
  fi_UserID :: string

definition file_info :: "FilesWithChunks \<Rightarrow> FileInfoResponse" where
  "file_info file = \<lparr>fi_ID = fwc_ID file, fi_Name = fwc_Filename file, fi_Hash = fwc_FileHash file,
     fi_Size = fwc_FileSize file, fi_Type = fwc_FileType file, fi_CurrentFlag = fwc_CurrentFlag file,
     fi_Chunks = [], fi_NChunks = fwc_NChunks file, fi_UserID = fwc_UserID file\<rparr>"

definition version_str :: "FilesWithChunks \<Rightarrow> string" where
  "version_str file = fmt_d (fwc_ChunkID file)"

definition put_chunk :: "FilesWithChunks \<Rightarrow> FileInfoResponse \<Rightarrow> FileInfoResponse" where
  "put_chunk file f = f\<lparr>fi_Chunks := AList.update (version_str file) file (fi_Chunks f)\<rparr>"

text \<open>The loop over the rows; the rows are pointers, a nil one is dereferenced.\<close>

fun build_loop :: "FileInfoResponse list \<Rightarrow> (string \<rightharpoonup> nat) \<Rightarrow> nat \<Rightarrow> FilesWithChunks option list
    \<Rightarrow> FileInfoResponse list res" where
  "build_loop filesInfo filesSeenIndex i [] = OK filesInfo"
| "build_loop filesInfo filesSeenIndex i (None # files) = Panic NilDeref"
| "build_loop filesInfo filesSeenIndex i (Some file # files) =
     (case filesSeenIndex (fwc_ID file) of
        None \<Rightarrow> build_loop (filesInfo @ [put_chunk file (file_info file)])
                  (filesSeenIndex(fwc_ID file \<mapsto> i)) (i + 1) files
      | Some arrayIDx \<Rightarrow>
          (if arrayIDx < length filesInfo
           then build_loop (filesInfo[arrayIDx := put_chunk file (filesInfo ! arrayIDx)])
                  filesSeenIndex i files
           else Panic IndexOutOfRange))"

definition BuildFilesInfoResponse :: "FilesWithChunks option list \<Rightarrow> FileInfoResponse list res" where
  "BuildFilesInfoResponse files = build_loop [] Map.empty 0 files"

subsection \<open>Reference: grouping by file\<close>

definition file_ids :: "FilesWithChunks list \<Rightarrow> string list" where
  "file_ids rows = rev (remdups (rev (map fwc_ID rows)))"

definition rows_of :: "FilesWithChunks list \<Rightarrow> string \<Rightarrow> FilesWithChunks list" where
  "rows_of rows i = filter (\<lambda>r. fwc_ID r = i) rows"

definition group_of :: "FilesWithChunks list \<Rightarrow> string \<Rightarrow> FileInfoResponse" where
  "group_of rows i = fold put_chunk (rows_of rows i) (file_info (hd (rows_of rows i)))"

definition group_files :: "FilesWithChunks list \<Rightarrow> FileInfoResponse list" where
  "group_files rows = map (group_of rows) (file_ids rows)"

subsection \<open>Lemmas\<close>

lemma put_chunk_sel [simp]:
  "fi_ID (put_chunk r f) = fi_ID f" "fi_NChunks (put_chunk r f) = fi_NChunks f"
  "fi_UserID (put_chunk r f) = fi_UserID f" "fi_Name (put_chunk r f) = fi_Name f"
  "fi_Size (put_chunk r f) = fi_Size f" "fi_Hash (put_chunk r f) = fi_Hash f"
  "fi_Type (put_chunk r f) = fi_Type f" "fi_CurrentFlag (put_chunk r f) = fi_CurrentFlag f"
  by (simp_all add: put_chunk_def)

lemma fold_put_chunk_sel [simp]:
  "fi_ID (fold put_chunk rs f) = fi_ID f" "fi_NChunks (fold put_chunk rs f) = fi_NChunks f"
  "fi_UserID (fold put_chunk rs f) = fi_UserID f" "fi_Name (fold put_chunk rs f) = fi_Name f"
  "fi_Size (fold put_chunk rs f) = fi_Size f"
  by (induction rs arbitrary: f) simp_all

lemma put_chunk_map: "map_of (fi_Chunks (put_chunk r f)) = (map_of (fi_Chunks f))(version_str r \<mapsto> r)"
  by (simp add: put_chunk_def update_conv')

lemma fold_put_chunk_wf: "map_wf (fi_Chunks f) \<Longrightarrow> map_wf (fi_Chunks (fold put_chunk rs f))"
  by (induction rs arbitrary: f) (simp_all add: put_chunk_def distinct_update)

lemma fold_put_chunk_map:
  "map_of (fi_Chunks (fold put_chunk rs f)) k =
     (case find (\<lambda>r. version_str r = k) (rev rs) of None \<Rightarrow> map_of (fi_Chunks f) k | Some r \<Rightarrow> Some r)"
proof (induction rs rule: rev_induct)
  case (snoc r rs)
  then show ?case by (simp add: put_chunk_map)
qed simp

lemma file_ids_snoc:
  "file_ids (rows @ [r]) =
     (if fwc_ID r \<in> fwc_ID ` set rows then file_ids rows else file_ids rows @ [fwc_ID r])"
  by (simp add: file_ids_def)

lemma set_file_ids [simp]: "set (file_ids rows) = fwc_ID ` set rows"
  by (simp add: file_ids_def)

lemma distinct_file_ids [simp]: "distinct (file_ids rows)"
  by (simp add: file_ids_def)

lemma rows_of_snoc: "rows_of (rows @ [r]) i = rows_of rows i @ (if fwc_ID r = i then [r] else [])"
  by (simp add: rows_of_def)

lemma rows_of_empty: "rows_of rows i = [] \<longleftrightarrow> i \<notin> fwc_ID ` set rows"
  by (auto simp: rows_of_def filter_empty_conv)

lemma rows_of_hd: "i \<in> fwc_ID ` set rows \<Longrightarrow> hd (rows_of rows i) \<in> set rows \<and> fwc_ID (hd (rows_of rows i)) = i"
proof -
  assume "i \<in> fwc_ID ` set rows"
  then have "rows_of rows i \<noteq> []" by (simp add: rows_of_empty)
  then have "hd (rows_of rows i) \<in> set (rows_of rows i)" by (rule hd_in_set)
  then show ?thesis by (simp add: rows_of_def)
qed

lemma group_of_snoc_other: "fwc_ID r \<noteq> i \<Longrightarrow> group_of (rows @ [r]) i = group_of rows i"
  by (simp add: group_of_def rows_of_snoc)

lemma group_of_snoc_old:
  "fwc_ID r \<in> fwc_ID ` set rows \<Longrightarrow>
     group_of (rows @ [r]) (fwc_ID r) = put_chunk r (group_of rows (fwc_ID r))"
  by (simp add: group_of_def rows_of_snoc rows_of_empty hd_append)

lemma group_of_snoc_new:
  "fwc_ID r \<notin> fwc_ID ` set rows \<Longrightarrow> group_of (rows @ [r]) (fwc_ID r) = put_chunk r (file_info r)"
  by (simp add: group_of_def rows_of_snoc rows_of_empty [THEN iffD2])

definition seen_ok :: "(string \<rightharpoonup> nat) \<Rightarrow> string list \<Rightarrow> bool" where
  "seen_ok seen ids \<longleftrightarrow> (\<forall>i n. seen i = Some n \<longleftrightarrow> n < length ids \<and> ids ! n = i)"

lemma seen_ok_None: "seen_ok seen ids \<Longrightarrow> seen i = None \<longleftrightarrow> i \<notin> set ids"
  unfolding seen_ok_def by (metis in_set_conv_nth not_None_eq)

lemma seen_ok_snoc: "seen_ok seen ids \<Longrightarrow> i \<notin> set ids \<Longrightarrow> seen_ok (seen(i \<mapsto> length ids)) (ids @ [i])"
  unfolding seen_ok_def by (auto simp: nth_append less_Suc_eq)

lemma group_files_snoc_old:
  assumes "fwc_ID r \<in> fwc_ID ` set rows" and "n < length (file_ids rows)" "file_ids rows ! n = fwc_ID r"
  shows "group_files (rows @ [r]) = (group_files rows)[n := put_chunk r (group_files rows ! n)]"
proof (rule nth_equalityI)
  show "length (group_files (rows @ [r])) = length ((group_files rows)[n := put_chunk r (group_files rows ! n)])"
    using assms(1) by (simp add: group_files_def file_ids_snoc)
next
  fix k
  assume "k < length (group_files (rows @ [r]))"
  then have k: "k < length (file_ids rows)" using assms(1) by (simp add: group_files_def file_ids_snoc)
  show "group_files (rows @ [r]) ! k = (group_files rows)[n := put_chunk r (group_files rows ! n)] ! k"
  proof (cases "k = n")
    case True
    with assms k show ?thesis by (simp add: group_files_def file_ids_snoc group_of_snoc_old)
  next
    case False
    with k assms have "file_ids rows ! k \<noteq> fwc_ID r"
      using nth_eq_iff_index_eq [OF distinct_file_ids k assms(2)] by simp
    with False k assms(1) show ?thesis
      by (simp add: group_files_def file_ids_snoc group_of_snoc_other)
  qed
qed

lemma group_files_snoc_new:
  "fwc_ID r \<notin> fwc_ID ` set rows \<Longrightarrow>
     group_files (rows @ [r]) = group_files rows @ [put_chunk r (file_info r)]"
proof -
  assume new: "fwc_ID r \<notin> fwc_ID ` set rows"
  then have "group_of (rows @ [r]) i = group_of rows i" if "i \<in> set (file_ids rows)" for i
    using that by (intro group_of_snoc_other) auto
  with new show ?thesis by (simp add: group_files_def file_ids_snoc group_of_snoc_new)
qed

lemma build_loop_correct:
  "seen_ok seen (file_ids done) \<Longrightarrow>
     build_loop (group_files done) seen (length (file_ids done)) (map Some rows)
       = OK (group_files (done @ rows))"
proof (induction rows arbitrary: "done" seen)
  case (Cons r rows)
  show ?case
  proof (cases "seen (fwc_ID r)")
    case None
    with Cons.prems have new: "fwc_ID r \<notin> fwc_ID ` set done" using seen_ok_None by fastforce
    with Cons.prems have "seen_ok (seen(fwc_ID r \<mapsto> length (file_ids done))) (file_ids (done @ [r]))"
      by (simp add: file_ids_snoc seen_ok_snoc)
    from Cons.IH [OF this] new None show ?thesis
      by (simp add: group_files_snoc_new file_ids_snoc fun_upd_def)
  next
    case (Some n)
    with Cons.prems have n: "n < length (file_ids done)" "file_ids done ! n = fwc_ID r"
      by (auto simp: seen_ok_def)
    then have old: "fwc_ID r \<in> fwc_ID ` set done" by (metis nth_mem set_file_ids)
    with Cons.prems have "seen_ok seen (file_ids (done @ [r]))" by (simp add: file_ids_snoc)
    from Cons.IH [OF this] n old Some show ?thesis
      by (simp add: group_files_snoc_old [OF old n] file_ids_snoc) (simp add: group_files_def)
  qed
qed simp

lemma build_loop_nil:
  "None \<in> set files \<Longrightarrow> \<exists>p. build_loop infos seen i files = Panic p"
proof (induction files arbitrary: infos seen i)
  case (Cons f files)
  then show ?case by (cases f) (auto split: option.splits)
qed simp

lemma Build_group: "BuildFilesInfoResponse (map Some rows) = OK (group_files rows)"
proof -
  have "seen_ok Map.empty (file_ids [])" by (simp add: seen_ok_def file_ids_def)
  from build_loop_correct [OF this, of rows] show ?thesis
    by (simp add: BuildFilesInfoResponse_def group_files_def file_ids_def)
qed

lemma group_files_ids: "map fi_ID (group_files rows) = file_ids rows"
proof -
  have "fi_ID (group_of rows i) = i" if "i \<in> set (file_ids rows)" for i
    using that rows_of_hd [of i rows] by (simp add: group_of_def file_info_def)
  then have "map (fi_ID \<circ> group_of rows) (file_ids rows) = map id (file_ids rows)"
    by (intro map_cong) simp_all
  then show ?thesis by (simp add: group_files_def)
qed

lemma group_of_wf: "map_wf (fi_Chunks (group_of rows i))"
  by (simp add: group_of_def fold_put_chunk_wf file_info_def)

lemma group_of_chunk:
  "map_of (fi_Chunks (group_of rows i)) k =
     find (\<lambda>r. version_str r = k) (rev (rows_of rows i))"
  by (simp add: group_of_def fold_put_chunk_map file_info_def split: option.splits)


subsection \<open>Properties\<close>

lemma ceil_bounds:
  fixes a c :: int
  assumes "0 < c"
  shows "((a + c - 1) div c - 1) * c < a" and "a \<le> (a + c - 1) div c * c"
proof -
  have "(a + c - 1) div c * c + (a + c - 1) mod c = a + c - 1" by (rule div_mult_mod_eq)
  moreover have "0 \<le> (a + c - 1) mod c" "(a + c - 1) mod c < c" using assms by simp_all
  ultimately show "a \<le> (a + c - 1) div c * c" and "((a + c - 1) div c - 1) * c < a"
    unfolding left_diff_distrib by linarith+
qed

lemma ceil_unique:
  fixes a c n :: int
  assumes "0 < c" and "(n - 1) * c < a" and "a \<le> n * c"
  shows "(a + c - 1) div c = n"
proof -
  note b = ceil_bounds [OF assms(1), of a]
  have "(n - 1) * c < (a + c - 1) div c * c" using assms(2) b(2) by linarith
  then have "n - 1 < (a + c - 1) div c" using assms(1) by (simp add: mult_less_cancel_right)
  moreover have "((a + c - 1) div c - 1) * c < n * c" using assms(3) b(1) by linarith
  then have "(a + c - 1) div c - 1 < n" using assms(1) by (simp add: mult_less_cancel_right)
  ultimately show ?thesis by linarith
qed

lemma CalculateChunks_exact:
  assumes "\<bar>fileSize\<bar> \<le> 2 ^ 52"
  shows "CalculateChunks fileSize =
    (if 0 \<le> fileSize then (fileSize + FrontendChunkSize - 1) div FrontendChunkSize
     else - (- fileSize div FrontendChunkSize))"
proof -
  let ?C = "FrontendChunkSize"
  have C: "?C = 4194304" by (simp add: FrontendChunkSize_def)
  then have pos: "0 < ?C" by simp
  have f: "f64_of_int fileSize = fileSize" "f64_of_int (fileSize + ?C) = fileSize + ?C"
    using assms by (intro f64_of_int_small; simp add: C)+
  have dm: "x div ?C * ?C + x mod ?C = x" "0 \<le> x mod ?C" "x mod ?C < ?C" for x
    using pos by simp_all
  show ?thesis
  proof (cases "0 \<le> fileSize")
    case True
    then have q: "tquot fileSize ?C = fileSize div ?C" "tquot (fileSize + ?C) ?C = fileSize div ?C + 1"
      using pos div_add_self2 [of ?C fileSize] by (simp_all add: tquot_nonneg)
    note m = dm(1) [of fileSize] dm(2) [of fileSize] dm(3) [of fileSize]
    have up: "(fileSize + ?C - 1) div ?C = fileSize div ?C + 1" if "fileSize div ?C * ?C < fileSize"
    proof (rule ceil_unique [OF pos])
      show "(fileSize div ?C + 1 - 1) * ?C < fileSize" using that by simp
      have "fileSize \<le> fileSize div ?C * ?C + 1 * ?C" using m by linarith
      then show "fileSize \<le> (fileSize div ?C + 1) * ?C" by (simp only: distrib_right)
    qed
    have even: "(fileSize + ?C - 1) div ?C = fileSize div ?C" if "\<not> fileSize div ?C * ?C < fileSize"
    proof (rule ceil_unique [OF pos])
      have "fileSize div ?C * ?C - 1 * ?C < fileSize" using m pos by linarith
      then show "(fileSize div ?C - 1) * ?C < fileSize" by (simp only: left_diff_distrib)
      show "fileSize \<le> fileSize div ?C * ?C" using that by simp
    qed
    from True up even show ?thesis by (simp add: CalculateChunks_def Let_def f q)
  next
    case False
    then have "tquot fileSize ?C = - (- fileSize div ?C)" using pos by (simp add: tquot_def)
    moreover have "fileSize \<le> - (- fileSize div ?C) * ?C"
      unfolding mult_minus_left using dm(1) [of "- fileSize"] dm(2) [of "- fileSize"] by linarith
    ultimately show ?thesis using False by (simp add: CalculateChunks_def f)
  qed
qed

text \<open>
  C32.  The chunk count of a file of up to \<open>2^52\<close> bytes is the number of 4 MiB chunks that hold it,
  and no smaller number does.  A negative size is not refused: its count is zero or negative.
\<close>

theorem CalculateChunks_ceiling:
  assumes "\<bar>fileSize\<bar> \<le> 2 ^ 52"
  shows "(0 \<le> fileSize \<longrightarrow> 0 \<le> CalculateChunks fileSize \<and>
      (CalculateChunks fileSize - 1) * FrontendChunkSize < fileSize \<and>
      fileSize \<le> CalculateChunks fileSize * FrontendChunkSize) \<and>
    (fileSize < 0 \<longrightarrow> CalculateChunks fileSize \<le> 0 \<and>
      (fileSize \<le> - FrontendChunkSize \<longrightarrow> CalculateChunks fileSize < 0))"
proof (cases "0 \<le> fileSize")
  case True
  have pos: "0 < FrontendChunkSize" by (simp add: FrontendChunkSize_def)
  with True have "0 \<le> (fileSize + FrontendChunkSize - 1) div FrontendChunkSize"
    by (simp add: pos_imp_zdiv_nonneg_iff)
  with True ceil_bounds [OF pos, of fileSize] show ?thesis by (simp add: CalculateChunks_exact [OF assms])
next
  case False
  have pos: "0 < FrontendChunkSize" by (simp add: FrontendChunkSize_def)
  from False pos have "0 \<le> - fileSize div FrontendChunkSize" by (simp add: pos_imp_zdiv_nonneg_iff)
  moreover have "1 \<le> - fileSize div FrontendChunkSize" if "FrontendChunkSize \<le> - fileSize"
    using zdiv_mono1 [OF that pos] pos by simp
  ultimately show ?thesis using False by (auto simp: CalculateChunks_exact [OF assms])
qed

theorem CalculateChunks_ceiling_witness:
  "0 \<le> CalculateChunks 5000000 \<and> (CalculateChunks 5000000 - 1) * 4194304 < 5000000 \<and>
   5000000 \<le> CalculateChunks 5000000 * 4194304 \<and> CalculateChunks (- 5000000) < 0"
  using CalculateChunks_ceiling [of 5000000] CalculateChunks_ceiling [of "- 5000000"]
  by (simp add: FrontendChunkSize_def)

text \<open>
  Grouping joined rows by file: on rows without nil pointers \<open>BuildFilesInfoResponse\<close> does not
  fail, returns one entry per file id in order of first appearance, each with the file's columns
  of its first row and a chunk map without repeated keys in which a chunk id leads to the last row
  of that file with that chunk id; a nil pointer anywhere makes it panic.
\<close>

theorem BuildFilesInfoResponse_groups:
  "(\<exists>infos. BuildFilesInfoResponse (map Some rows) = OK infos \<and>
      map fi_ID infos = rev (remdups (rev (map fwc_ID rows))) \<and>
      (\<forall>f \<in> set infos. map_wf (fi_Chunks f) \<and>
         f\<lparr>fi_Chunks := []\<rparr> = file_info (hd (filter (\<lambda>r. fwc_ID r = fi_ID f) rows)) \<and>
         (\<forall>c. map_of (fi_Chunks f) (fmt_d c) =
            find (\<lambda>r. fwc_ChunkID r = c) (rev (filter (\<lambda>r. fwc_ID r = fi_ID f) rows))))) \<and>
   (None \<in> set files \<longrightarrow> (\<exists>p. BuildFilesInfoResponse files = Panic p))"
proof -
  have info: "(fold put_chunk rs f)\<lparr>fi_Chunks := []\<rparr> = f\<lparr>fi_Chunks := []\<rparr>" for rs f
    by (induction rs arbitrary: f) (simp_all add: put_chunk_def)
  have "map_wf (fi_Chunks f) \<and> f\<lparr>fi_Chunks := []\<rparr> = file_info (hd (filter (\<lambda>r. fwc_ID r = fi_ID f) rows)) \<and>
      (\<forall>c. map_of (fi_Chunks f) (fmt_d c) =
         find (\<lambda>r. fwc_ChunkID r = c) (rev (filter (\<lambda>r. fwc_ID r = fi_ID f) rows)))"
    if "f \<in> set (group_files rows)" for f
  proof -
    from that obtain i where i: "i \<in> fwc_ID ` set rows" and f: "f = group_of rows i"
      by (auto simp: group_files_def)
    have id: "fi_ID f = i" using i rows_of_hd [of i rows] by (simp add: f group_of_def file_info_def)
    show ?thesis
      unfolding id by (simp add: f group_of_wf group_of_chunk version_str_def fmt_d_inj rows_of_def)
        (simp add: group_of_def rows_of_def info, simp add: file_info_def)
  qed
  then show ?thesis
    by (auto simp: Build_group group_files_ids file_ids_def BuildFilesInfoResponse_def [of files] build_loop_nil)
qed

theorem BuildFilesInfoResponse_groups_witness:
  "\<exists>p. BuildFilesInfoResponse [None] = Panic p \<and> BuildFilesInfoResponse [] = OK []"
  using BuildFilesInfoResponse_groups [of "[]" "[None]"] by (auto simp: BuildFilesInfoResponse_def)

end
