(* ===== verification/SqlStore.thy ===== *)
theory SqlStore
  imports FilesModel
begin

text \<open>
  The SQL statements of \<open>core/files/queries.metadata.sql\<close>,
  \<open>core/files/user_files.queries.sql\<close> and \<open>core/tokens/queries.sql\<close> as functions on the
  tables, and the well-formedness of the tables that the operations keep.
\<close>

subsection \<open>Statements on file metadata\<close>

definition sql_CreateFileMetadata :: "FileMetadata \<Rightarrow> db \<Rightarrow> db" where
  "sql_CreateFileMetadata row d = d\<lparr>file_metadatas := file_metadatas d @ [row]\<rparr>"

text \<open>\<open>UPDATE \<dots> SET current_flag, end_date, upload_status WHERE id = :id %s\<close>; the condition that
  replaces \<open>%s\<close> is \<open>extra\<close>.\<close>

definition sql_UpdateCurrentFlag ::
    "(FileMetadata \<Rightarrow> bool) \<Rightarrow> bool \<Rightarrow> gotime option \<Rightarrow> string \<Rightarrow> string \<Rightarrow> db \<Rightarrow> db" where
  "sql_UpdateCurrentFlag extra flag end_date upload_status i d =
     d\<lparr>file_metadatas := map (\<lambda>row. if fm_ID row = i \<and> extra row
         then row\<lparr>fm_CurrentFlag := flag, fm_EndDate := end_date, fm_UploadStaus := upload_status\<rparr>
         else row) (file_metadatas d)\<rparr>"

definition sql_FindByHash :: "string \<Rightarrow> db \<Rightarrow> nat" where
  "sql_FindByHash h d = length (filter (\<lambda>row. fm_FileHash row = h) (file_metadatas d))"

definition sql_join :: "(FileMetadata \<Rightarrow> bool) \<Rightarrow> db \<Rightarrow> (FileMetadata \<times> UserFile) list" where
  "sql_join p d = concat (map (\<lambda>fm. map (Pair fm) (filter (\<lambda>uf. uf_FileID uf = fm_ID fm) (user_files d)))
     (filter p (file_metadatas d)))"

text \<open>The column lists of \<open>SelectFilesForUser\<close> and \<open>GetFilesForUser\<close> scanned into
  \<open>FilesWithChunks\<close>: a column that is not selected leaves the field at its zero value; of the
  two columns named \<open>created_at\<close> in the first one, the later wins.\<close>

definition scan_select :: "FileMetadata \<times> UserFile \<Rightarrow> FilesWithChunks" where
  "scan_select p = (case p of (fm, uf) \<Rightarrow>
     \<lparr>fwc_ID = fm_ID fm, fwc_UserID = fm_UserID fm, fwc_Filename = fm_Filename fm,
      fwc_FileSize = fm_FileSize fm, fwc_FileType = fm_FileType fm, fwc_FileHash = fm_FileHash fm,
      fwc_NChunks = fm_NChunks fm, fwc_CurrentFlag = fm_CurrentFlag fm, fwc_UploadStaus = [],
      fwc_FileID = [], fwc_ChunkID = uf_ChunkID uf, fwc_ChunkBlobUrl = uf_ChunkBlobUrl uf,
      fwc_ChunkHash = uf_ChunkHash uf, fwc_NextChunkID = uf_NextChunkID uf,
      fwc_PrevID = fm_PrevID fm, fwc_EndDate = fm_EndDate fm, fwc_Timestamp = uf_Timestamp uf\<rparr>)"

definition scan_list :: "FileMetadata \<times> UserFile \<Rightarrow> FilesWithChunks" where
  "scan_list p = (scan_select p)\<lparr>fwc_EndDate := None,
     fwc_Timestamp := \<lparr>ts_CreatedAt = ts_CreatedAt (fm_Timestamp (fst p)), ts_UpdatedAt = 0\<rparr>\<rparr>"

text \<open>\<open>LIMIT l OFFSET o\<close>: SQLite reads a negative limit as no limit and a negative offset as 0.\<close>

definition sql_page :: "int \<Rightarrow> int \<Rightarrow> 'a list \<Rightarrow> 'a list" where
  "sql_page l off rows = (let rest = drop (nat off) rows in if l < 0 then rest else take (nat l) rest)"

subsection \<open>The WHERE clause of FindBy\<close>

definition opt_text :: "string option \<Rightarrow> sqlval" where
  "opt_text x = (case x of None \<Rightarrow> SNull | Some s \<Rightarrow> SText s)"

definition fm_column :: "string \<Rightarrow> FileMetadata \<Rightarrow> sqlval option" where
  "fm_column key row =
     map_of [(''id'', SText (fm_ID row)), (''prev_id'', opt_text (fm_PrevID row)),
       (''user_id'', SText (fm_UserID row)), (''file_name'', SText (fm_Filename row)),
       (''file_size'', SInt (fm_FileSize row)), (''file_type'', SText (fm_FileType row)),
       (''file_hash'', SText (fm_FileHash row)), (''chunks'', SInt (fm_NChunks row)),
       (''current_flag'', SInt (if fm_CurrentFlag row then 1 else 0)),
       (''upload_status'', SText (fm_UploadStaus row)),
       (''created_at'', STime (ts_CreatedAt (fm_Timestamp row))),
       (''updated_at'', STime (ts_UpdatedAt (fm_Timestamp row))),
       (''end_date'', (case fm_EndDate row of None \<Rightarrow> SNull | Some t \<Rightarrow> STime t))] key"

text \<open>The operators the clauses may use: \<open>=\<close> is never true of NULL, \<open>IS\<close> compares NULLs too.\<close>

definition sql_op :: "string \<Rightarrow> (sqlval \<Rightarrow> sqlval \<Rightarrow> bool) option" where
  "sql_op oper =
     (if oper = ''='' then Some (\<lambda>a b. a \<noteq> SNull \<and> a = b)
      else if oper = ''IS'' then Some (\<lambda>a b. a = b)
      else None)"

text \<open>One clause on one row: the column, the operator and the named argument of its placeholder.
  \<open>None\<close> stands for a clause the statement cannot be prepared or bound with.\<close>

definition clause_holds :: "(string \<rightharpoonup> sqlval) \<Rightarrow> FindKV \<Rightarrow> FileMetadata \<Rightarrow> bool option" where
  "clause_holds args kv row =
     (let name = (if kv_PlaceHolder kv = [] then kv_Key kv else tl (kv_PlaceHolder kv))
      in case (sql_op (kv_Operator kv), fm_column (kv_Key kv) row, args name) of
           (Some f, Some a, Some b) \<Rightarrow> Some (f a b)
         | _ \<Rightarrow> None)"

definition where_holds :: "FindKV list \<Rightarrow> FileMetadata \<Rightarrow> bool" where
  "where_holds clauses row =
     list_all (\<lambda>kv. clause_holds (FindClause_Args clauses) kv row = Some True) clauses"

definition where_wf :: "FindKV list \<Rightarrow> bool" where
  "where_wf clauses = list_all (\<lambda>kv.
     kv_Operator kv \<in> {''='', ''IS''} \<and>
     kv_Key kv \<in> {''id'', ''prev_id'', ''user_id'', ''file_name'', ''file_size'', ''file_type'', ''file_hash'',
       ''chunks'', ''current_flag'', ''upload_status'', ''created_at'', ''updated_at'', ''end_date''} \<and>
     (kv_PlaceHolder kv = [] \<or> hd (kv_PlaceHolder kv) = CHR '':'')) clauses"

definition where_bound :: "FindKV list \<Rightarrow> bool" where
  "where_bound clauses = list_all (\<lambda>kv.
     kv_PlaceHolder kv = [] \<or> FindClause_Args clauses (tl (kv_PlaceHolder kv)) \<noteq> None) clauses"

subsection \<open>Statements on chunks and tokens\<close>

definition sql_CreateFileChunk :: "UserFile \<Rightarrow> db \<Rightarrow> db" where
  "sql_CreateFileChunk row d = d\<lparr>user_files := user_files d @ [row]\<rparr>"

definition sql_CreateToken :: "Token \<Rightarrow> db \<Rightarrow> db" where
  "sql_CreateToken t d = d\<lparr>tokens_tbl := tokens_tbl d @ [t\<lparr>tk_DeviceID := []\<rparr>]\<rparr>"

text \<open>\<open>GetStreamToken\<close> with its \<open>LIMIT 1\<close>; a NULL \<open>:user_id\<close> never equals a column.\<close>

definition sql_GetStreamToken :: "string \<Rightarrow> string \<Rightarrow> string option \<Rightarrow> string \<Rightarrow> db \<Rightarrow> Token list" where
  "sql_GetStreamToken access_token resource_id user_id resource_type d =
     take 1 (filter (\<lambda>t. tk_AccessToken t = access_token \<and> tk_ResourceID t = resource_id \<and>
        user_id \<noteq> None \<and> tk_UserID t = user_id \<and> tk_ResouceType t = resource_type) (tokens_tbl d))"

subsection \<open>Well-formed tables\<close>

text \<open>File ids are unique, a version's predecessor is a file of the table other than itself, a
  current file has left the state \<open>uploading\<close>, and a stream token names a file of the table.\<close>

definition files_wf :: "FileMetadata list \<Rightarrow> bool" where
  "files_wf rows \<longleftrightarrow> distinct (map fm_ID rows) \<and>
     (\<forall>row \<in> set rows. \<forall>p. fm_PrevID row = Some p \<longrightarrow> p \<in> fm_ID ` set rows \<and> p \<noteq> fm_ID row) \<and>
     (\<forall>row \<in> set rows. fm_CurrentFlag row \<longrightarrow> fm_UploadStaus row \<noteq> StatusUploading)"

definition db_wf :: "db \<Rightarrow> bool" where
  "db_wf d \<longleftrightarrow> files_wf (file_metadatas d) \<and>
     (\<forall>t \<in> set (tokens_tbl d). tk_ResouceType t = ''stream'' \<longrightarrow>
        tk_ResourceID t \<in> fm_ID ` set (file_metadatas d))"

definition file_row :: "string \<Rightarrow> db \<Rightarrow> FileMetadata option" where
  "file_row i d = find (\<lambda>row. fm_ID row = i) (file_metadatas d)"

definition file_chunks :: "string \<Rightarrow> db \<Rightarrow> UserFile list" where
  "file_chunks i d = filter (\<lambda>uf. uf_FileID uf = i) (user_files d)"

subsection \<open>Lemmas\<close>

lemma sql_tables [simp]:
  "file_metadatas (sql_CreateFileMetadata row d) = file_metadatas d @ [row]"
  "user_files (sql_CreateFileMetadata row d) = user_files d"
  "tokens_tbl (sql_CreateFileMetadata row d) = tokens_tbl d"
  "user_files (sql_UpdateCurrentFlag ex fl ed st i d) = user_files d"
  "tokens_tbl (sql_UpdateCurrentFlag ex fl ed st i d) = tokens_tbl d"
  "file_metadatas (sql_CreateFileChunk u d) = file_metadatas d"
  "user_files (sql_CreateFileChunk u d) = user_files d @ [u]"
  "tokens_tbl (sql_CreateFileChunk u d) = tokens_tbl d"
  "file_metadatas (sql_CreateToken t d) = file_metadatas d"
  "user_files (sql_CreateToken t d) = user_files d"
  "tokens_tbl (sql_CreateToken t d) = tokens_tbl d @ [t\<lparr>tk_DeviceID := []\<rparr>]"
  by (simp_all add: sql_CreateFileMetadata_def sql_UpdateCurrentFlag_def sql_CreateFileChunk_def
      sql_CreateToken_def)

lemma scan_select_sel [simp]:
  "fwc_ID (scan_select p) = fm_ID (fst p)" "fwc_UserID (scan_select p) = fm_UserID (fst p)"
  "fwc_NChunks (scan_select p) = fm_NChunks (fst p)" "fwc_ChunkID (scan_select p) = uf_ChunkID (snd p)"
  "fwc_ChunkBlobUrl (scan_select p) = uf_ChunkBlobUrl (snd p)"
  "fwc_ChunkHash (scan_select p) = uf_ChunkHash (snd p)"
  "fwc_NextChunkID (scan_select p) = uf_NextChunkID (snd p)"
  "fwc_FileSize (scan_select p) = fm_FileSize (fst p)" "fwc_Filename (scan_select p) = fm_Filename (fst p)"
  by (cases p; simp add: scan_select_def)+

lemma scan_list_sel [simp]:
  "fwc_ID (scan_list p) = fm_ID (fst p)" "fwc_UserID (scan_list p) = fm_UserID (fst p)"
  by (simp_all add: scan_list_def)

lemma set_sql_join:
  "(fm, uf) \<in> set (sql_join p d) \<longleftrightarrow>
     fm \<in> set (file_metadatas d) \<and> p fm \<and> uf \<in> set (user_files d) \<and> uf_FileID uf = fm_ID fm"
  by (auto simp: sql_join_def)

lemma find_distinct:
  "distinct (map f xs) \<Longrightarrow> x \<in> set xs \<Longrightarrow> find (\<lambda>y. f y = f x) xs = Some x"
  by (induction xs) auto

lemma file_row_Some:
  "distinct (map fm_ID (file_metadatas d)) \<Longrightarrow>
     file_row i d = Some row \<longleftrightarrow> row \<in> set (file_metadatas d) \<and> fm_ID row = i"
  using find_distinct [of fm_ID "file_metadatas d" row]
  by (auto simp: file_row_def find_Some_iff)

lemma file_row_None: "file_row i d = None \<longleftrightarrow> i \<notin> fm_ID ` set (file_metadatas d)"
  by (auto simp: file_row_def find_None_iff)

lemma map_fm_ID_update [simp]:
  "map fm_ID (file_metadatas (sql_UpdateCurrentFlag ex fl ed st i d)) = map fm_ID (file_metadatas d)"
  by (simp add: sql_UpdateCurrentFlag_def)

lemma find_map_same:
  "(\<And>x. f (g x) = f x) \<Longrightarrow> find (\<lambda>y. f y = k) (map g xs) = map_option g (find (\<lambda>y. f y = k) xs)"
  by (induction xs) auto

lemma file_row_update:
  "file_row k (sql_UpdateCurrentFlag ex fl ed st i d) =
     map_option (\<lambda>row. if fm_ID row = i \<and> ex row
        then row\<lparr>fm_CurrentFlag := fl, fm_EndDate := ed, fm_UploadStaus := st\<rparr> else row) (file_row k d)"
  unfolding file_row_def sql_UpdateCurrentFlag_def by (simp add: find_map_same)

lemma file_row_id: "file_row i d = Some row \<Longrightarrow> fm_ID row = i"
  by (auto simp: file_row_def find_Some_iff)

lemma files_wf_map:
  assumes "files_wf rows" and i: "\<And>r. fm_ID (g r) = fm_ID r" and p: "\<And>r. fm_PrevID (g r) = fm_PrevID r"
    and u: "\<And>r. r \<in> set rows \<Longrightarrow> fm_CurrentFlag (g r) \<Longrightarrow> fm_UploadStaus (g r) \<noteq> StatusUploading"
  shows "files_wf (map g rows)"
proof -
  have "fm_ID \<circ> g = fm_ID" by (rule ext) (simp add: i)
  moreover have "fm_ID ` g ` set rows = fm_ID ` set rows" by (simp add: image_image i)
  ultimately show ?thesis using assms(1) u unfolding files_wf_def by (simp add: i p)
qed

lemma files_wf_update:
  assumes "files_wf rows" and "fl \<longrightarrow> st \<noteq> StatusUploading"
  shows "files_wf (map (\<lambda>row. if P row then row\<lparr>fm_CurrentFlag := fl, fm_EndDate := ed, fm_UploadStaus := st\<rparr>
     else row) rows)"
  using assms by (intro files_wf_map) (auto simp: files_wf_def split: if_splits)

lemma db_wf_update:
  "db_wf d \<Longrightarrow> fl \<longrightarrow> st \<noteq> StatusUploading \<Longrightarrow> db_wf (sql_UpdateCurrentFlag ex fl ed st i d)"
proof -
  assume wf: "db_wf d" and st: "fl \<longrightarrow> st \<noteq> StatusUploading"
  have ids: "fm_ID ` set (file_metadatas (sql_UpdateCurrentFlag ex fl ed st i d)) = fm_ID ` set (file_metadatas d)"
    by (metis list.set_map map_fm_ID_update)
  have "files_wf (file_metadatas (sql_UpdateCurrentFlag ex fl ed st i d))"
    using wf st files_wf_update [of "file_metadatas d" fl st "\<lambda>row. fm_ID row = i \<and> ex row" ed]
    by (simp add: db_wf_def sql_UpdateCurrentFlag_def)
  with wf show ?thesis unfolding db_wf_def ids by simp
qed

lemma files_wf_snoc:
  assumes "files_wf rows" and "fm_ID row \<notin> fm_ID ` set rows"
    and "\<And>p. fm_PrevID row = Some p \<Longrightarrow> p \<in> fm_ID ` set rows"
    and "\<not> fm_CurrentFlag row"
  shows "files_wf (rows @ [row])"
  using assms unfolding files_wf_def by auto

lemma db_wf_create_file:
  assumes "db_wf d" and "fm_ID row \<notin> fm_ID ` set (file_metadatas d)"
    and "\<And>p. fm_PrevID row = Some p \<Longrightarrow> p \<in> fm_ID ` set (file_metadatas d)"
    and "\<not> fm_CurrentFlag row"
  shows "db_wf (sql_CreateFileMetadata row d)"
  using assms files_wf_snoc [of "file_metadatas d" row] unfolding db_wf_def by auto

lemma db_wf_create_token:
  "db_wf d \<Longrightarrow> tk_ResouceType t = ''stream'' \<longrightarrow> tk_ResourceID t \<in> fm_ID ` set (file_metadatas d) \<Longrightarrow>
     db_wf (sql_CreateToken t d)"
  unfolding db_wf_def by auto

lemma db_wf_create_chunk: "db_wf d \<Longrightarrow> db_wf (sql_CreateFileChunk u d)"
  unfolding db_wf_def by simp

lemmas db_wf_intros = db_wf_update db_wf_create_file db_wf_create_token db_wf_create_chunk

end
