(* ===== verification/FilesRepo.thy ===== *)
theory FilesRepo
  imports SqlStore
begin

text \<open>
  The repositories of package \<open>files\<close>: \<open>MetadataRepository\<close> and \<open>MetadataTokenRepository\<close>
  (\<open>core/files/repository.go\<close>) and \<open>UserFileRepository\<close> (\<open>core/files/userfiles.service.go\<close>).
  An operation makes its driver calls in the order of the code; a transaction works on a copy
  of the tables that \<open>tx_commit\<close> installs, so a rolled back or uncommitted transaction leaves
  the tables as they were.  The interface \<open>tx_operation\<close> states what the transactional
  operations share.
\<close>

subsection \<open>Names and errors\<close>

definition CreateFileMetadataStmt :: string where "CreateFileMetadataStmt = ''CreateFileMetadata''"
definition GetFilesForUserStmt :: string where "GetFilesForUserStmt = ''GetFilesForUser''"
definition UpdateCurrentFlagStmt :: string where "UpdateCurrentFlagStmt = ''UpdateCurrentFlag''"
definition FindByHashStmt :: string where "FindByHashStmt = ''FindByHash''"
definition SelectFilesForUserStmt :: string where "SelectFilesForUserStmt = ''SelectFilesForUser''"
definition CreateFileChunkStmt :: string where "CreateFileChunkStmt = ''CreateFileChunk''"
definition GetFileChunksStmt :: string where "GetFileChunksStmt = ''GetFileChunks''"
definition GetChunkForFileStmt :: string where "GetChunkForFileStmt = ''GetChunkForFile''"
definition CreateTokenStmt :: string where "CreateTokenStmt = ''CreateToken''"

definition ErrorStmtNotFound :: goerr where "ErrorStmtNotFound = ''stmt_not_found''"
definition ErrDuplicateFile :: goerr where "ErrDuplicateFile = ''duplicate_file''"
definition DefaultLimit :: int where "DefaultLimit = 20"

text \<open>Every statement the repositories ask for is in its query store.\<close>

definition stmts_loaded :: "'r env \<Rightarrow> bool" where
  "stmts_loaded E \<longleftrightarrow>
     (\<forall>s \<in> {CreateFileMetadataStmt, GetFilesForUserStmt, UpdateCurrentFlagStmt, FindByHashStmt,
        SelectFilesForUserStmt, ''FindBy''}. e_metaQ E s \<noteq> None) \<and>
     e_chunkQ E CreateFileChunkStmt \<noteq> None \<and>
     (\<forall>s \<in> {CreateTokenStmt, ''GetStreamToken''}. e_tokenQ E s \<noteq> None)"

definition tx_commit :: "'r env \<Rightarrow> db \<Rightarrow> 'r world \<Rightarrow> unit res \<times> 'r world" where
  "tx_commit E tx w =
     (case ext_call E w of
        (Some e, w1) \<Rightarrow> (Err e, w1)
      | (None, w1) \<Rightarrow> (OK (), w1\<lparr>w_db := tx\<rparr>))"

subsection \<open>MetadataRepository\<close>

definition MetadataRepository_Create :: "'r env \<Rightarrow> FileMetadata \<Rightarrow> 'r world \<Rightarrow> FileMetadata res \<times> 'r world" where
  "MetadataRepository_Create E metadata w =
     (case e_metaQ E CreateFileMetadataStmt of
        None \<Rightarrow> (Err ''query_retriever_failed:2001:500'', w)
      | Some stmt \<Rightarrow>
          (case ext_call E w of
             (Some e, w1) \<Rightarrow> (Err ''token_generation_failed:2003:500'', w1)
           | (None, w1) \<Rightarrow> (OK metadata, w1\<lparr>w_db := sql_CreateFileMetadata metadata (w_db w1)\<rparr>)))"

definition MetadataRepository_FindBy :: "'r env \<Rightarrow> FindKV list \<Rightarrow> 'r world \<Rightarrow> FileMetadata list res \<times> 'r world" where
  "MetadataRepository_FindBy E clauses w =
     (if clauses = [] then (Err ''clause is not present'', w)
      else case e_metaQ E ''FindBy'' of
        None \<Rightarrow> (Err ErrorStmtNotFound, w)
      | Some stmtTmpl \<Rightarrow>
          (case ext_call E w of (perr, w1) \<Rightarrow>
             if perr \<noteq> None \<or> \<not> where_wf clauses
             then (Err ''failed to construct prepared stmt'', w1)
             else if \<not> where_bound clauses then (Err ''could not find name'', w1)
             else case ext_call E w1 of
               (Some e, w2) \<Rightarrow> (Err e, w2)
             | (None, w2) \<Rightarrow> (OK (filter (where_holds clauses) (file_metadatas (w_db w2))), w2)))"

text \<open>\<open>FindByHash\<close> returns two values; a driver error is reported as not found.\<close>

definition MetadataRepository_FindByHash :: "'r env \<Rightarrow> string \<Rightarrow> 'r world \<Rightarrow> (bool \<times> goerr option) \<times> 'r world" where
  "MetadataRepository_FindByHash E hashStr w =
     (case e_metaQ E FindByHashStmt of
        None \<Rightarrow> ((False, Some ErrorStmtNotFound), w)
      | Some stmt \<Rightarrow>
          (case ext_call E w of
             (Some e, w1) \<Rightarrow> ((False, None), w1)
           | (None, w1) \<Rightarrow>
               (let found = sql_FindByHash hashStr (w_db w1)
                in ((0 < found, if 0 < found then Some ErrDuplicateFile else None), w1))))"

definition MetadataRepository_SelectFiles ::
    "'r env \<Rightarrow> string list \<Rightarrow> 'r world \<Rightarrow> FilesWithChunks list res \<times> 'r world" where
  "MetadataRepository_SelectFiles E ids w =
     (case e_metaQ E SelectFilesForUserStmt of
        None \<Rightarrow> (Err ErrorStmtNotFound, w)
      | Some stmt \<Rightarrow>
          (if ids = [] then (Err ''empty slice passed to 'in' query'', w)
           else case ext_call E w of
             (Some e, w1) \<Rightarrow> (Err e, w1)
           | (None, w1) \<Rightarrow>
               (OK (map scan_select (e_order E (w_tick w) (sql_join (\<lambda>fm. fm_ID fm \<in> set ids) (w_db w1)))), w1)))"

definition MetadataRepository_Update ::
    "'r env \<Rightarrow> string option \<Rightarrow> string \<Rightarrow> string \<Rightarrow> 'r world \<Rightarrow> unit res \<times> 'r world" where
  "MetadataRepository_Update E prevFileID newFileID uploadStatus w =
     (case ext_call E w of (beginErr, w1) \<Rightarrow>
      (case e_metaQ E UpdateCurrentFlagStmt of
         None \<Rightarrow> (Err ErrorStmtNotFound, w1)
       | Some stmtTmpl \<Rightarrow>
         (if beginErr \<noteq> None then (Panic NilDeref, w1)
          else case ext_call E w1 of
            (Some e, w2) \<Rightarrow> (Err e, w2)
          | (None, w2) \<Rightarrow>
              (let tx = sql_UpdateCurrentFlag (\<lambda>row. fm_PrevID row = prevFileID) True None
                          uploadStatus newFileID (w_db w2)
               in case prevFileID of
                    None \<Rightarrow> tx_commit E tx w2
                  | Some prev \<Rightarrow>
                      (case Now E w2 of (now, w3) \<Rightarrow>
                       (case ext_call E w3 of
                          (Some e, w4) \<Rightarrow> (Err e, w4)
                        | (None, w4) \<Rightarrow>
                            tx_commit E (sql_UpdateCurrentFlag (\<lambda>row. True) False (Some now)
                              uploadStatus prev tx) w4))))))"

text \<open>The loop that scans the rows of a page; the first row that fails stops it.\<close>

fun scan_rows :: "'r env \<Rightarrow> 'a list \<Rightarrow> 'r world \<Rightarrow> bool \<times> 'r world" where
  "scan_rows E [] w = (True, w)"
| "scan_rows E (x # xs) w =
     (case ext_call E w of
        (Some e, w1) \<Rightarrow> (False, w1)
      | (None, w1) \<Rightarrow> scan_rows E xs w1)"

definition wrap64 :: "int \<Rightarrow> int" where
  "wrap64 x = (x + 2 ^ 63) mod 2 ^ 64 - 2 ^ 63"

definition MetadataRepository_ListByUserID ::
    "'r env \<Rightarrow> string \<Rightarrow> int \<Rightarrow> int \<Rightarrow> 'r world \<Rightarrow> (FilesWithChunks option list \<times> bool) res \<times> 'r world" where
  "MetadataRepository_ListByUserID E userID offset limit w =
     (case e_metaQ E GetFilesForUserStmt of
        None \<Rightarrow> (Err ''query_retriever_failed:2001:500'', w)
      | Some stmtTmpl \<Rightarrow>
          (let lim = (if limit = 0 then DefaultLimit else limit)
           in case ext_call E w of
                (Some e, w1) \<Rightarrow> (Err ''database_failed:2002:500'', w1)
              | (None, w1) \<Rightarrow>
                  (let results = map scan_list (sql_page (wrap64 (lim + 1)) offset
                         (e_order E (w_tick w)
                           (sql_join (\<lambda>fm. fm_UserID fm = userID \<and> fm_CurrentFlag fm) (w_db w1))))
                   in case scan_rows E results w1 of
                        (False, w2) \<Rightarrow> (Err ''record_unmarshal_failed:2003:500'', w2)
                      | (True, w2) \<Rightarrow>
                          (res_map (\<lambda>page. (page, lim < int (length results)))
                             (slice_to (e_cap E (length results)) results lim), w2))))"

subsection \<open>MetadataTokenRepository\<close>

definition MetadataTokenRepository_CreateMetadataToken ::
    "'r env \<Rightarrow> FileMetadata \<Rightarrow> Token \<Rightarrow> 'r world \<Rightarrow> unit res \<times> 'r world" where
  "MetadataTokenRepository_CreateMetadataToken E metadata token w =
     (case e_metaQ E CreateFileMetadataStmt of
        None \<Rightarrow> (Err ErrorStmtNotFound, w)
      | Some metaCreateStmt \<Rightarrow>
        (case e_tokenQ E CreateTokenStmt of
           None \<Rightarrow> (Err ErrorStmtNotFound, w)
         | Some tokenStmt \<Rightarrow>
           (case ext_call E w of
              (Some e, w1) \<Rightarrow> (Err e, w1)
            | (None, w1) \<Rightarrow>
              (case ext_call E w1 of
                 (Some e, w2) \<Rightarrow> (Err e, w2)
               | (None, w2) \<Rightarrow>
                 (case ext_call E w2 of
                    (Some e, w3) \<Rightarrow> (Err e, w3)
                  | (None, w3) \<Rightarrow>
                      tx_commit E (sql_CreateToken token (sql_CreateFileMetadata metadata (w_db w3))) w3)))))"

text \<open>Its body is commented out in the code: it does nothing and reports success.\<close>

definition MetadataTokenRepository_UpdateMetadataToken ::
    "'r env \<Rightarrow> FileMetadata \<Rightarrow> Token \<Rightarrow> 'r world \<Rightarrow> unit res \<times> 'r world" where
  "MetadataTokenRepository_UpdateMetadataToken E metadata token w = (OK (), w)"

subsection \<open>UserFileRepository\<close>

definition UserFileRepository_Create :: "'r env \<Rightarrow> UserFile \<Rightarrow> 'r world \<Rightarrow> unit res \<times> 'r world" where
  "UserFileRepository_Create E userFile w =
     (case e_chunkQ E CreateFileChunkStmt of
        None \<Rightarrow> (Err ErrorStmtNotFound, w)
      | Some stmt \<Rightarrow>
          (case ext_call E w of
             (Some e, w1) \<Rightarrow> (Err e, w1)
           | (None, w1) \<Rightarrow> (OK (), w1\<lparr>w_db := sql_CreateFileChunk userFile (w_db w1)\<rparr>)))"

fun batch_exec :: "'r env \<Rightarrow> UserFile list \<Rightarrow> db \<Rightarrow> 'r world \<Rightarrow> (goerr + db) \<times> 'r world" where
  "batch_exec E [] tx w = (Inr tx, w)"
| "batch_exec E (chunk # chunks) tx w =
     (case ext_call E w of
        (Some e, w1) \<Rightarrow> (Inl e, w1)
      | (None, w1) \<Rightarrow> batch_exec E chunks (sql_CreateFileChunk chunk tx) w1)"

definition UserFileRepository_CreateBatch :: "'r env \<Rightarrow> UserFile list \<Rightarrow> 'r world \<Rightarrow> unit res \<times> 'r world" where
  "UserFileRepository_CreateBatch E chunks w =
     (case e_chunkQ E CreateFileChunkStmt of
        None \<Rightarrow> (Err ErrorStmtNotFound, w)
      | Some stmt \<Rightarrow>
          (case ext_call E w of
             (Some e, w1) \<Rightarrow> (Err e, w1)
           | (None, w1) \<Rightarrow>
               (case batch_exec E chunks (w_db w1) w1 of
                  (Inl e, w2) \<Rightarrow> (Err e, w2)
                | (Inr tx, w2) \<Rightarrow> tx_commit E tx w2)))"

text \<open>The two lookups read nothing back: what they scan is dropped and only the error is returned.  What
  \<open>sqlx\<close> makes of their arguments (a map and a struct) is a parameter.\<close>

definition UserFileRepository_GetChunksForFile :: "(string \<Rightarrow> string gomap \<Rightarrow> 'r world \<Rightarrow> goerr option \<times> 'r world) \<Rightarrow>
    'r env \<Rightarrow> string \<Rightarrow> 'r world \<Rightarrow> unit res \<times> 'r world" where
  "UserFileRepository_GetChunksForFile SelectContext E fileID w =
     (case e_chunkQ E GetFileChunksStmt of
        None \<Rightarrow> (Err ''query_retriever_failed:4001:500'', w)
      | Some stmt \<Rightarrow>
          (case SelectContext stmt [(''file_id'', fileID)] w of
             (Some e, w1) \<Rightarrow> (Err ''internal_error:4002:500'', w1)
           | (None, w1) \<Rightarrow> (OK (), w1)))"

definition UserFileRepository_GetChunk :: "(string \<Rightarrow> UserFile \<Rightarrow> 'r world \<Rightarrow> goerr option \<times> 'r world) \<Rightarrow>
    'r env \<Rightarrow> UserFile \<Rightarrow> 'r world \<Rightarrow> unit res \<times> 'r world" where
  "UserFileRepository_GetChunk GetContext E userFile w =
     (case e_chunkQ E GetChunkForFileStmt of
        None \<Rightarrow> (Err ''query_retriever_failed:4001:500'', w)
      | Some stmt \<Rightarrow>
          (case GetContext stmt userFile w of
             (Some e, w1) \<Rightarrow> (Err ''internal_error:4002:500'', w1)
           | (None, w1) \<Rightarrow> (OK (), w1)))"

subsection \<open>The contract of the transactional operations\<close>

text \<open>\<open>oper\<close> runs one transaction whose committed effect on the tables is \<open>apply\<close> (which may use
  the clock): it touches nothing but the tables, either installs the whole effect or none of it,
  and succeeds when no driver call fails and its statements are loaded.\<close>

locale tx_operation =
  fixes oper :: "'r env \<Rightarrow> 'a \<Rightarrow> 'r world \<Rightarrow> unit res \<times> 'r world"
    and eff :: "'a \<Rightarrow> gotime \<Rightarrow> db \<Rightarrow> db"
  assumes other_state: "oper E a w = (r, w') \<Longrightarrow> w_redis w' = w_redis w \<and> w_fs w' = w_fs w"
    and committed: "oper E a w = (OK (), w') \<Longrightarrow> \<exists>n. w_db w' = eff a (e_clock E n) (w_db w)"
    and rolled_back: "oper E a w = (r, w') \<Longrightarrow> r \<noteq> OK () \<Longrightarrow> w_db w' = w_db w"
    and succeeds: "no_faults E \<Longrightarrow> stmts_loaded E \<Longrightarrow> fst (oper E a w) = OK ()"
begin

lemma all_or_nothing:
  "oper E a w = (r, w') \<Longrightarrow>
     (r = OK () \<and> (\<exists>n. w_db w' = eff a (e_clock E n) (w_db w))) \<or> (r \<noteq> OK () \<and> w_db w' = w_db w)"
  using committed rolled_back by blast

lemma preserves:
  assumes "oper E a w = (r, w')" and "P (w_db w)" and "\<And>t. P (w_db w) \<Longrightarrow> P (eff a t (w_db w))"
  shows "P (w_db w')"
  using all_or_nothing [OF assms(1)] assms(2,3) by auto

lemma total_success:
  assumes "no_faults E" and "stmts_loaded E"
  shows "\<exists>w' n. oper E a w = (OK (), w') \<and> w_db w' = eff a (e_clock E n) (w_db w)
     \<and> w_redis w' = w_redis w \<and> w_fs w' = w_fs w"
proof -
  obtain r w' where run: "oper E a w = (r, w')" by (cases "oper E a w")
  with succeeds [OF assms, of a w] have ok: "oper E a w = (OK (), w')" by simp
  from committed [OF ok] other_state [OF ok] ok show ?thesis by blast
qed

end

subsection \<open>Lemmas\<close>

lemma tx_commit_cases:
  "tx_commit E tx w = (r, w') \<Longrightarrow>
     (r = OK () \<and> w_db w' = tx \<or> (\<exists>e. r = Err e) \<and> w_db w' = w_db w) \<and> w_redis w' = w_redis w \<and> w_fs w' = w_fs w"
  by (auto simp: tx_commit_def ext_call_def split: option.splits)

lemma tx_commit_no_faults [simp]: "no_faults E \<Longrightarrow> fst (tx_commit E tx w) = OK ()"
  by (simp add: tx_commit_def ext_call_def)

lemma stmts_loadedD:
  assumes "stmts_loaded E"
  shows "e_metaQ E CreateFileMetadataStmt \<noteq> None" "e_metaQ E GetFilesForUserStmt \<noteq> None"
    "e_metaQ E UpdateCurrentFlagStmt \<noteq> None" "e_metaQ E FindByHashStmt \<noteq> None"
    "e_metaQ E SelectFilesForUserStmt \<noteq> None" "e_metaQ E ''FindBy'' \<noteq> None"
    "e_chunkQ E CreateFileChunkStmt \<noteq> None" "e_tokenQ E CreateTokenStmt \<noteq> None"
    "e_tokenQ E ''GetStreamToken'' \<noteq> None"
  using assms by (simp_all add: stmts_loaded_def)

text \<open>The committed effect of \<open>Update\<close>: the new version becomes current where its predecessor
  matches, then the predecessor is ended.\<close>

definition update_effect :: "string option \<times> string \<times> string \<Rightarrow> gotime \<Rightarrow> db \<Rightarrow> db" where
  "update_effect a now d = (case a of (prev, new, status) \<Rightarrow>
     (let d1 = sql_UpdateCurrentFlag (\<lambda>row. fm_PrevID row = prev) True None status new d
      in case prev of None \<Rightarrow> d1
         | Some p \<Rightarrow> sql_UpdateCurrentFlag (\<lambda>row. True) False (Some now) status p d1))"

definition update_op :: "'r env \<Rightarrow> string option \<times> string \<times> string \<Rightarrow> 'r world \<Rightarrow> unit res \<times> 'r world" where
  "update_op E a w = (case a of (prev, new, status) \<Rightarrow> MetadataRepository_Update E prev new status w)"

definition create_token_op :: "'r env \<Rightarrow> FileMetadata \<times> Token \<Rightarrow> 'r world \<Rightarrow> unit res \<times> 'r world" where
  "create_token_op E a w = MetadataTokenRepository_CreateMetadataToken E (fst a) (snd a) w"

definition batch_effect :: "UserFile list \<Rightarrow> db \<Rightarrow> db" where
  "batch_effect chunks d = d\<lparr>user_files := user_files d @ chunks\<rparr>"

lemma batch_exec_frame:
  "w_db (snd (batch_exec E chunks tx w)) = w_db w" "w_redis (snd (batch_exec E chunks tx w)) = w_redis w"
  "w_fs (snd (batch_exec E chunks tx w)) = w_fs w"
  by (induction chunks arbitrary: tx w) (simp_all add: ext_call_def split: option.split)

lemma batch_exec_effect: "fst (batch_exec E chunks tx w) = Inr tx' \<Longrightarrow> tx' = batch_effect chunks tx"
proof (induction chunks arbitrary: tx w)
  case (Cons c cs)
  from Cons.prems have "fst (batch_exec E cs (sql_CreateFileChunk c tx) (tick w)) = Inr tx'"
    by (simp add: ext_call_def split: option.splits)
  from Cons.IH [OF this] show ?case by (simp add: batch_effect_def sql_CreateFileChunk_def)
qed (simp add: batch_effect_def)

lemma batch_exec_no_faults: "no_faults E \<Longrightarrow> fst (batch_exec E chunks tx w) = Inr (batch_effect chunks tx)"
  by (induction chunks arbitrary: tx w)
    (simp_all add: ext_call_def batch_effect_def sql_CreateFileChunk_def)

definition tx_outcome :: "'a res \<Rightarrow> 'r world \<Rightarrow> 'r world \<Rightarrow> (db \<Rightarrow> bool) \<Rightarrow> bool" where
  "tx_outcome r w w' eff \<longleftrightarrow> w_redis w' = w_redis w \<and> w_fs w' = w_fs w \<and>
     (is_OK r \<and> eff (w_db w') \<or> \<not> is_OK r \<and> w_db w' = w_db w)"

lemma tx_commit_outcome:
  assumes "tx_commit E tx w1 = (r, w')"
    and "w_db w1 = w_db w" "w_redis w1 = w_redis w" "w_fs w1 = w_fs w" "eff tx"
  shows "tx_outcome r w w' eff"
  using assms by (auto simp: tx_outcome_def dest: tx_commit_cases)

lemma tx_outcome_failed:
  "\<not> is_OK r \<Longrightarrow> w_db w' = w_db w \<Longrightarrow> w_redis w' = w_redis w \<Longrightarrow> w_fs w' = w_fs w \<Longrightarrow> tx_outcome r w w' eff"
  by (simp add: tx_outcome_def)

lemma Update_outcome:
  assumes "MetadataRepository_Update E prev new status w = (r, w')"
  shows "tx_outcome r w w' (\<lambda>d. \<exists>n. d = update_effect (prev, new, status) (e_clock E n) (w_db w))"
  using assms
  by (auto simp: MetadataRepository_Update_def ext_call_def Now_def Let_def update_effect_def
      split: option.splits if_splits intro!: tx_outcome_failed elim!: tx_commit_outcome)

lemma CreateMetadataToken_outcome:
  assumes "MetadataTokenRepository_CreateMetadataToken E m t w = (r, w')"
  shows "tx_outcome r w w' (\<lambda>d. d = sql_CreateToken t (sql_CreateFileMetadata m (w_db w)))"
  using assms
  by (auto simp: MetadataTokenRepository_CreateMetadataToken_def ext_call_def
      split: option.splits intro!: tx_outcome_failed elim!: tx_commit_outcome)

lemma CreateBatch_outcome:
  assumes "UserFileRepository_CreateBatch E chunks w = (r, w')"
  shows "tx_outcome r w w' (\<lambda>d. d = batch_effect chunks (w_db w))"
proof -
  obtain q w2 where b: "batch_exec E chunks (w_db w) (tick w) = (q, w2)"
    by (cases "batch_exec E chunks (w_db w) (tick w)")
  have fr: "w_db w2 = w_db w" "w_redis w2 = w_redis w" "w_fs w2 = w_fs w"
    using batch_exec_frame [of E chunks "w_db w" "tick w"] b by simp_all
  have "q = Inr tx \<Longrightarrow> tx = batch_effect chunks (w_db w)" for tx
    using batch_exec_effect [of E chunks "w_db w" "tick w" tx] b by simp
  with assms b fr show ?thesis
    by (auto simp: UserFileRepository_CreateBatch_def ext_call_def split: option.splits sum.splits
        intro!: tx_outcome_failed elim!: tx_commit_outcome)
qed

lemma tx_operationI:
  assumes "\<And>E a w r w'. oper E a w = (r, w') \<Longrightarrow>
      tx_outcome r w w' (\<lambda>d. \<exists>n. d = eff a (e_clock E n) (w_db w))"
    and "\<And>E a w. no_faults E \<Longrightarrow> stmts_loaded E \<Longrightarrow> fst (oper E a w) = OK ()"
  shows "tx_operation oper eff"
proof
  fix E a w r w'
  assume "oper E a w = (r, w')"
  then show "w_redis w' = w_redis w \<and> w_fs w' = w_fs w"
    using assms(1) by (auto simp: tx_outcome_def)
next
  fix E a w w'
  assume "oper E a w = (OK (), w')"
  from assms(1) [OF this] show "\<exists>n. w_db w' = eff a (e_clock E n) (w_db w)"
    by (simp add: tx_outcome_def)
next
  fix E a w r w'
  assume "oper E a w = (r, w')" and "r \<noteq> OK ()"
  with assms(1) [of E a w r w'] show "w_db w' = w_db w" by (auto simp: tx_outcome_def is_OK_iff)
qed (rule assms(2))

interpretation upd: tx_operation update_op update_effect
proof (rule tx_operationI)
  fix E :: "'r env" and a w r w'
  assume run: "update_op E a w = (r, w')"
  obtain prev new status where a: "a = (prev, new, status)" by (cases a)
  show "tx_outcome r w w' (\<lambda>d. \<exists>n. d = update_effect a (e_clock E n) (w_db w))"
    using run by (simp add: a update_op_def Update_outcome)
next
  fix E :: "'r env" and a :: "string option \<times> string \<times> string" and w
  assume nf: "no_faults E" and "stmts_loaded E"
  moreover obtain prev new status where "a = (prev, new, status)" by (cases a)
  ultimately show "fst (update_op E a w) = OK ()"
    using stmts_loadedD(3) [of E]
    by (cases prev) (auto simp: update_op_def MetadataRepository_Update_def ext_call_def Now_def Let_def)
qed

interpretation cmt: tx_operation create_token_op
  "\<lambda>a _ d. sql_CreateToken (snd a) (sql_CreateFileMetadata (fst a) d)"
proof (rule tx_operationI)
  fix E :: "'r env" and a w r w'
  assume "create_token_op E a w = (r, w')"
  then show "tx_outcome r w w' (\<lambda>d. \<exists>n. d = sql_CreateToken (snd a) (sql_CreateFileMetadata (fst a) (w_db w)))"
    using CreateMetadataToken_outcome [of E "fst a" "snd a" w r w'] by (simp add: create_token_op_def)
next
  fix E :: "'r env" and a w
  assume "no_faults E" and "stmts_loaded E"
  then show "fst (create_token_op E a w) = OK ()"
    using stmts_loadedD(1,8) [of E]
    by (auto simp: create_token_op_def MetadataTokenRepository_CreateMetadataToken_def ext_call_def)
qed

interpretation bat: tx_operation UserFileRepository_CreateBatch "\<lambda>chunks _. batch_effect chunks"
proof (rule tx_operationI)
  fix E :: "'r env" and a w r w'
  assume "UserFileRepository_CreateBatch E a w = (r, w')"
  then show "tx_outcome r w w' (\<lambda>d. \<exists>n. d = batch_effect a (w_db w))"
    using CreateBatch_outcome by simp
next
  fix E :: "'r env" and a w
  assume nf: "no_faults E" and "stmts_loaded E"
  then show "fst (UserFileRepository_CreateBatch E a w) = OK ()"
    using stmts_loadedD(7) [of E] batch_exec_no_faults [OF nf, of a "w_db w" "tick w"]
    by (auto simp: UserFileRepository_CreateBatch_def ext_call_def split: prod.splits)
qed

end
