(* ===== verification/Tokens.thy ===== *)
theory Tokens
  imports FilesRepo
begin

text \<open>
  Package \<open>tokens\<close>: the token record's expiry tests, \<open>NewToken\<close> with its options
  (\<open>core/tokens/token.go\<close>), the built-in tokens (\<open>core/tokens/stubs.go\<close>) and
  \<open>TokensRepository\<close> (\<open>core/tokens/service.go\<close>).
\<close>

subsection \<open>Expiry\<close>

definition Minute :: int where "Minute = 60 * 1000000000"
definition Hour :: int where "Hour = 60 * Minute"
definition AccessExpiryDuration :: int where "AccessExpiryDuration = 24 * Hour"
definition ShortExpiryDuration :: int where "ShortExpiryDuration = 20 * Minute"
definition LongExpiryDuration :: int where "LongExpiryDuration = 30 * 24 * Hour"

definition HasAccessExpired :: "'r env \<Rightarrow> Token \<Rightarrow> 'r world \<Rightarrow> bool \<times> 'r world" where
  "HasAccessExpired E token w = (case Now E w of (now, w1) \<Rightarrow> (tk_AccessExpiresAt token < now, w1))"

definition IsExpired :: "'r env \<Rightarrow> Token \<Rightarrow> 'r world \<Rightarrow> bool \<times> 'r world" where
  "IsExpired E token w =
     (case Now E w of (now, w1) \<Rightarrow>
        if tk_AccessExpiresAt token < now then (True, w1)
        else case Now E w1 of (now2, w2) \<Rightarrow> (tk_RefreshExpiresAt token < now2, w2))"

subsection \<open>NewToken\<close>

definition ResourceTypeUser :: string where "ResourceTypeUser = ''user''"
definition ResourceTypeStream :: string where "ResourceTypeStream = ''stream''"
definition ErrTokenValidationFailed :: goerr where "ErrTokenValidationFailed = ''validation_failed''"

definition ValidateResourceType :: "string \<Rightarrow> bool" where
  "ValidateResourceType resourceType \<longleftrightarrow> resourceType = ResourceTypeUser \<or> resourceType = ResourceTypeStream"

definition GenerateToken :: "'r env \<Rightarrow> nat \<Rightarrow> 'r world \<Rightarrow> string res \<times> 'r world" where
  "GenerateToken E tokenLen w =
     (case e_rand E (w_tick w) tokenLen of
        Inl e \<Rightarrow> (Err e, tick w)
      | Inr b \<Rightarrow> (OK (hex_EncodeToString b), tick w))"

type_synonym 'r token_opt = "'r env \<Rightarrow> Token \<Rightarrow> 'r world \<Rightarrow> Token \<times> 'r world"

definition WithResource :: "string \<Rightarrow> string \<Rightarrow> 'r token_opt" where
  "WithResource resourceID resourceType E t w =
     (t\<lparr>tk_ResourceID := resourceID, tk_ResouceType := resourceType\<rparr>, w)"

definition WithShortExpiry :: "'r token_opt" where
  "WithShortExpiry E t w =
     (case Now E w of (now, w1) \<Rightarrow> (t\<lparr>tk_AccessExpiresAt := now + ShortExpiryDuration\<rparr>, w1))"

definition WithDefaultExpiry :: "'r token_opt" where
  "WithDefaultExpiry E t w =
     (case Now E w of (now, w1) \<Rightarrow> (t\<lparr>tk_AccessExpiresAt := now + AccessExpiryDuration\<rparr>, w1))"

definition WithUserID :: "string option \<Rightarrow> 'r token_opt" where
  "WithUserID userID E t w = (t\<lparr>tk_UserID := userID\<rparr>, w)"

fun apply_opts :: "'r token_opt list \<Rightarrow> 'r token_opt" where
  "apply_opts [] E t w = (t, w)"
| "apply_opts (opt # opts) E t w = (case opt E t w of (t1, w1) \<Rightarrow> apply_opts opts E t1 w1)"

definition NewToken :: "'r env \<Rightarrow> string \<Rightarrow> string \<Rightarrow> 'r token_opt list \<Rightarrow> 'r world \<Rightarrow> Token res \<times> 'r world" where
  "NewToken E resourceID resourceType0 opts w =
     (let resourceType = ToLower resourceType0
      in if \<not> ValidateResourceType resourceType then (Err ErrTokenValidationFailed, w)
         else case GenerateToken E 32 w of
           (Err e, w1) \<Rightarrow> (Err e, w1)
         | (Panic p, w1) \<Rightarrow> (Panic p, w1)
         | (OK accessToken, w1) \<Rightarrow>
           (case GenerateToken E 64 w1 of
              (Err e, w2) \<Rightarrow> (Err e, w2)
            | (Panic p, w2) \<Rightarrow> (Panic p, w2)
            | (OK refreshToken, w2) \<Rightarrow>
              (case Now E w2 of (now, w3) \<Rightarrow>
               (case NewTimestamp E w3 of (stamp, w4) \<Rightarrow>
                (case apply_opts opts E
                   \<lparr>tk_ResourceID = resourceID, tk_ResouceType = resourceType,
                    tk_AccessToken = accessToken, tk_RefreshToken = refreshToken, tk_TokenType = [],
                    tk_UserID = None, tk_DeviceID = [], tk_AccessExpiresAt = 0,
                    tk_RefreshExpiresAt = now + LongExpiryDuration, tk_Timestamp = stamp\<rparr> w4
                 of (token, w5) \<Rightarrow> (OK token, w5))))))"

subsection \<open>The built-in tokens\<close>

text \<open>\<open>AdminToken\<close> and \<open>AnotherToken\<close> are package variables: \<open>start\<close> gives the clock readings of
  their initialisers.\<close>

definition AdminToken :: "(nat \<Rightarrow> gotime) \<Rightarrow> Token" where
  "AdminToken start = \<lparr>tk_ResourceID = ''U11223455'', tk_ResouceType = ''user'',
     tk_AccessToken = ''trial_access_token'', tk_RefreshToken = ''trial_refresh_token'',
     tk_TokenType = ''user'', tk_UserID = None, tk_DeviceID = ''1'',
     tk_AccessExpiresAt = start 0 + 1 * Hour, tk_RefreshExpiresAt = start 1 + 5 * Hour,
     tk_Timestamp = \<lparr>ts_CreatedAt = start 2, ts_UpdatedAt = start 2\<rparr>\<rparr>"

definition AnotherToken :: "(nat \<Rightarrow> gotime) \<Rightarrow> Token" where
  "AnotherToken start = \<lparr>tk_ResourceID = ''U11223456'', tk_ResouceType = ''user'',
     tk_AccessToken = ''trial_access_token_1'', tk_RefreshToken = ''trial_refresh_token_1'',
     tk_TokenType = ''user'', tk_UserID = None, tk_DeviceID = ''2'',
     tk_AccessExpiresAt = start 3 + 1 * Hour, tk_RefreshExpiresAt = start 4 + 5 * Hour,
     tk_Timestamp = \<lparr>ts_CreatedAt = start 5, ts_UpdatedAt = start 5\<rparr>\<rparr>"

subsection \<open>TokensRepository\<close>

record FindByClause =
  fc_AccessToken :: string
  fc_RefreshToken :: string
  fc_StreamToken :: string
  fc_ResourceID :: string
  fc_ResourceType :: string
  fc_UserID :: "string option"
  fc_TestMode :: bool

definition ErrTokenNotFound :: goerr where "ErrTokenNotFound = ''token_not_found''"
definition ErrTokenExpired :: goerr where "ErrTokenExpired = ''token_expired:2007:410''"
definition ErrStatmentNotFound :: goerr where "ErrStatmentNotFound = ''stmt_not_found:2008:500''"
definition GetStreamTokenStmt :: string where "GetStreamTokenStmt = ''GetStreamToken''"

definition zero_token :: Token where
  "zero_token = \<lparr>tk_ResourceID = [], tk_ResouceType = [], tk_AccessToken = [], tk_RefreshToken = [],
     tk_TokenType = [], tk_UserID = None, tk_DeviceID = [], tk_AccessExpiresAt = 0,
     tk_RefreshExpiresAt = 0, tk_Timestamp = \<lparr>ts_CreatedAt = 0, ts_UpdatedAt = 0\<rparr>\<rparr>"

text \<open>The loop over the rows and the expiry test that end both lookups: a row overwrites the
  token, no row leaves the zero token.\<close>

fun scan_tokens :: "'r env \<Rightarrow> Token list \<Rightarrow> Token \<Rightarrow> goerr option \<Rightarrow> 'r world
    \<Rightarrow> Token \<times> goerr option \<times> 'r world" where
  "scan_tokens E [] token err w = (token, err, w)"
| "scan_tokens E (row # rows) token err w =
     (case ext_call E w of
        (Some e, w1) \<Rightarrow> scan_tokens E rows token (Some e) w1
      | (None, w1) \<Rightarrow> scan_tokens E rows row None w1)"

definition checked_token :: "'r env \<Rightarrow> Token list \<Rightarrow> 'r world \<Rightarrow> Token res \<times> 'r world" where
  "checked_token E rows w =
     (case scan_tokens E rows zero_token None w of
        (token, Some e, w1) \<Rightarrow> (Err e, w1)
      | (token, None, w1) \<Rightarrow>
          (case HasAccessExpired E token w1 of
             (True, w2) \<Rightarrow> (Err ErrTokenExpired, w2)
           | (False, w2) \<Rightarrow> (OK token, w2)))"

fun test_mode_loop :: "'r env \<Rightarrow> string \<Rightarrow> Token list \<Rightarrow> 'r world \<Rightarrow> Token res \<times> 'r world" where
  "test_mode_loop E accessToken [] w = (Err ErrTokenNotFound, w)"
| "test_mode_loop E accessToken (token # allowed) w =
     (case IsExpired E token w of
        (True, w1) \<Rightarrow> (Err ErrTokenExpired, w1)
      | (False, w1) \<Rightarrow>
          (if tk_AccessToken token = accessToken then (OK token, w1)
           else test_mode_loop E accessToken allowed w1))"

definition findByTestMode :: "'r env \<Rightarrow> (nat \<Rightarrow> gotime) \<Rightarrow> FindByClause \<Rightarrow> 'r world \<Rightarrow> Token res \<times> 'r world" where
  "findByTestMode E start clause w =
     test_mode_loop E (fc_AccessToken clause) [AdminToken start, AnotherToken start] w"

text \<open>\<open>bind needed given\<close> is sqlx's binding of a statement's named parameters to the given names:
  an error, or none.  \<open>GetStreamToken\<close> has four parameters.\<close>

definition GetStreamToken_params :: "string list" where
  "GetStreamToken_params = [''access_token'', ''resource_id'', ''user_id'', ''resource_type'']"

definition TokensRepository_FindByAccessToken ::
    "'r env \<Rightarrow> (nat \<Rightarrow> gotime) \<Rightarrow> (string list \<Rightarrow> string list \<Rightarrow> goerr option) \<Rightarrow> FindByClause
      \<Rightarrow> 'r world \<Rightarrow> Token res \<times> 'r world" where
  "TokensRepository_FindByAccessToken E start bind clause w =
     (if fc_TestMode clause then findByTestMode E start clause w
      else case e_tokenQ E GetStreamTokenStmt of
        None \<Rightarrow> (Err ErrStatmentNotFound, w)
      | Some stmt \<Rightarrow>
          (case bind GetStreamToken_params [''access_token'', ''resource_id'', ''resource_type''] of
             Some e \<Rightarrow> (Err e, w)
           | None \<Rightarrow>
               (case ext_call E w of
                  (Some e, w1) \<Rightarrow> (Err e, w1)
                | (None, w1) \<Rightarrow>
                    checked_token E (sql_GetStreamToken (fc_AccessToken clause) (fc_ResourceID clause) None
                       ''user'' (w_db w1)) w1)))"

definition TokensRepository_FindByStreamToken ::
    "'r env \<Rightarrow> FindByClause \<Rightarrow> 'r world \<Rightarrow> Token res \<times> 'r world" where
  "TokensRepository_FindByStreamToken E clause w =
     (case e_tokenQ E GetStreamTokenStmt of
        None \<Rightarrow> (Err ErrStatmentNotFound, w)
      | Some stmt \<Rightarrow>
          (case ext_call E w of
             (Some e, w1) \<Rightarrow> (Err e, w1)
           | (None, w1) \<Rightarrow>
               checked_token E (sql_GetStreamToken (fc_StreamToken clause) (fc_ResourceID clause)
                  (fc_UserID clause) ''stream'' (w_db w1)) w1))"

definition TokensRepository_CreateSession ::
    "'r env \<Rightarrow> string \<Rightarrow> string \<Rightarrow> string option \<Rightarrow> 'r world \<Rightarrow> Token res \<times> 'r world" where
  "TokensRepository_CreateSession E resourceID resourceType userID w =
     (case NewToken E resourceID resourceType [WithUserID userID, WithDefaultExpiry] w of
        (Err e, w1) \<Rightarrow> (Err ''token_create_failed:3001:500'', w1)
      | (Panic p, w1) \<Rightarrow> (Panic p, w1)
      | (OK token, w1) \<Rightarrow>
          (case e_tokenQ E CreateTokenStmt of
             None \<Rightarrow> (Err ErrStatmentNotFound, w1)
           | Some stmt \<Rightarrow>
               (case ext_call E w1 of
                  (Some e, w2) \<Rightarrow> (Err ''token_create_failed:3002:500'', w2)
                | (None, w2) \<Rightarrow> (OK token, w2\<lparr>w_db := sql_CreateToken token (w_db w2)\<rparr>))))"

subsection \<open>Lemmas\<close>

lemmas duration_defs = Minute_def Hour_def AccessExpiryDuration_def ShortExpiryDuration_def LongExpiryDuration_def

lemma ToLower_stream [simp]: "ToLower ResourceTypeStream = ResourceTypeStream"
  by (simp add: ToLower_def ResourceTypeStream_def to_lower_char_def)

lemma GenerateToken_frame:
  "GenerateToken E n w = (r, w') \<Longrightarrow> w' = tick w \<and> (\<forall>p. r \<noteq> Panic p)"
  by (auto simp: GenerateToken_def split: sum.splits)

lemma GenerateToken_len:
  assumes "GenerateToken E n w = (OK s, w')" and "\<And>k b. e_rand E k n = Inr b \<Longrightarrow> length b = n"
  shows "length s = 2 * n"
  using assms by (auto simp: GenerateToken_def length_hex split: sum.splits)

text \<open>The token that the metadata service asks for: a stream token of the file and user, whose
  access expires 24 hours after the clock reading of the option.\<close>

lemma NewToken_stream:
  assumes "NewToken E fid ResourceTypeStream [WithDefaultExpiry, WithUserID u] w = (r, w')"
  shows "w_db w' = w_db w \<and> w_redis w' = w_redis w \<and> w_fs w' = w_fs w \<and> (\<forall>p. r \<noteq> Panic p) \<and>
    (\<forall>t. r = OK t \<longrightarrow> tk_ResourceID t = fid \<and> tk_ResouceType t = ''stream'' \<and> tk_UserID t = u \<and>
       tk_DeviceID t = [] \<and> (\<exists>n. tk_AccessExpiresAt t = e_clock E n + AccessExpiryDuration))"
  using assms
  by (auto simp: NewToken_def Let_def ValidateResourceType_def GenerateToken_def Now_def NewTimestamp_def
      WithDefaultExpiry_def WithUserID_def ResourceTypeStream_def [symmetric] split: sum.splits)

lemma scan_tokens_frame:
  "scan_tokens E rows t err w = (t', err', w') \<Longrightarrow>
     w_db w' = w_db w \<and> w_redis w' = w_redis w \<and> w_fs w' = w_fs w"
  by (induction rows arbitrary: t err w) (auto simp: ext_call_def split: option.splits)

lemma scan_tokens_le1:
  "scan_tokens E (take 1 rows) t None w = (t', None, w') \<Longrightarrow>
     t' = (case rows of [] \<Rightarrow> t | r # _ \<Rightarrow> r)"
  by (cases rows) (auto simp: ext_call_def split: option.splits)

text \<open>A lookup that gives a token gives the first row, which has not expired at the clock reading made after
  that row has been scanned.\<close>

lemma checked_token_OK:
  assumes "checked_token E (take 1 rows) w = (OK t, w')" and "\<And>n. 0 < e_clock E n"
  shows "\<exists>rest. rows = t # rest \<and> e_clock E (Suc (w_tick w)) \<le> tk_AccessExpiresAt t"
proof -
  from assms(1) obtain w1 where s: "scan_tokens E (take 1 rows) zero_token None w = (t, None, w1)"
    and live: "e_clock E (w_tick w1) \<le> tk_AccessExpiresAt t"
    by (auto simp: checked_token_def HasAccessExpired_def Now_def split: option.splits if_splits prod.splits bool.splits)
  from scan_tokens_le1 [OF s] have t: "t = (case rows of [] \<Rightarrow> zero_token | r # _ \<Rightarrow> r)" by simp
  have "rows \<noteq> []"
    using t live assms(2) [of "w_tick w1"] by (auto simp: zero_token_def)
  then obtain row rest where rows: "rows = row # rest" by (cases rows) simp_all
  with s have "w_tick w1 = Suc (w_tick w)" by (auto simp: ext_call_def split: option.splits)
  with t live rows show ?thesis by simp
qed

lemma checked_token_frame:
  "checked_token E rows w = (r, w') \<Longrightarrow>
     w_db w' = w_db w \<and> w_redis w' = w_redis w \<and> w_fs w' = w_fs w"
  by (auto simp: checked_token_def HasAccessExpired_def Now_def split: option.splits if_splits prod.splits bool.splits
      dest!: scan_tokens_frame)

lemma checked_token_empty:
  assumes "\<And>n. 0 < e_clock E n"
  shows "fst (checked_token E [] w) = Err ErrTokenExpired"
  using assms [of "w_tick w"] by (simp add: checked_token_def HasAccessExpired_def Now_def zero_token_def)

lemma checked_token_live:
  assumes "no_faults E" and "e_clock E (Suc (w_tick w)) \<le> tk_AccessExpiresAt t"
  shows "fst (checked_token E (take 1 (t # rows)) w) = OK t"
  using assms by (simp add: checked_token_def ext_call_def HasAccessExpired_def Now_def)

end
