(* ===== verification/Queuer.thy ===== *)
theory Queuer
  imports Data
begin

text \<open>
  Package \<open>queuer\<close> over Redis lists (\<open>pkg/queuer/redis.queue.go\<close>), the queue names of
  \<open>core/database/redis.go\<close> and the read loops of the two producers
  (\<open>core/supervisors/metadata.changelog.go\<close>, \<open>core/supervisors/metadata.notifier.go\<close>).  The
  interface \<open>Queuer\<close> of the code is the locale \<open>queuer\<close>: a first-in first-out queue per
  partition.  \<open>RedisQ\<close> is an instance of it for every topic, and of its extension
  \<open>partitioned_queuer\<close> for the per-user topic.
\<close>

subsection \<open>RedisQ\<close>

definition MetadataFileUpdateQueue :: string where
  "MetadataFileUpdateQueue = ''q::metadata::update::file''"

definition MetadataUpdateClientsNotifierQueue :: string where
  "MetadataUpdateClientsNotifierQueue = ''q::metadata::update::clients::%s''"

definition ErrEmptyRecords :: goerr where "ErrEmptyRecords = ''empty_records''"

definition RedisQ_EnqueueMsg :: "'r redis \<Rightarrow> string \<Rightarrow> string \<Rightarrow> Payload \<Rightarrow> 'r \<Rightarrow> goerr option \<times> 'r" where
  "RedisQ_EnqueueMsg R topicName part data r =
     (let queue = NewTemplateString topicName [part]
      in RPush R queue (pl_Message data) r)"

text \<open>\<open>EnqueueMsgs\<close> returns the payloads of its \<open>PartialError\<close>; none failed stands for nil.\<close>

fun enqueue_each :: "'r redis \<Rightarrow> string \<Rightarrow> Payload list \<Rightarrow> Payload list \<Rightarrow> 'r \<Rightarrow> Payload list \<times> 'r" where
  "enqueue_each R queue failed [] r = (failed, r)"
| "enqueue_each R queue failed (data # datas) r =
     (case RPush R queue (pl_Message data) r of
        (Some e, r1) \<Rightarrow> enqueue_each R queue (failed @ [data]) datas r1
      | (None, r1) \<Rightarrow> enqueue_each R queue failed datas r1)"

definition RedisQ_EnqueueMsgs :: "'r redis \<Rightarrow> string \<Rightarrow> string \<Rightarrow> Payload list \<Rightarrow> 'r \<Rightarrow> Payload list \<times> 'r" where
  "RedisQ_EnqueueMsgs R topicName part datas r = enqueue_each R topicName [] datas r"

definition RedisQ_ReadMsg :: "'r redis \<Rightarrow> string \<Rightarrow> string \<Rightarrow> 'r \<Rightarrow> Payload option res \<times> 'r" where
  "RedisQ_ReadMsg R topicName part r =
     (let queue = NewTemplateString topicName [part]
      in case BLPop R queue r of
           (BNil, r1) \<Rightarrow> (OK None, r1)
         | (BErr e, r1) \<Rightarrow> (Err e, r1)
         | (BReply results, r1) \<Rightarrow>
             (case results of
                qname # result # rest \<Rightarrow>
                  (OK (Some \<lparr>pl_Message = result, pl_Key = qname, pl_TTL = 0\<rparr>), r1)
              | _ \<Rightarrow> (Err ErrEmptyRecords, r1)))"

definition RedisQ_Flush :: "('r \<Rightarrow> goerr option \<times> 'r) \<Rightarrow> 'r \<Rightarrow> goerr option \<times> 'r" where
  "RedisQ_Flush flushDB r = flushDB r"

subsection \<open>The producers' read loop\<close>

text \<open>On a demand of \<open>d\<close> the producer reads \<open>d\<close> times, skipping nil payloads; the first error ends
  the producer (\<open>None\<close>).\<close>

fun read_loop :: "('s \<Rightarrow> Payload option res \<times> 's) \<Rightarrow> nat \<Rightarrow> Payload list \<Rightarrow> 's \<Rightarrow> Payload list option \<times> 's" where
  "read_loop rd 0 results s = (Some results, s)"
| "read_loop rd (Suc i) results s =
     (case rd s of
        (OK (Some payload), s1) \<Rightarrow> read_loop rd i (results @ [payload]) s1
      | (OK None, s1) \<Rightarrow> read_loop rd i results s1
      | (Err e, s1) \<Rightarrow> (None, s1)
      | (Panic p, s1) \<Rightarrow> (None, s1))"

definition MetadataChangelog_batch :: "'r redis \<Rightarrow> int \<Rightarrow> 'r \<Rightarrow> Payload list option \<times> 'r" where
  "MetadataChangelog_batch R d r = read_loop (RedisQ_ReadMsg R MetadataFileUpdateQueue []) (nat d) [] r"

definition MetadataUpdateConsumer_batch :: "'r redis \<Rightarrow> int \<Rightarrow> string \<Rightarrow> 'r \<Rightarrow> Payload list option \<times> 'r" where
  "MetadataUpdateConsumer_batch R n userID r =
     read_loop (RedisQ_ReadMsg R MetadataUpdateClientsNotifierQueue userID) (nat n) [] r"

subsection \<open>The interface\<close>

text \<open>A run of enqueues that all succeed.\<close>

fun enq_all :: "('m \<Rightarrow> 's \<Rightarrow> goerr option \<times> 's) \<Rightarrow> 'm list \<Rightarrow> 's \<Rightarrow> 's option" where
  "enq_all enq [] s = Some s"
| "enq_all enq (m # ms) s =
     (case enq m s of (Some e, s1) \<Rightarrow> None | (None, s1) \<Rightarrow> enq_all enq ms s1)"

locale queuer =
  fixes enq :: "string \<Rightarrow> Payload \<Rightarrow> 's \<Rightarrow> goerr option \<times> 's"
    and rd :: "string \<Rightarrow> 's \<Rightarrow> Payload option res \<times> 's"
    and view :: "'s \<Rightarrow> string \<Rightarrow> bytes list"
    and inv :: "'s \<Rightarrow> bool"
  assumes enq_inv: "inv s \<Longrightarrow> enq p m s = (e, s') \<Longrightarrow> inv s'"
    and enq_view: "inv s \<Longrightarrow> enq p m s = (None, s') \<Longrightarrow> view s' p = view s p @ [pl_Message m]"
    and rd_inv: "inv s \<Longrightarrow> rd p s = (r, s') \<Longrightarrow> inv s'"
    and rd_some: "inv s \<Longrightarrow> rd p s = (OK (Some m), s') \<Longrightarrow> view s p = pl_Message m # view s' p"
    and rd_none: "inv s \<Longrightarrow> rd p s = (OK None, s') \<Longrightarrow> view s p = [] \<and> view s' p = []"
begin

lemma enq_all_view:
  "inv s \<Longrightarrow> enq_all (enq p) ms s = Some s' \<Longrightarrow> inv s' \<and> view s' p = view s p @ map pl_Message ms"
proof (induction ms arbitrary: s)
  case (Cons m ms)
  from Cons.prems(2) obtain s1 where e: "enq p m s = (None, s1)" and rest: "enq_all (enq p) ms s1 = Some s'"
    by (auto split: prod.splits option.splits)
  from Cons.IH [OF enq_inv [OF Cons.prems(1) e] rest] enq_view [OF Cons.prems(1) e] show ?case by simp
qed simp

lemma read_loop_takes:
  "inv s \<Longrightarrow> read_loop (rd p) n acc s = (Some res, s') \<Longrightarrow>
     map pl_Message res = map pl_Message acc @ take n (view s p) \<and> view s' p = drop n (view s p) \<and> inv s'"
proof (induction n arbitrary: acc s)
  case (Suc n)
  obtain r s1 where r: "rd p s = (r, s1)" by (cases "rd p s")
  note i1 = rd_inv [OF Suc.prems(1) r]
  show ?case
  proof (cases r)
    case (OK q)
    show ?thesis
    proof (cases q)
      case None
      with r OK have "rd p s = (OK None, s1)" by simp
      from rd_none [OF Suc.prems(1) this] Suc.IH [OF i1, of acc] Suc.prems(2) r OK None
      show ?thesis by simp
    next
      case (Some m)
      with r OK have "rd p s = (OK (Some m), s1)" by simp
      from rd_some [OF Suc.prems(1) this] Suc.IH [OF i1, of "acc @ [m]"] Suc.prems(2) r OK Some
      show ?thesis by simp
    qed
  next
    case (Err e)
    with Suc.prems r show ?thesis by simp
  next
    case (Panic p)
    with Suc.prems r show ?thesis by simp
  qed
qed simp

lemma fifo:
  assumes "inv s" and "view s p = []" and "enq_all (enq p) ms s = Some s1"
    and "read_loop (rd p) (length ms) [] s1 = (Some res, s2)"
  shows "map pl_Message res = map pl_Message ms \<and> view s2 p = []"
  using enq_all_view [OF assms(1,3)] read_loop_takes [OF _ assms(4)] assms(2) by simp

end

locale partitioned_queuer = queuer +
  assumes enq_other: "inv s \<Longrightarrow> enq p m s = (None, s') \<Longrightarrow> p' \<noteq> p \<Longrightarrow> view s' p' = view s p'"
    and rd_other: "inv s \<Longrightarrow> rd p s = (OK q, s') \<Longrightarrow> p' \<noteq> p \<Longrightarrow> view s' p' = view s p'"
begin

lemma enq_all_other:
  "inv s \<Longrightarrow> enq_all (enq p) ms s = Some s' \<Longrightarrow> p' \<noteq> p \<Longrightarrow> view s' p' = view s p'"
proof (induction ms arbitrary: s)
  case (Cons m ms)
  from Cons.prems(2) obtain s1 where e: "enq p m s = (None, s1)" and rest: "enq_all (enq p) ms s1 = Some s'"
    by (auto split: prod.splits option.splits)
  from Cons.IH [OF enq_inv [OF Cons.prems(1) e] rest Cons.prems(3)] enq_other [OF Cons.prems(1) e Cons.prems(3)]
  show ?case by simp
qed simp

end

subsection \<open>RedisQ is a queue\<close>

text \<open>The interface's state is the Redis client, the reading of its lists and the server's
  state; the client and the reading never change, and the lists' laws are the invariant.\<close>

type_synonym 'r rq_state = "'r redis \<times> ('r \<Rightarrow> string \<Rightarrow> string list) \<times> 'r"

definition rq_enq :: "string \<Rightarrow> string \<Rightarrow> Payload \<Rightarrow> 'r rq_state \<Rightarrow> goerr option \<times> 'r rq_state" where
  "rq_enq topic p m s = (case s of (R, view, r) \<Rightarrow>
     (case RedisQ_EnqueueMsg R topic p m r of (e, r1) \<Rightarrow> (e, (R, view, r1))))"

definition rq_rd :: "string \<Rightarrow> string \<Rightarrow> 'r rq_state \<Rightarrow> Payload option res \<times> 'r rq_state" where
  "rq_rd topic p s = (case s of (R, view, r) \<Rightarrow>
     (case RedisQ_ReadMsg R topic p r of (q, r1) \<Rightarrow> (q, (R, view, r1))))"

definition rq_view :: "string \<Rightarrow> 'r rq_state \<Rightarrow> string \<Rightarrow> bytes list" where
  "rq_view topic s p = (case s of (R, view, r) \<Rightarrow> view r (NewTemplateString topic [p]))"

definition rq_inv :: "'r rq_state \<Rightarrow> bool" where
  "rq_inv s = (case s of (R, view, r) \<Rightarrow> redis_lists R view)"

lemma redis_push: "redis_lists R view \<Longrightarrow> RPush R q m r = (None, r') \<Longrightarrow> view r' = (view r)(q := view r q @ [m])"
  by (simp add: redis_lists_def)

lemma redis_pop: "redis_lists R view \<Longrightarrow> BLPop R q r = (BReply xs, r') \<Longrightarrow>
    \<exists>x rest. view r q = x # rest \<and> xs = [q, x] \<and> view r' = (view r)(q := rest)"
  by (simp add: redis_lists_def)

lemma redis_nil: "redis_lists R view \<Longrightarrow> BLPop R q r = (BNil, r') \<Longrightarrow> view r q = [] \<and> view r' = view r"
  by (simp add: redis_lists_def)

lemma ReadMsg_cases:
  assumes "redis_lists R view" and "RedisQ_ReadMsg R topic p r = (OK q, r')"
  shows "(case q of
      None \<Rightarrow> view r (NewTemplateString topic [p]) = [] \<and> view r' = view r
    | Some m \<Rightarrow> \<exists>rest. view r (NewTemplateString topic [p]) = pl_Message m # rest \<and>
        view r' = (view r)(NewTemplateString topic [p] := rest))"
  using assms
  by (auto simp: RedisQ_ReadMsg_def Let_def split: prod.splits blpop_reply.splits list.splits
      dest: redis_pop redis_nil)

interpretation rq: queuer "rq_enq topic" "rq_rd topic" "rq_view topic" rq_inv for topic
proof
  fix s s' :: "'r rq_state" and p m e
  show "rq_inv s \<Longrightarrow> rq_enq topic p m s = (e, s') \<Longrightarrow> rq_inv s'"
    by (auto simp: rq_inv_def rq_enq_def split: prod.splits)
  show "rq_inv s \<Longrightarrow> rq_enq topic p m s = (None, s') \<Longrightarrow> rq_view topic s' p = rq_view topic s p @ [pl_Message m]"
    by (auto simp: rq_inv_def rq_enq_def rq_view_def RedisQ_EnqueueMsg_def Let_def redis_push split: prod.splits)
next
  fix s s' :: "'r rq_state" and p r m
  show "rq_inv s \<Longrightarrow> rq_rd topic p s = (r, s') \<Longrightarrow> rq_inv s'"
    by (auto simp: rq_inv_def rq_rd_def split: prod.splits)
  show "rq_inv s \<Longrightarrow> rq_rd topic p s = (OK (Some m), s') \<Longrightarrow> rq_view topic s p = pl_Message m # rq_view topic s' p"
    by (auto simp: rq_inv_def rq_rd_def rq_view_def split: prod.splits dest!: ReadMsg_cases)
  show "rq_inv s \<Longrightarrow> rq_rd topic p s = (OK None, s') \<Longrightarrow> rq_view topic s p = [] \<and> rq_view topic s' p = []"
    by (auto simp: rq_inv_def rq_rd_def rq_view_def split: prod.splits dest!: ReadMsg_cases)
qed

lemma notifier_queue:
  "NewTemplateString MetadataUpdateClientsNotifierQueue [p] = ''q::metadata::update::clients::'' @ p"
proof -
  have split: "MetadataUpdateClientsNotifierQueue = ''q::metadata::update::clients::'' @ ''%s''"
    by (simp add: MetadataUpdateClientsNotifierQueue_def)
  show ?thesis unfolding split by (rule NewTemplateString_s) simp
qed

lemma file_queue: "NewTemplateString MetadataFileUpdateQueue [p] = MetadataFileUpdateQueue"
  by (rule NewTemplateString_plain) (simp add: MetadataFileUpdateQueue_def)

lemma queues_differ: "NewTemplateString MetadataUpdateClientsNotifierQueue [p] \<noteq> MetadataFileUpdateQueue"
  by (simp add: notifier_queue MetadataFileUpdateQueue_def)

interpretation nq: partitioned_queuer "rq_enq MetadataUpdateClientsNotifierQueue"
  "rq_rd MetadataUpdateClientsNotifierQueue" "rq_view MetadataUpdateClientsNotifierQueue" rq_inv
proof
  fix s s' :: "'r rq_state" and p p' m q
  show "rq_inv s \<Longrightarrow> rq_enq MetadataUpdateClientsNotifierQueue p m s = (None, s') \<Longrightarrow> p' \<noteq> p \<Longrightarrow>
      rq_view MetadataUpdateClientsNotifierQueue s' p' = rq_view MetadataUpdateClientsNotifierQueue s p'"
    by (auto simp: rq_inv_def rq_enq_def rq_view_def RedisQ_EnqueueMsg_def Let_def notifier_queue redis_push
        split: prod.splits)
  show "rq_inv s \<Longrightarrow> rq_rd MetadataUpdateClientsNotifierQueue p s = (OK q, s') \<Longrightarrow> p' \<noteq> p \<Longrightarrow>
      rq_view MetadataUpdateClientsNotifierQueue s' p' = rq_view MetadataUpdateClientsNotifierQueue s p'"
    by (auto simp: rq_inv_def rq_rd_def rq_view_def notifier_queue split: prod.splits option.splits dest!: ReadMsg_cases)
qed

lemma read_loop_lift:
  "read_loop (rq_rd topic p) n acc (R, view, r) =
     (case read_loop (RedisQ_ReadMsg R topic p) n acc r of (res, r') \<Rightarrow> (res, (R, view, r')))"
proof (induction n arbitrary: acc r)
  case (Suc n)
  then show ?case
    by (cases "RedisQ_ReadMsg R topic p r") (auto simp: rq_rd_def split: res.splits option.splits)
qed simp

subsection \<open>Properties\<close>

lemma enqueue_each_failed: "enqueue_each R q failed datas r = ([], r') \<Longrightarrow> failed = []"
  by (induction R q failed datas r rule: enqueue_each.induct) (auto split: prod.splits option.splits)

lemma enq_all_lift:
  "enq_all (rq_enq topic p) ms (R, view, r) =
     map_option (\<lambda>r'. (R, view, r')) (enq_all (RedisQ_EnqueueMsg R topic p) ms r)"
proof (induction ms arbitrary: r)
  case (Cons m ms)
  then show ?case
    by (cases "RedisQ_EnqueueMsg R topic p m r") (auto simp: rq_enq_def split: option.splits)
qed simp

text \<open>
  The queue is first-in first-out for every topic and partition: after messages were enqueued
  without error onto an empty list, reading as many times returns them in that order and empties
  the list; for the per-user topic, enqueueing for one user leaves every other user's list alone.
\<close>

theorem RedisQ_fifo:
  assumes "redis_lists R view" and "view r (NewTemplateString topic [p]) = []"
    and "enq_all (RedisQ_EnqueueMsg R topic p) ms r = Some r1"
    and "read_loop (RedisQ_ReadMsg R topic p) (length ms) [] r1 = (Some res, r2)"
  shows "map pl_Message res = map pl_Message ms \<and> view r2 (NewTemplateString topic [p]) = [] \<and>
    (topic = MetadataUpdateClientsNotifierQueue \<longrightarrow> (\<forall>u. u \<noteq> p \<longrightarrow>
       view r1 (NewTemplateString topic [u]) = view r (NewTemplateString topic [u])))"
proof -
  let ?s = "(R, view, r)" and ?s1 = "(R, view, r1)" and ?s2 = "(R, view, r2)"
  have inv: "rq_inv ?s" and empty: "rq_view topic ?s p = []" using assms(1,2) by (simp_all add: rq_inv_def rq_view_def)
  have enq: "enq_all (rq_enq topic p) ms ?s = Some ?s1" using assms(3) by (simp add: enq_all_lift)
  have rd: "read_loop (rq_rd topic p) (length ms) [] ?s1 = (Some res, ?s2)" using assms(4) by (simp add: read_loop_lift)
  have "rq_view topic ?s1 u = rq_view topic ?s u" if "topic = MetadataUpdateClientsNotifierQueue" "u \<noteq> p" for u
    using nq.enq_all_other [OF inv, of p ms ?s1 u] enq that by simp
  with rq.fifo [OF inv empty enq rd] show ?thesis by (simp add: rq_view_def)
qed

text \<open>
  One demand of the update worker takes messages off the front of the queue of pending updates,
  at most as many as demanded, in their order, and leaves the rest.
\<close>

theorem MetadataChangelog_batch_takes:
  assumes "redis_lists R view" and "MetadataChangelog_batch R d r = (Some res, r')"
  shows "map pl_Message res = take (nat d) (view r MetadataFileUpdateQueue) \<and>
    view r' MetadataFileUpdateQueue = drop (nat d) (view r MetadataFileUpdateQueue)"
proof -
  have "rq_inv (R, view, r)" using assms(1) by (simp add: rq_inv_def)
  moreover have "read_loop (rq_rd MetadataFileUpdateQueue []) (nat d) [] (R, view, r) = (Some res, (R, view, r'))"
    using assms(2) by (simp add: MetadataChangelog_batch_def read_loop_lift)
  ultimately show ?thesis
    using rq.read_loop_takes [of "(R, view, r)" MetadataFileUpdateQueue "[]" "nat d" "[]" res "(R, view, r')"]
    by (simp add: rq_view_def file_queue)
qed

text \<open>
  \<open>EnqueueMsgs\<close> does not use the partition: on the per-user topic it pushes to the list named by
  the unexpanded template, which no reader of any user's partition reads.
\<close>

theorem EnqueueMsgs_ignores_partition:
  assumes "redis_lists R view" and "RedisQ_EnqueueMsgs R MetadataUpdateClientsNotifierQueue p datas r = ([], r')"
  shows "view r' MetadataUpdateClientsNotifierQueue = view r MetadataUpdateClientsNotifierQueue @ map pl_Message datas \<and>
    (\<forall>q. q \<noteq> MetadataUpdateClientsNotifierQueue \<longrightarrow> view r' q = view r q)"
proof -
  have "enqueue_each R q [] datas r = ([], r') \<Longrightarrow>
      view r' q = view r q @ map pl_Message datas \<and> (\<forall>k. k \<noteq> q \<longrightarrow> view r' k = view r k)" for q
  proof (induction datas arbitrary: r)
    case (Cons m datas)
    obtain e r1 where push: "RPush R q (pl_Message m) r = (e, r1)" by (cases "RPush R q (pl_Message m) r")
    with Cons.prems have e: "e = None" using enqueue_each_failed by (cases e) force+
    with push have "view r1 = (view r)(q := view r q @ [pl_Message m])" using redis_push [OF assms(1)] by simp
    moreover from Cons.prems push e have "enqueue_each R q [] datas r1 = ([], r')" by simp
    ultimately show ?case using Cons.IH by simp
  qed simp
  with assms(2) show ?thesis by (simp add: RedisQ_EnqueueMsgs_def)
qed

end
