(* ===== verification/MetadataService.thy ===== *)
theory MetadataService
  imports Tokens Queuer
begin

text \<open>
  \<open>MetadataService\<close> (\<open>core/files/service.metadata.go\<close>): registering a file or a new version of
  one, ending an upload, listing a user's files and the ordered blob urls of a file.
\<close>

subsection \<open>Reading chunks\<close>

definition MetadataService_GetFileChunks :: "'r env \<Rightarrow> string \<Rightarrow> 'r world \<Rightarrow> FilesWithChunks res \<times> 'r world" where
  "MetadataService_GetFileChunks E fileID w =
     (case MetadataRepository_SelectFiles E [fileID] w of
        (Err e, w1) \<Rightarrow> (Err ''internal_error:2025:500'', w1)
      | (Panic p, w1) \<Rightarrow> (Panic p, w1)
      | (OK filesWithChunks, w1) \<Rightarrow>
          (case filesWithChunks of
             [] \<Rightarrow> (Err ''not_found:2027:404'', w1)
           | file # rest \<Rightarrow> (OK file, w1)))"

text \<open>\<open>chunks[chunk.ChunkID] = chunk.ChunkBlobUrl\<close> for every entry in iteration order.\<close>

fun place_chunks :: "FilesWithChunks gomap \<Rightarrow> string list \<Rightarrow> string list res" where
  "place_chunks [] chunks = OK chunks"
| "place_chunks ((k, chunk) # rest) chunks =
     (if 0 \<le> fwc_ChunkID chunk \<and> fwc_ChunkID chunk < int (length chunks)
      then place_chunks rest (chunks[nat (fwc_ChunkID chunk) := fwc_ChunkBlobUrl chunk])
      else Panic IndexOutOfRange)"

text \<open>The loop that keeps the last response with the id.\<close>

definition find_last :: "string \<Rightarrow> FileInfoResponse list \<Rightarrow> FileInfoResponse option" where
  "find_last fileID resps =
     fold (\<lambda>resp acc. if fi_ID resp = fileID then Some resp else acc) resps None"

definition MetadataService_ListOrderedFileChunks ::
    "'r env \<Rightarrow> string \<Rightarrow> string \<Rightarrow> 'r world \<Rightarrow> (string list \<times> FileInfoResponse) res \<times> 'r world" where
  "MetadataService_ListOrderedFileChunks E fileID userID w =
     (case MetadataRepository_SelectFiles E [fileID] w of
        (Err e, w1) \<Rightarrow> (Err ''internal_error:2025:500'', w1)
      | (Panic p, w1) \<Rightarrow> (Panic p, w1)
      | (OK rows, w1) \<Rightarrow>
          (case BuildFilesInfoResponse (map Some (rho_Filter rows (\<lambda>chunk _. fwc_UserID chunk = userID))) of
             Err e \<Rightarrow> (Err e, w1)
           | Panic p \<Rightarrow> (Panic p, w1)
           | OK metadataResponses \<Rightarrow>
               (if length metadataResponses < 1 then (Err ''file_corrupted:2045:500'', w1)
                else case find_last fileID metadataResponses of
                  None \<Rightarrow> (Err ''file_not_found:2046:500'', w1)
                | Some fileInfoResp \<Rightarrow>
                    (if fi_NChunks fileInfoResp < 0 then (Panic NegativeLen, w1)
                     else (res_map (\<lambda>chunks. (chunks, fileInfoResp))
                             (place_chunks (e_range E (w_tick w1) (fi_Chunks fileInfoResp))
                                (replicate (nat (fi_NChunks fileInfoResp)) [])), w1)))))"

subsection \<open>Ending an upload\<close>

record UserFileDevice =
  ud_UserID :: string
  ud_DeviceID :: string
  ud_FileID :: string
  ud_ChunkID :: string

definition clause_eq :: "string \<Rightarrow> string \<Rightarrow> FindKV" where
  "clause_eq key val = \<lparr>kv_Key = key, kv_PlaceHolder = [], kv_Operator = ''='', kv_Val = SText val\<rparr>"

definition MetadataService_MarkUploadComplete ::
    "'r env \<Rightarrow> UserFileDevice \<Rightarrow> 'r world \<Rightarrow> (string \<times> bool) list Response \<times> 'r world" where
  "MetadataService_MarkUploadComplete E userFileDevice w =
     (case MetadataRepository_FindBy E
            [clause_eq ''id'' (ud_FileID userFileDevice), clause_eq ''upload_status'' StatusUploading] w of
        (OK (metadata # rest), w1) \<Rightarrow>
          (let qdata = \<lparr>cm_UserID = fm_UserID metadata, cm_PrevID = fm_PrevID metadata,
                 cm_DeviceID = ud_DeviceID userFileDevice, cm_ID = ud_FileID userFileDevice\<rparr>
           in case e_gob_cache E qdata of
                Inl e \<Rightarrow> (BuildResponse (Some ''internal_error:2021:500'') None, w1)
              | Inr b \<Rightarrow>
                  (case RedisQ_EnqueueMsg (e_redis E) MetadataFileUpdateQueue []
                          \<lparr>pl_Message = b, pl_Key = [], pl_TTL = 0\<rparr> (w_redis w1) of
                     (Some e, r) \<Rightarrow> (BuildResponse (Some ''internal_error:2021:500'') None, w1\<lparr>w_redis := r\<rparr>)
                   | (None, r) \<Rightarrow> (BuildResponse None (Some [(''eof'', True)]), w1\<lparr>w_redis := r\<rparr>)))
      | (_, w1) \<Rightarrow> (BuildResponse (Some ''file_not_found:2019:404'') None, w1))"

subsection \<open>Registering files and versions\<close>

record MetadataRequest =
  mr_UserID :: string
  mr_FileName :: string
  mr_FileType :: string
  mr_FileSize :: int
  mr_Digest :: string
  mr_UploadStatus :: string
  mr_Chunks :: int
  mr_AccessToken :: string

record FileUpdateMetadataRequest =
  ur_FileName :: string
  ur_FileID :: string
  ur_Digest :: string
  ur_Chunks :: int
  ur_FileSize :: int
  ur_FileType :: string
  ur_UploadStatus :: string
  ur_UserID :: string

record MetadataTokenResponse =
  mt_AccessToken :: string
  mt_StreamToken :: string
  mt_PrevID :: "string option"
  mt_FileID :: string
  mt_FileType :: string
  mt_Digest :: string
  mt_UploadStatus :: string
  mt_CreatedAt :: gotime
  mt_ExpiresIn :: int

text \<open>What both operations do once the row of the new file is built: issue its stream token and
  store both.  The two operations differ in the text of the error and the response.\<close>

definition issue_token ::
    "'r env \<Rightarrow> FileMetadata \<Rightarrow> goerr \<Rightarrow> goerr \<Rightarrow> (Token \<Rightarrow> MetadataTokenResponse) \<Rightarrow> 'r world
      \<Rightarrow> MetadataTokenResponse Response res \<times> 'r world" where
  "issue_token E metadata tokenErr storeErr answer w =
     (case NewToken E (fm_ID metadata) ResourceTypeStream
            [WithDefaultExpiry, WithUserID (Some (fm_UserID metadata))] w of
        (Err e, w1) \<Rightarrow> (OK (BuildResponse (Some tokenErr) None), w1)
      | (Panic p, w1) \<Rightarrow> (Panic p, w1)
      | (OK token, w1) \<Rightarrow>
          (case MetadataTokenRepository_CreateMetadataToken E metadata token w1 of
             (Err e, w2) \<Rightarrow> (OK (BuildResponse (Some storeErr) None), w2)
           | (Panic p, w2) \<Rightarrow> (Panic p, w2)
           | (OK u, w2) \<Rightarrow> (OK (BuildResponse None (Some (answer token))), w2)))"

definition MetadataService_PrepareFileForUpload ::
    "'r env \<Rightarrow> MetadataRequest \<Rightarrow> 'r world \<Rightarrow> MetadataTokenResponse Response res \<times> 'r world" where
  "MetadataService_PrepareFileForUpload E req w =
     (let chunks = CalculateChunks (mr_FileSize req)
      in case MetadataRepository_FindByHash E (mr_Digest req) w of
        ((found, Some e), w1) \<Rightarrow> (OK (BuildResponse (Some ''duplicate:2014:422'') None), w1)
      | ((found, None), w1) \<Rightarrow>
          (case NewID E w1 of
             (Err e, w2) \<Rightarrow> (OK (BuildResponse (Some ''id_gen_failed:2002:500'') None), w2)
           | (Panic p, w2) \<Rightarrow> (Panic p, w2)
           | (OK fid, w2) \<Rightarrow>
               (if chunks \<noteq> mr_Chunks req
                then (OK (BuildResponse (Some ''chunks_size_invalid:2005:422'') None), w2)
                else case NewTimestamp E w2 of (stamp, w3) \<Rightarrow>
                  (let metadata = \<lparr>fm_ID = fid, fm_UserID = mr_UserID req, fm_Filename = mr_FileName req,
                         fm_FileSize = mr_FileSize req, fm_FileType = mr_FileType req, fm_FileHash = mr_Digest req,
                         fm_NChunks = chunks, fm_CurrentFlag = False, fm_UploadStaus = mr_UploadStatus req,
                         fm_PrevID = None, fm_EndDate = None, fm_Timestamp = stamp\<rparr>
                   in issue_token E metadata ''internal_server_error:2010:500'' ''internal_server_error:2011:500''
                        (\<lambda>token. \<lparr>mt_AccessToken = [], mt_StreamToken = tk_AccessToken token, mt_PrevID = None,
                           mt_FileID = fid, mt_FileType = fm_FileType metadata, mt_Digest = fm_FileHash metadata,
                           mt_UploadStatus = StatusUploading, mt_CreatedAt = ts_CreatedAt (tk_Timestamp token),
                           mt_ExpiresIn = ShortExpiryDuration\<rparr>) w3))))"

definition MetadataService_UpdateFileMetadata ::
    "'r env \<Rightarrow> FileUpdateMetadataRequest \<Rightarrow> 'r world \<Rightarrow> MetadataTokenResponse Response res \<times> 'r world" where
  "MetadataService_UpdateFileMetadata E req w =
     (let chunks = CalculateChunks (ur_FileSize req)
      in if chunks \<noteq> ur_Chunks req then (OK (BuildResponse (Some ''invalid_file_data:2006:422'') None), w)
      else case MetadataRepository_FindBy E [clause_eq ''id'' (ur_FileID req)] w of
        (Err e, w1) \<Rightarrow> (OK (BuildResponse (Some ''file_not_found:2022:422'') None), w1)
      | (Panic p, w1) \<Rightarrow> (Panic p, w1)
      | (OK [], w1) \<Rightarrow> (OK (BuildResponse (Some ''file_not_found:2023:404'') None), w1)
      | (OK (prevMetadata # rest), w1) \<Rightarrow>
          (case NewID E w1 of
             (Err e, w2) \<Rightarrow> (OK (BuildResponse (Some ''id_gen_failed:2002:500'') None), w2)
           | (Panic p, w2) \<Rightarrow> (Panic p, w2)
           | (OK fid, w2) \<Rightarrow>
               (if fm_FileHash prevMetadata = ur_Digest req
                then (OK (BuildResponse (Some ''duplicate:2014:422'') None), w2)
                else case NewTimestamp E w2 of (stamp, w3) \<Rightarrow>
                  (let metadata = \<lparr>fm_ID = fid, fm_UserID = ur_UserID req, fm_Filename = fm_Filename prevMetadata,
                         fm_FileSize = ur_FileSize req, fm_FileType = fm_FileType prevMetadata,
                         fm_FileHash = ur_Digest req, fm_NChunks = ur_Chunks req, fm_CurrentFlag = False,
                         fm_UploadStaus = StatusUploading, fm_PrevID = Some (ur_FileID req), fm_EndDate = None,
                         fm_Timestamp = stamp\<rparr>
                   in issue_token E metadata ''internal_server_error:2011:500'' ''internal_server_error:2011:500''
                        (\<lambda>token. \<lparr>mt_AccessToken = [], mt_StreamToken = tk_AccessToken token,
                           mt_PrevID = fm_PrevID metadata, mt_FileID = fm_ID metadata, mt_FileType = [],
                           mt_Digest = [], mt_UploadStatus = StatusUploading,
                           mt_CreatedAt = ts_CreatedAt (tk_Timestamp token),
                           mt_ExpiresIn = ShortExpiryDuration\<rparr>) w3))))"

subsection \<open>Listing\<close>

record files_Response =
  fr_FilesInfo :: "FileInfoResponse list"
  fr_HasMore :: bool

definition MetadataService_ListFilesForUser ::
    "'r env \<Rightarrow> string \<Rightarrow> int \<Rightarrow> int \<Rightarrow> 'r world \<Rightarrow> files_Response Response res \<times> 'r world" where
  "MetadataService_ListFilesForUser E userID offset limit w =
     (case MetadataRepository_ListByUserID E userID offset limit w of
        (Err e, w1) \<Rightarrow> (OK (BuildResponse (Some e) None), w1)
      | (Panic p, w1) \<Rightarrow> (Panic p, w1)
      | (OK (files, hasMore), w1) \<Rightarrow>
          (if files = [] then (OK (BuildResponse None (Some \<lparr>fr_FilesInfo = [], fr_HasMore = False\<rparr>)), w1)
           else (res_map (\<lambda>infos. BuildResponse None (Some \<lparr>fr_FilesInfo = infos, fr_HasMore = hasMore\<rparr>))
                   (BuildFilesInfoResponse files), w1)))"

end
