(* ===== verification/Blobstore.thy ===== *)
theory Blobstore
  imports FilesRepo
begin

text \<open>
  \<open>LocalFS\<close> of \<open>pkg/blobstore/localfs.go\<close>, which keeps each chunk of a file as a file of its own
  under a directory named after the file id, and \<open>FileChunkService\<close> of
  \<open>core/files/userfiles.service.go\<close>, which checks a chunk's digest, stores it and records it.
\<close>

subsection \<open>Paths and the file system\<close>

text \<open>\<open>filepath.Join\<close> for a first element that starts with a slash: the elements are joined with
  slashes and the result is cleaned, dropping empty and \<open>.\<close> elements and resolving \<open>..\<close>.\<close>

fun clean_elems :: "string list \<Rightarrow> string list \<Rightarrow> string list" where
  "clean_elems acc [] = rev acc"
| "clean_elems acc (el # els) =
     (if el = [] \<or> el = ''.'' then clean_elems acc els
      else if el = ''..'' then clean_elems (tl acc) els
      else clean_elems (el # acc) els)"

definition path_elems :: "string list \<Rightarrow> string list" where
  "path_elems elems = clean_elems [] (concat (map (split_char (CHR ''/'')) elems))"

definition path_of :: "string list \<Rightarrow> string" where
  "path_of els = CHR ''/'' # join_with ''/'' els"

definition filepath_Join :: "string list \<Rightarrow> string" where
  "filepath_Join elems = path_of (path_elems elems)"

text \<open>\<open>os.MkdirAll\<close>: every directory from the root to the path is made unless it is there; a file
  in the way is an error.\<close>

definition parents :: "string list \<Rightarrow> string list" where
  "parents els = map (\<lambda>n. path_of (take (Suc n) els)) [0..<length els]"

definition is_file :: "fs \<Rightarrow> string \<Rightarrow> bool" where
  "is_file fs p = (case fs p of Some (FFile b) \<Rightarrow> True | _ \<Rightarrow> False)"

definition os_MkdirAll :: "'r env \<Rightarrow> string list \<Rightarrow> 'r world \<Rightarrow> goerr option \<times> 'r world" where
  "os_MkdirAll E els w =
     (case ext_call E w of
        (Some e, w1) \<Rightarrow> (Some e, w1)
      | (None, w1) \<Rightarrow>
          (if list_ex (is_file (w_fs w1)) (parents els)
           then (Some ''not a directory'', w1)
           else (None, w1\<lparr>w_fs := (\<lambda>p. if p \<in> set (parents els) then Some FDir else w_fs w1 p)\<rparr>)))"

definition os_IsExist :: "goerr \<Rightarrow> bool" where
  "os_IsExist e = list_ex (\<lambda>s. length s \<le> length e \<and> drop (length e - length s) e = s)
     [''file exists'', ''directory not empty'', ''file already exists'']"

definition ErrNotDirectory :: goerr where "ErrNotDirectory = ''not_a_directory''"

definition EnsureDir :: "'r env \<Rightarrow> string list \<Rightarrow> 'r world \<Rightarrow> goerr option \<times> 'r world" where
  "EnsureDir E els w =
     (case os_MkdirAll E els w of
        (None, w1) \<Rightarrow> (None, w1)
      | (Some err, w1) \<Rightarrow>
          (if os_IsExist err
           then case ext_call E w1 of
                  (Some e, w2) \<Rightarrow> (Some e, w2)
                | (None, w2) \<Rightarrow>
                    (case w_fs w2 (path_of els) of
                       None \<Rightarrow> (Some ''no such file or directory'', w2)
                     | Some FDir \<Rightarrow> (None, w2)
                     | Some (FFile b) \<Rightarrow> (Some ErrNotDirectory, w2))
           else (Some err, w1)))"

text \<open>\<open>os.Create\<close> truncates or makes the file; a directory of that name is an error.\<close>

definition os_Create :: "'r env \<Rightarrow> string \<Rightarrow> 'r world \<Rightarrow> goerr option \<times> 'r world" where
  "os_Create E path w =
     (case ext_call E w of
        (Some e, w1) \<Rightarrow> (Some e, w1)
      | (None, w1) \<Rightarrow>
          (if w_fs w1 path = Some FDir then (Some ''is a directory'', w1)
           else (None, w1\<lparr>w_fs := (w_fs w1)(path := Some (FFile []))\<rparr>)))"

text \<open>\<open>io.Copy\<close> into a created file; a write that fails has written some prefix.\<close>

definition copy_to_file :: "'r env \<Rightarrow> string \<Rightarrow> bytes \<Rightarrow> 'r world \<Rightarrow> goerr option \<times> 'r world" where
  "copy_to_file E path data w =
     (case ext_call E w of
        (Some e, w1) \<Rightarrow>
          (Some e, w1\<lparr>w_fs := (w_fs w1)(path := Some (FFile (take (e_written E (w_tick w)) data)))\<rparr>)
      | (None, w1) \<Rightarrow> (None, w1\<lparr>w_fs := (w_fs w1)(path := Some (FFile data))\<rparr>))"

subsection \<open>LocalFS\<close>

text \<open>The chunk's data is its bytes; its reader is rewound before it is copied.  A copy that fails
  yields an empty path and no error, as in the code.\<close>

definition chunk_path :: "string \<Rightarrow> string \<Rightarrow> int \<Rightarrow> string" where
  "chunk_path dirPath fileID chunkID = filepath_Join [dirPath, fileID, fmt_d chunkID]"

definition LocalFS_UpdateChunk ::
    "'r env \<Rightarrow> string \<Rightarrow> string \<Rightarrow> bytes \<Rightarrow> int \<Rightarrow> 'r world \<Rightarrow> (goerr + string) \<times> 'r world" where
  "LocalFS_UpdateChunk E dirPath fileID data chunkID w =
     (case EnsureDir E (path_elems [dirPath, fileID]) w of
        (Some e, w1) \<Rightarrow> (Inl e, w1)
      | (None, w1) \<Rightarrow>
          (let path = chunk_path dirPath fileID chunkID
           in case os_Create E path w1 of
                (Some e, w2) \<Rightarrow> (Inl e, w2)
              | (None, w2) \<Rightarrow>
                  (case copy_to_file E path data w2 of
                     (Some e, w3) \<Rightarrow> (Inr [], w3)
                   | (None, w3) \<Rightarrow> (Inr path, w3))))"

subsection \<open>FileChunkService\<close>

record FileChunkRequest =
  cr_ChunkID :: string
  cr_NextChunkID :: string
  cr_ChunkDigest :: string
  cr_ChunkSize :: int
  cr_FileDigest :: string
  cr_Data :: bytes
  cr_FileID :: string
  cr_UserID :: string

record ChunkUploadResponse =
  cu_ChunkID :: int
  cu_NextChunkID :: int
  cu_ChunkBlobUrl :: string
  cu_ChunkHash :: string
  cu_CreatedAt :: gotime
  cu_UpdatedAt :: gotime

definition ValidateHash :: "'r env \<Rightarrow> FileChunkRequest \<Rightarrow> 'r world \<Rightarrow> goerr option \<times> 'r world" where
  "ValidateHash E req w =
     (case ext_call E w of
        (Some e, w1) \<Rightarrow> (Some e, w1)
      | (None, w1) \<Rightarrow>
          (let digest = hex_EncodeToString (e_sha256 E (cr_Data req))
           in if cr_ChunkDigest req \<noteq> digest then (Some ''hash_mismatch'', w1) else (None, w1)))"

definition FileChunkService_Create ::
    "'r env \<Rightarrow> string \<Rightarrow> FileChunkRequest \<Rightarrow> 'r world \<Rightarrow> ChunkUploadResponse Response \<times> 'r world" where
  "FileChunkService_Create E dirPath req w =
     (case ValidateHash E req w of
        (Some e, w1) \<Rightarrow> (BuildResponse (Some ''corrupted_file:5001:422'') None, w1)
      | (None, w1) \<Rightarrow>
          (case Atoi (cr_ChunkID req) of
             (_, Some e) \<Rightarrow> (BuildResponse (Some ''invalid_file_chunk:5002:422'') None, w1)
           | (chunkIDInt, None) \<Rightarrow>
               (case ParseInt (cr_NextChunkID req) of
                  (_, Some e) \<Rightarrow> (BuildResponse (Some ''invalid_file_chunk:5004:422'') None, w1)
                | (nextChunkIDInt, None) \<Rightarrow>
                    (case LocalFS_UpdateChunk E dirPath (cr_FileID req) (cr_Data req) chunkIDInt w1 of
                       (Inl e, w2) \<Rightarrow> (BuildResponse (Some ''internal_server_error:5003:500'') None, w2)
                     | (Inr storedPath, w2) \<Rightarrow>
                         (case NewTimestamp E w2 of (stamp, w3) \<Rightarrow>
                           (case UserFileRepository_Create E
                                  \<lparr>uf_UserID = cr_UserID req, uf_FileID = cr_FileID req, uf_ChunkID = chunkIDInt,
                                   uf_ChunkBlobUrl = storedPath, uf_ChunkHash = cr_ChunkDigest req,
                                   uf_NextChunkID = Some nextChunkIDInt, uf_Timestamp = stamp\<rparr> w3 of
                              (OK u, w4) \<Rightarrow>
                                (BuildResponse None (Some
                                   \<lparr>cu_ChunkID = chunkIDInt, cu_NextChunkID = nextChunkIDInt,
                                    cu_ChunkBlobUrl = storedPath, cu_ChunkHash = cr_ChunkDigest req,
                                    cu_CreatedAt = ts_CreatedAt stamp, cu_UpdatedAt = ts_UpdatedAt stamp\<rparr>), w4)
                            | (_, w4) \<Rightarrow> (BuildResponse (Some ''save_chunk_failed:5005:500'') None, w4)))))))"

end
