(* ===== verification/Sample.thy ===== *)
theory Sample
  imports Tokens Queuer
begin

text \<open>
  A concrete environment in which every assumption about the outside world holds: no call
  fails, rows come sorted, maps are ranged over in list order, Redis is a map from keys to lists
  beside a map of cached values.  The closed instances of the properties run in it.
\<close>

type_synonym mem_redis = "(string \<Rightarrow> string list) \<times> (string \<Rightarrow> bytes option)"

definition mem_client :: "mem_redis redis" where
  "mem_client = \<lparr>
     RPush = (\<lambda>q m r. (None, ((fst r)(q := fst r q @ [m]), snd r))),
     BLPop = (\<lambda>q r. case fst r q of [] \<Rightarrow> (BNil, r) | x # xs \<Rightarrow> (BReply [q, x], ((fst r)(q := xs), snd r))),
     RGet = (\<lambda>k r. snd r k),
     SetEx = (\<lambda>k v r. (None, (fst r, (snd r)(k := Some v))))\<rparr>"

definition sort_rows :: "(FileMetadata \<times> UserFile) list \<Rightarrow> (FileMetadata \<times> UserFile) list" where
  "sort_rows rows = sort_key (\<lambda>q. - ts_CreatedAt (fm_Timestamp (fst q))) rows"

text \<open>The one queue message and the one event that the sample encoder knows.\<close>

definition sample_cache :: CacheMetadata where
  "sample_cache = \<lparr>cm_UserID = ''U1'', cm_PrevID = Some ''A'', cm_DeviceID = ''1'', cm_ID = ''B''\<rparr>"

definition sample_event :: MetadataUpdateStatusEvent where
  "sample_event = \<lparr>ev_FileID = ''B'', ev_UserID = ''U1'', ev_PrevFileID = Some ''A'', ev_DeviceID = ''1''\<rparr>"

definition sample_env :: "mem_redis env" where
  "sample_env = \<lparr>e_fault = (\<lambda>n. None), e_clock = (\<lambda>n. 1000 + int n),
     e_ulid = (\<lambda>n. Inr (''ULID'' @ fmt_d (int n))), e_rand = (\<lambda>n len. Inr (replicate len (CHR ''r''))),
     e_sha256 = (\<lambda>b. b), e_order = (\<lambda>n. sort_rows), e_range = (\<lambda>n m. m), e_cap = (\<lambda>n. n), e_written = (\<lambda>n. 0),
     e_metaQ = (\<lambda>s. Some []), e_chunkQ = (\<lambda>s. Some []), e_tokenQ = (\<lambda>s. Some []),
     e_gob_cache = (\<lambda>c. if c = sample_cache then Inr ''m'' else Inl ''gob''),
     e_ungob_cache = (\<lambda>b. if b = ''m'' then Inr sample_cache else Inl ''gob''),
     e_gob_event = (\<lambda>v. if v = sample_event then Inr ''e'' else Inl ''gob''),
     e_ungob_event = (\<lambda>b. if b = ''e'' then Inr sample_event else Inl ''gob''),
     e_redis = mem_client\<rparr>"

text \<open>Version \<open>B\<close> of file \<open>A\<close>: both have two chunks, the client sent the second one again.\<close>

definition stamp :: "int \<Rightarrow> Timestamp" where
  "stamp t = \<lparr>ts_CreatedAt = t, ts_UpdatedAt = t\<rparr>"

definition row_A :: FileMetadata where
  "row_A = \<lparr>fm_ID = ''A'', fm_UserID = ''U1'', fm_Filename = ''f'', fm_FileSize = 5000000, fm_FileType = ''t'',
     fm_FileHash = ''ha'', fm_NChunks = 2, fm_CurrentFlag = True, fm_UploadStaus = StatusCompleted,
     fm_PrevID = None, fm_EndDate = None, fm_Timestamp = stamp 10\<rparr>"

definition row_B :: FileMetadata where
  "row_B = \<lparr>fm_ID = ''B'', fm_UserID = ''U1'', fm_Filename = ''f'', fm_FileSize = 5000001, fm_FileType = ''t'',
     fm_FileHash = ''hb'', fm_NChunks = 2, fm_CurrentFlag = False, fm_UploadStaus = StatusUploading,
     fm_PrevID = Some ''A'', fm_EndDate = None, fm_Timestamp = stamp 20\<rparr>"

definition chunk_row :: "string \<Rightarrow> int \<Rightarrow> string \<Rightarrow> int \<Rightarrow> int \<Rightarrow> UserFile" where
  "chunk_row f c url nxt t = \<lparr>uf_UserID = ''U1'', uf_FileID = f, uf_ChunkID = c, uf_ChunkBlobUrl = url,
     uf_ChunkHash = url, uf_NextChunkID = Some nxt, uf_Timestamp = stamp t\<rparr>"

definition sample_db :: db where
  "sample_db = \<lparr>file_metadatas = [row_A, row_B],
     user_files = [chunk_row ''A'' 0 ''a0'' 1 11, chunk_row ''A'' 1 ''a1'' (-1) 12, chunk_row ''B'' 1 ''b1'' (-1) 21],
     tokens_tbl = []\<rparr>"

definition sample_world :: "mem_redis world" where
  "sample_world = \<lparr>w_tick = 0, w_db = sample_db, w_redis = (\<lambda>q. [], \<lambda>k. None), w_fs = (\<lambda>p. None)\<rparr>"

subsection \<open>The assumptions hold\<close>

lemma sample_no_faults: "no_faults sample_env"
  by (simp add: no_faults_def sample_env_def)

lemma sample_stmts: "stmts_loaded sample_env"
  by (simp add: stmts_loaded_def sample_env_def)

lemma sample_order: "sql_order_ok sample_env"
proof -
  have "sorted_wrt (\<lambda>a b. ts_CreatedAt (fm_Timestamp (fst b)) \<le> ts_CreatedAt (fm_Timestamp (fst a))) (sort_rows rows)"
    for rows
    using sorted_sort_key [of "\<lambda>q. - ts_CreatedAt (fm_Timestamp (fst q))" rows]
    by (simp add: sort_rows_def sorted_wrt_map)
  then show ?thesis by (simp add: sql_order_ok_def sample_env_def) (simp add: sort_rows_def)
qed

lemma sample_range: "range_ok sample_env"
  by (simp add: range_ok_def sample_env_def)

lemma sample_cap: "cap_ok sample_env"
  by (simp add: cap_ok_def sample_env_def)

lemma sample_gob: "gob_ok sample_env"
  by (auto simp: gob_ok_def sample_env_def gob_ptr_def sample_cache_def sample_event_def split: if_splits)

lemma sample_clock: "0 < e_clock sample_env n"
  by (simp add: sample_env_def)

lemma mem_lists: "redis_lists mem_client fst"
  by (auto simp: redis_lists_def mem_client_def split: list.splits)

lemma mem_cache: "redis_cache mem_client"
  by (auto simp: redis_cache_def mem_client_def split: if_splits)

lemma sample_db_wf: "db_wf sample_db"
  by (simp add: db_wf_def files_wf_def sample_db_def row_A_def row_B_def)

lemmas sample_ok = sample_no_faults sample_stmts sample_order sample_range sample_cap sample_gob
lemmas sample_defs = sample_world_def sample_db_def row_A_def row_B_def chunk_row_def stamp_def

lemma sample_rows:
  "file_row ''A'' sample_db = Some row_A" "file_row ''B'' sample_db = Some row_B"
  "file_chunks ''A'' sample_db = [chunk_row ''A'' 0 ''a0'' 1 11, chunk_row ''A'' 1 ''a1'' (-1) 12]"
  "file_chunks ''B'' sample_db = [chunk_row ''B'' 1 ''b1'' (-1) 21]"
  by (simp_all add: file_row_def file_chunks_def sample_defs)

subsection \<open>Instances of the queue's properties\<close>

definition plain_payload :: "string \<Rightarrow> Payload" where
  "plain_payload m = \<lparr>pl_Message = m, pl_Key = [], pl_TTL = 0\<rparr>"

definition empty_redis :: mem_redis where
  "empty_redis = (\<lambda>q. [], \<lambda>k. None)"

theorem RedisQ_fifo_witness:
  "\<exists>r1 res r2. enq_all (RedisQ_EnqueueMsg mem_client MetadataUpdateClientsNotifierQueue ''U1'')
       [plain_payload ''x'', plain_payload ''y''] empty_redis = Some r1 \<and>
     read_loop (RedisQ_ReadMsg mem_client MetadataUpdateClientsNotifierQueue ''U1'') 2 [] r1 = (Some res, r2) \<and>
     map pl_Message res = [''x'', ''y''] \<and>
     fst r1 (NewTemplateString MetadataUpdateClientsNotifierQueue [''U2'']) = []"
proof -
  let ?q = MetadataUpdateClientsNotifierQueue and ?ms = "[plain_payload ''x'', plain_payload ''y'']"
  obtain r1 where e: "enq_all (RedisQ_EnqueueMsg mem_client ?q ''U1'') ?ms empty_redis = Some r1"
    by (simp add: RedisQ_EnqueueMsg_def mem_client_def Let_def)
  obtain res r2 where r: "read_loop (RedisQ_ReadMsg mem_client ?q ''U1'') (length ?ms) [] r1 = (Some res, r2)"
    using e by (auto simp: RedisQ_EnqueueMsg_def RedisQ_ReadMsg_def mem_client_def empty_redis_def plain_payload_def Let_def)
  have v: "fst empty_redis (NewTemplateString ?q [u]) = []" for u by (simp add: empty_redis_def)
  from RedisQ_fifo [OF mem_lists v e r] e r v show ?thesis
    by (auto simp: plain_payload_def numeral_2_eq_2)
qed

theorem MetadataChangelog_batch_takes_witness:
  "\<exists>res r'. MetadataChangelog_batch mem_client 1 ((\<lambda>q. [''m'', ''n'']), \<lambda>k. None) = (Some res, r') \<and>
     map pl_Message res = [''m''] \<and> fst r' MetadataFileUpdateQueue = [''n'']"
proof -
  obtain res r' where run: "MetadataChangelog_batch mem_client 1 ((\<lambda>q. [''m'', ''n'']), \<lambda>k. None) = (Some res, r')"
    by (simp add: MetadataChangelog_batch_def RedisQ_ReadMsg_def mem_client_def Let_def)
  from MetadataChangelog_batch_takes [OF mem_lists run] run show ?thesis by simp
qed

theorem EnqueueMsgs_ignores_partition_witness:
  "\<exists>r'. RedisQ_EnqueueMsgs mem_client MetadataUpdateClientsNotifierQueue ''U1'' [plain_payload ''x''] empty_redis = ([], r') \<and>
     fst r' (NewTemplateString MetadataUpdateClientsNotifierQueue [''U1'']) = []"
proof -
  obtain r' where run: "RedisQ_EnqueueMsgs mem_client MetadataUpdateClientsNotifierQueue ''U1'' [plain_payload ''x'']
      empty_redis = ([], r')"
    by (simp add: RedisQ_EnqueueMsgs_def mem_client_def)
  have "NewTemplateString MetadataUpdateClientsNotifierQueue [''U1''] \<noteq> MetadataUpdateClientsNotifierQueue"
    unfolding notifier_queue by (simp add: MetadataUpdateClientsNotifierQueue_def)
  with EnqueueMsgs_ignores_partition [OF mem_lists run] run show ?thesis by (simp add: empty_redis_def)
qed

end
