(* ===== verification/Chunks.thy ===== *)
theory Chunks
  imports Blobstore Sample
begin

text \<open>
  What storing a chunk does: paths of distinct chunks are distinct, an accepted chunk is on disk
  under its path and recorded, a chunk with a wrong digest leaves no trace.
\<close>

subsection \<open>Paths\<close>

definition plain_elem :: "string \<Rightarrow> bool" where
  "plain_elem el \<longleftrightarrow> el \<noteq> [] \<and> el \<noteq> ''.'' \<and> el \<noteq> ''..'' \<and> CHR ''/'' \<notin> set el"

lemma clean_plain: "list_all plain_elem els \<Longrightarrow> clean_elems acc els = rev acc @ els"
  by (induction els arbitrary: acc) (auto simp: plain_elem_def)

lemma clean_append: "clean_elems acc (xs @ ys) = clean_elems (rev (clean_elems acc xs)) ys"
  by (induction acc xs rule: clean_elems.induct) auto

lemma clean_elems_plain:
  "list_all plain_elem acc \<Longrightarrow> list_all (\<lambda>e. CHR ''/'' \<notin> set e) els \<Longrightarrow> list_all plain_elem (clean_elems acc els)"
proof (induction acc els rule: clean_elems.induct)
  case (2 acc el els)
  have "list_all plain_elem (tl acc)" using 2(4) by (cases acc) auto
  moreover have "plain_elem el" if "el \<noteq> []" "el \<noteq> ''.''" "el \<noteq> ''..''"
    using 2(5) that by (simp add: plain_elem_def)
  ultimately show ?case using 2 by auto
qed (simp add: list_all_iff)

lemma split_char_free: "list_all (\<lambda>e. c \<notin> set e) (split_char c s)"
  by (induction c s rule: split_char.induct) (auto split: list.splits)

lemma path_elems_plain: "list_all plain_elem (path_elems elems)"
  unfolding path_elems_def
  by (rule clean_elems_plain) (auto simp: list_all_iff split_char_free [unfolded list_all_iff])

lemma path_elems_snoc:
  assumes "list_all plain_elem els"
  shows "path_elems (d # els) = path_elems [d] @ els"
proof -
  have "concat (map (split_char (CHR ''/'')) els) = els"
    using assms by (induction els) (auto simp: plain_elem_def split_char_none)
  then show ?thesis
    using clean_append [of "[]" "split_char (CHR ''/'') d" els] assms by (simp add: path_elems_def clean_plain)
qed

lemma split_join: "xs \<noteq> [] \<Longrightarrow> list_all (\<lambda>e. c \<notin> set e) xs \<Longrightarrow> split_char c (join_with [c] xs) = xs"
  by (induction "[c]" xs rule: join_with.induct) (simp_all add: split_char_none split_char_append)

lemma path_of_inj:
  assumes "list_all plain_elem xs" "list_all plain_elem ys" "xs \<noteq> []" "ys \<noteq> []"
  shows "path_of xs = path_of ys \<longleftrightarrow> xs = ys"
proof -
  have "split_char (CHR ''/'') (join_with ''/'' zs) = zs" if "list_all plain_elem zs" "zs \<noteq> []" for zs
    using that by (intro split_join) (auto simp: list_all_iff plain_elem_def)
  then show ?thesis using assms unfolding path_of_def by (metis list.inject)
qed


lemma plain_fmt_d: "plain_elem (fmt_d n)"
proof -
  have "CHR ''.'' \<notin> set (fmt_d n)" by (rule fmt_d_no_char) (simp_all add: digit_val_def)
  then have "fmt_d n \<noteq> ''.''" "fmt_d n \<noteq> ''..''" by auto
  then show ?thesis by (simp add: plain_elem_def)
qed

text \<open>
  Blobs do not overwrite each other: with ids that are plain path elements (not empty, not \<open>.\<close>
  or \<open>..\<close>, without a slash), two chunks have the same path only if they are the same chunk of the
  same file, and the path lies below the directory of the store.
\<close>

theorem chunk_path_inj:
  assumes "plain_elem f" and "plain_elem g"
  shows "(chunk_path d f c = chunk_path d g k \<longleftrightarrow> f = g \<and> c = k) \<and>
    path_elems [d, f, fmt_d c] = path_elems [d] @ [f, fmt_d c]"
proof -
  have e: "path_elems [d, f, fmt_d c] = path_elems [d] @ [f, fmt_d c]" if "plain_elem f" for f c
    using that path_elems_snoc [of "[f, fmt_d c]" d] by (simp add: plain_fmt_d)
  have "chunk_path d f c = chunk_path d g k \<longleftrightarrow> path_elems [d, f, fmt_d c] = path_elems [d, g, fmt_d k]"
    unfolding chunk_path_def filepath_Join_def
    by (rule path_of_inj) (simp_all add: path_elems_plain e assms plain_fmt_d)
  with e assms show ?thesis by (simp add: fmt_d_inj)
qed

theorem chunk_path_inj_witness:
  "chunk_path ''/data'' ''01HY'' 12 \<noteq> chunk_path ''/data'' ''01HY'' 2 \<and>
   chunk_path ''/data'' ''01HY'' 1 \<noteq> chunk_path ''/data'' ''01HZ'' 1"
  using chunk_path_inj [of "''01HY''" "''01HY''" "''/data''" 12 2]
    chunk_path_inj [of "''01HY''" "''01HZ''" "''/data''" 1 1]
  by (simp add: plain_elem_def)

subsection \<open>Storing a chunk\<close>

text \<open>Nothing but the tables' record and the chunk's own file changes.\<close>

definition files_kept :: "string set \<Rightarrow> fs \<Rightarrow> fs \<Rightarrow> bool" where
  "files_kept P fs fs' \<longleftrightarrow> (\<forall>q. q \<notin> P \<longrightarrow> is_file fs q \<or> is_file fs' q \<longrightarrow> fs' q = fs q)"

lemma files_kept_refl [simp]: "files_kept P fs fs"
  by (simp add: files_kept_def)

lemma files_kept_trans: "files_kept P a b \<Longrightarrow> files_kept P b c \<Longrightarrow> files_kept P a c"
  unfolding files_kept_def is_file_def by metis

lemma files_kept_upd [simp]: "files_kept {p} fs (fs(p := x))"
  by (simp add: files_kept_def is_file_def)

lemma MkdirAll_cases:
  "os_MkdirAll E els w = (r, w') \<Longrightarrow>
     w_db w' = w_db w \<and> w_redis w' = w_redis w \<and> files_kept P (w_fs w) (w_fs w')"
  by (auto simp: os_MkdirAll_def ext_call_def files_kept_def list_ex_iff is_file_def [of "\<lambda>p. if P p then Some FDir else Q p" for P Q]
      split: option.splits if_splits)

lemma EnsureDir_cases:
  "EnsureDir E els w = (r, w') \<Longrightarrow>
     w_db w' = w_db w \<and> w_redis w' = w_redis w \<and> files_kept P (w_fs w) (w_fs w')"
  by (auto simp: EnsureDir_def ext_call_def split: prod.splits option.splits if_splits fsnode.splits
      dest!: MkdirAll_cases)

lemma UpdateChunk_cases:
  assumes "LocalFS_UpdateChunk E d f data c w = (r, w')"
  shows "w_db w' = w_db w \<and> w_redis w' = w_redis w \<and> files_kept {chunk_path d f c} (w_fs w) (w_fs w') \<and>
    (\<forall>p. r = Inr p \<longrightarrow> p = [] \<or> p = chunk_path d f c \<and> w_fs w' p = Some (FFile data))"
proof -
  obtain x w1 where e: "EnsureDir E (path_elems [d, f]) w = (x, w1)"
    by (cases "EnsureDir E (path_elems [d, f]) w")
  note k = EnsureDir_cases [OF e, of "{chunk_path d f c}"]
  have up: "files_kept {chunk_path d f c} (w_fs w) (fs(chunk_path d f c := y))"
    if "files_kept {chunk_path d f c} (w_fs w) fs" for fs y
    using that files_kept_trans files_kept_upd by blast
  from assms e k show ?thesis
    by (auto simp: LocalFS_UpdateChunk_def os_Create_def copy_to_file_def go_simps up
        split: option.splits if_splits)
qed

lemma UpdateChunk_run:
  assumes "no_faults E" and "\<not> list_ex (is_file (w_fs w)) (parents (path_elems [d, f]))"
    and "w_fs w (chunk_path d f c) \<noteq> Some FDir" "chunk_path d f c \<notin> set (parents (path_elems [d, f]))"
  shows "fst (LocalFS_UpdateChunk E d f data c w) = Inr (chunk_path d f c)"
  using assms
  by (simp add: LocalFS_UpdateChunk_def EnsureDir_def os_MkdirAll_def os_Create_def copy_to_file_def ext_call_def
      Let_def split: if_splits)


text \<open>The record and the response for an accepted chunk.\<close>

definition chunk_record :: "FileChunkRequest \<Rightarrow> int \<Rightarrow> int \<Rightarrow> string \<Rightarrow> Timestamp \<Rightarrow> UserFile" where
  "chunk_record req c nxt path st = \<lparr>uf_UserID = cr_UserID req, uf_FileID = cr_FileID req, uf_ChunkID = c,
     uf_ChunkBlobUrl = path, uf_ChunkHash = cr_ChunkDigest req, uf_NextChunkID = Some nxt, uf_Timestamp = st\<rparr>"

definition chunk_answer :: "UserFile \<Rightarrow> int \<Rightarrow> ChunkUploadResponse" where
  "chunk_answer u nxt = \<lparr>cu_ChunkID = uf_ChunkID u, cu_NextChunkID = nxt, cu_ChunkBlobUrl = uf_ChunkBlobUrl u,
     cu_ChunkHash = uf_ChunkHash u, cu_CreatedAt = ts_CreatedAt (uf_Timestamp u),
     cu_UpdatedAt = ts_UpdatedAt (uf_Timestamp u)\<rparr>"

definition store_chunk :: "'r env \<Rightarrow> string \<Rightarrow> FileChunkRequest \<Rightarrow> int \<Rightarrow> int \<Rightarrow> 'r world
    \<Rightarrow> ChunkUploadResponse Response \<times> 'r world" where
  "store_chunk E d req c nxt w =
     (case LocalFS_UpdateChunk E d (cr_FileID req) (cr_Data req) c w of
        (Inl e, w2) \<Rightarrow> (BuildResponse (Some ''internal_server_error:5003:500'') None, w2)
      | (Inr path, w2) \<Rightarrow>
          (case NewTimestamp E w2 of (st, w3) \<Rightarrow>
             (case UserFileRepository_Create E (chunk_record req c nxt path st) w3 of
                (OK u, w4) \<Rightarrow> (BuildResponse None (Some (chunk_answer (chunk_record req c nxt path st) nxt)), w4)
              | (_, w4) \<Rightarrow> (BuildResponse (Some ''save_chunk_failed:5005:500'') None, w4))))"

lemma Create_steps:
  "FileChunkService_Create E d req w =
     (if e_fault E (w_tick w) \<noteq> None \<or> cr_ChunkDigest req \<noteq> hex_EncodeToString (e_sha256 E (cr_Data req))
      then (BuildResponse (Some ''corrupted_file:5001:422'') None, tick w)
      else if snd (Atoi (cr_ChunkID req)) \<noteq> None
      then (BuildResponse (Some ''invalid_file_chunk:5002:422'') None, tick w)
      else if snd (ParseInt (cr_NextChunkID req)) \<noteq> None
      then (BuildResponse (Some ''invalid_file_chunk:5004:422'') None, tick w)
      else store_chunk E d req (fst (Atoi (cr_ChunkID req))) (fst (ParseInt (cr_NextChunkID req))) (tick w))"
  by (cases "Atoi (cr_ChunkID req)"; cases "ParseInt (cr_NextChunkID req)")
    (auto simp: FileChunkService_Create_def ValidateHash_def go_simps store_chunk_def
      chunk_record_def chunk_answer_def split: option.split prod.split sum.split res.split)

lemma UserFile_Create_cases:
  "UserFileRepository_Create E u w = (r, w') \<Longrightarrow>
     w_redis w' = w_redis w \<and> w_fs w' = w_fs w \<and>
     (r = OK () \<and> w_db w' = sql_CreateFileChunk u (w_db w) \<or> (\<exists>e. r = Err e) \<and> w_db w' = w_db w)"
  by (auto simp: UserFileRepository_Create_def ext_call_def split: option.splits)

lemma store_chunk_cases:
  assumes "store_chunk E d req c nxt w = (resp, w')"
  shows "w_redis w' = w_redis w \<and> files_kept {chunk_path d (cr_FileID req) c} (w_fs w) (w_fs w') \<and>
    (\<not> rs_Success resp \<longrightarrow> w_db w' = w_db w) \<and>
    (rs_Success resp \<longrightarrow> (\<exists>path st. w_db w' = sql_CreateFileChunk (chunk_record req c nxt path st) (w_db w) \<and>
       resp = BuildResponse None (Some (chunk_answer (chunk_record req c nxt path st) nxt)) \<and>
       (path = [] \<or> path = chunk_path d (cr_FileID req) c \<and> w_fs w' path = Some (FFile (cr_Data req)))))"
proof -
  obtain x w2 where x: "LocalFS_UpdateChunk E d (cr_FileID req) (cr_Data req) c w = (x, w2)"
    by (cases "LocalFS_UpdateChunk E d (cr_FileID req) (cr_Data req) c w")
  note up = UpdateChunk_cases [OF x]
  show ?thesis
  proof (cases x)
    case (Inl e)
    with assms x up show ?thesis by (auto simp: store_chunk_def)
  next
    case (Inr path)
    obtain st w3 where st: "NewTimestamp E w2 = (st, w3)" by (cases "NewTimestamp E w2")
    then have fr: "w_db w3 = w_db w2" "w_redis w3 = w_redis w2" "w_fs w3 = w_fs w2"
      by (auto simp: NewTimestamp_def Now_def)
    obtain y w4 where y: "UserFileRepository_Create E (chunk_record req c nxt path st) w3 = (y, w4)"
      by (cases "UserFileRepository_Create E (chunk_record req c nxt path st) w3")
    note cr = UserFile_Create_cases [OF y]
    show ?thesis
    proof (cases y)
      case (OK u)
      with assms x Inr st y have "resp = BuildResponse None (Some (chunk_answer (chunk_record req c nxt path st) nxt))"
        "w' = w4" by (simp_all add: store_chunk_def)
      moreover have "w_db w4 = sql_CreateFileChunk (chunk_record req c nxt path st) (w_db w)"
        using cr OK up fr by simp
      ultimately show ?thesis using up cr fr Inr by auto
    qed (use assms x Inr st y cr up fr in \<open>auto simp: store_chunk_def\<close>)
  qed
qed


text \<open>
  C18.  Whatever calls fail and whatever the answer is, uploading a chunk touches no file but its own blob,
  the path of the numbered chunk in the directory of its file (directories aside), and adds at most one
  chunk record.  A success means that the digest is the SHA-256 of the data in hex and both chunk
  numbers are integers, and adds one record with them for the file and user of the request, whose url is
  either empty or the chunk's path, where the data is stored.  An error leaves the tables alone, and a
  chunk whose digest does not match or whose numbers are not integers leaves the file system alone too.
\<close>

theorem FileChunkService_Create_safe:
  assumes "FileChunkService_Create E d req w = (resp, w')"
    and path: "path = chunk_path d (cr_FileID req) (fst (Atoi (cr_ChunkID req)))"
  shows "w_redis w' = w_redis w \<and> files_kept {path} (w_fs w) (w_fs w') \<and>
    (rs_Success resp \<longrightarrow> cr_ChunkDigest req = hex_EncodeToString (e_sha256 E (cr_Data req)) \<and>
       (\<exists>c nxt url st. Atoi (cr_ChunkID req) = (c, None) \<and> ParseInt (cr_NextChunkID req) = (nxt, None) \<and>
          w_db w' = sql_CreateFileChunk (chunk_record req c nxt url st) (w_db w) \<and>
          resp = BuildResponse None (Some (chunk_answer (chunk_record req c nxt url st) nxt)) \<and>
          (url = [] \<or> url = path \<and> w_fs w' path = Some (FFile (cr_Data req))))) \<and>
    (\<not> rs_Success resp \<longrightarrow> w_db w' = w_db w) \<and>
    (cr_ChunkDigest req \<noteq> hex_EncodeToString (e_sha256 E (cr_Data req)) \<or> snd (Atoi (cr_ChunkID req)) \<noteq> None \<or>
       snd (ParseInt (cr_NextChunkID req)) \<noteq> None \<longrightarrow> \<not> rs_Success resp \<and> w_fs w' = w_fs w \<and> w_db w' = w_db w) \<and>
    (cr_ChunkDigest req \<noteq> hex_EncodeToString (e_sha256 E (cr_Data req)) \<longrightarrow>
       resp = BuildResponse (Some ''corrupted_file:5001:422'') None)"
proof -
  obtain c ce where c: "Atoi (cr_ChunkID req) = (c, ce)" by (cases "Atoi (cr_ChunkID req)")
  obtain nxt ne where n: "ParseInt (cr_NextChunkID req) = (nxt, ne)" by (cases "ParseInt (cr_NextChunkID req)")
  show ?thesis
  proof (cases "e_fault E (w_tick w) \<noteq> None \<or> cr_ChunkDigest req \<noteq> hex_EncodeToString (e_sha256 E (cr_Data req)) \<or>
      ce \<noteq> None \<or> ne \<noteq> None")
    case True
    with assms c n have "w' = tick w \<and> \<not> rs_Success resp \<and>
        (cr_ChunkDigest req \<noteq> hex_EncodeToString (e_sha256 E (cr_Data req)) \<longrightarrow>
           resp = BuildResponse (Some ''corrupted_file:5001:422'') None)"
      by (auto simp: Create_steps split: if_splits)
    then show ?thesis by simp
  next
    case False
    with assms c n have "store_chunk E d req c nxt (tick w) = (resp, w')" by (simp add: Create_steps)
    from store_chunk_cases [OF this] False c n path show ?thesis by auto
  qed
qed

definition sample_chunk :: FileChunkRequest where
  "sample_chunk = \<lparr>cr_ChunkID = ''0'', cr_NextChunkID = ''1'', cr_ChunkDigest = ''6869'', cr_ChunkSize = 2,
     cr_FileDigest = [], cr_Data = ''hi'', cr_FileID = ''B'', cr_UserID = ''U1''\<rparr>"

theorem FileChunkService_Create_safe_witness:
  "\<exists>resp w'. FileChunkService_Create sample_env ''/data'' sample_chunk sample_world = (resp, w') \<and>
     rs_Success resp \<and> length (user_files (w_db w')) = Suc (length (user_files sample_db)) \<and>
     uf_FileID (last (user_files (w_db w'))) = ''B''"
proof -
  let ?run = "FileChunkService_Create sample_env ''/data'' sample_chunk sample_world"
  have ok: "rs_Success (fst ?run)" by code_simp
  obtain resp w' where run: "?run = (resp, w')" by (cases ?run)
  with ok have "rs_Success resp" by simp
  with FileChunkService_Create_safe [OF run refl] obtain c nxt url st where
    "w_db w' = sql_CreateFileChunk (chunk_record sample_chunk c nxt url st) (w_db sample_world)" by blast
  then have "user_files (w_db w') = user_files sample_db @ [chunk_record sample_chunk c nxt url st]"
    by (simp add: sample_world_def)
  with run \<open>rs_Success resp\<close> show ?thesis by (simp add: chunk_record_def sample_chunk_def)
qed

text \<open>
  When no call fails and no file stands where a directory is needed, a chunk is accepted
  exactly if its digest matches and its numbers are integers; then its data is stored under its
  path and recorded with that path.
\<close>

theorem FileChunkService_Create_complete:
  assumes "no_faults E" "stmts_loaded E"
    and "\<not> list_ex (is_file (w_fs w)) (parents (path_elems [d, cr_FileID req]))"
    and "\<And>c. w_fs w (chunk_path d (cr_FileID req) c) \<noteq> Some FDir"
    and "\<And>c. chunk_path d (cr_FileID req) c \<notin> set (parents (path_elems [d, cr_FileID req]))"
    and "FileChunkService_Create E d req w = (resp, w')"
  shows "if cr_ChunkDigest req = hex_EncodeToString (e_sha256 E (cr_Data req)) \<and>
        snd (Atoi (cr_ChunkID req)) = None \<and> snd (ParseInt (cr_NextChunkID req)) = None
    then \<exists>st. let c = fst (Atoi (cr_ChunkID req)); path = chunk_path d (cr_FileID req) c;
        u = chunk_record req c (fst (ParseInt (cr_NextChunkID req))) path st
      in rs_Success resp \<and> w_db w' = sql_CreateFileChunk u (w_db w) \<and> w_fs w' path = Some (FFile (cr_Data req))
    else \<not> rs_Success resp \<and> w_db w' = w_db w \<and> w_fs w' = w_fs w"
proof (cases "cr_ChunkDigest req = hex_EncodeToString (e_sha256 E (cr_Data req)) \<and>
    snd (Atoi (cr_ChunkID req)) = None \<and> snd (ParseInt (cr_NextChunkID req)) = None")
  case True
  let ?c = "fst (Atoi (cr_ChunkID req))" and ?n = "fst (ParseInt (cr_NextChunkID req))"
  let ?p = "chunk_path d (cr_FileID req) ?c"
  obtain w2 where up: "LocalFS_UpdateChunk E d (cr_FileID req) (cr_Data req) ?c (tick w) = (Inr ?p, w2)"
    using UpdateChunk_run [of E "tick w" d "cr_FileID req" ?c "cr_Data req"] assms(1,3-5)
    by (cases "LocalFS_UpdateChunk E d (cr_FileID req) (cr_Data req) ?c (tick w)") simp
  have p: "?p \<noteq> []" by (simp add: chunk_path_def filepath_Join_def path_of_def)
  obtain st w3 where st: "NewTimestamp E w2 = (st, w3)" by (cases "NewTimestamp E w2")
  have "e_chunkQ E CreateFileChunkStmt \<noteq> None" using assms(2) by (rule stmts_loadedD)
  then obtain w4 where y: "UserFileRepository_Create E (chunk_record req ?c ?n ?p st) w3 = (OK (), w4)"
    using assms(1) by (auto simp: UserFileRepository_Create_def ext_call_def)
  have fr: "w_db w3 = w_db w2" "w_fs w3 = w_fs w2" using st by (auto simp: NewTimestamp_def Now_def)
  from assms(1,6) True have "store_chunk E d req ?c ?n (tick w) = (resp, w')" by (simp add: Create_steps)
  then have "rs_Success resp \<and> w' = w4" using up st y by (auto simp: store_chunk_def)
  moreover have "w_db w4 = sql_CreateFileChunk (chunk_record req ?c ?n ?p st) (w_db w) \<and>
      w_fs w4 ?p = Some (FFile (cr_Data req))"
    using UserFile_Create_cases [OF y] fr UpdateChunk_cases [OF up] p by auto
  ultimately show ?thesis unfolding if_P [OF True] Let_def by blast
next
  case False
  with assms(6) have "\<not> rs_Success resp \<and> w' = tick w" by (auto simp: Create_steps split: if_splits)
  then show ?thesis unfolding if_not_P [OF False] by simp
qed


lemma sample_paths:
  shows "chunk_path ''/data'' ''B'' c = ''/data/B/'' @ fmt_d c"
    and "\<not> list_ex (is_file (w_fs sample_world)) (parents (path_elems [''/data'', ''B'']))"
    and "w_fs sample_world p \<noteq> Some FDir"
    and "chunk_path ''/data'' ''B'' c \<notin> set (parents (path_elems [''/data'', ''B'']))"
proof -
  have "path_elems [''/data'', ''B'', fmt_d c] = [''data'', ''B'', fmt_d c]"
    using path_elems_snoc [of "[''B'', fmt_d c]" "''/data''"] plain_fmt_d [of c]
    by (simp add: plain_elem_def path_elems_def)
  then show path: "chunk_path ''/data'' ''B'' c = ''/data/B/'' @ fmt_d c"
    by (simp add: chunk_path_def filepath_Join_def path_of_def)
  show "\<not> list_ex (is_file (w_fs sample_world)) (parents (path_elems [''/data'', ''B'']))"
    by (simp add: sample_world_def is_file_def list_ex_iff)
  show "w_fs sample_world p \<noteq> Some FDir" by (simp add: sample_world_def)
  have "parents (path_elems [''/data'', ''B'']) = [''/data'', ''/data/B'']"
    by (simp add: path_elems_def parents_def path_of_def upt_rec)
  then show "chunk_path ''/data'' ''B'' c \<notin> set (parents (path_elems [''/data'', ''B'']))" by (simp add: path)
qed

lemma sample_chunk_ok:
  "cr_FileID sample_chunk = ''B''" "cr_Data sample_chunk = ''hi''"
  "cr_ChunkDigest sample_chunk = hex_EncodeToString (e_sha256 sample_env (cr_Data sample_chunk))"
  "Atoi (cr_ChunkID sample_chunk) = (0, None)" "ParseInt (cr_NextChunkID sample_chunk) = (1, None)" "fmt_d 0 = ''0''"
  by code_simp+

theorem FileChunkService_Create_complete_witness:
  "\<exists>resp w'. FileChunkService_Create sample_env ''/data'' sample_chunk sample_world = (resp, w') \<and>
     rs_Success resp \<and> w_fs w' ''/data/B/0'' = Some (FFile ''hi'')"
proof -
  obtain resp w' where run: "FileChunkService_Create sample_env ''/data'' sample_chunk sample_world = (resp, w')"
    by fastforce
  from FileChunkService_Create_complete [OF sample_no_faults sample_stmts _ _ _ run] run show ?thesis
    using sample_chunk_ok sample_paths by (simp add: Let_def) 
qed

text \<open>
  C38.  When writing the data fails after the file was created, the upload is nevertheless answered
  as a success and a chunk record with an empty url is stored, whatever part of the data was
  written.
\<close>

theorem FileChunkService_lost_write:
  assumes "\<And>n. e_fault E n = (if n = w_tick w + 3 then Some e else None)" and "stmts_loaded E"
    and "\<not> list_ex (is_file (w_fs w)) (parents (path_elems [d, cr_FileID req]))"
    and "\<And>c. w_fs w (chunk_path d (cr_FileID req) c) \<noteq> Some FDir"
    and "\<And>c. chunk_path d (cr_FileID req) c \<notin> set (parents (path_elems [d, cr_FileID req]))"
    and "cr_ChunkDigest req = hex_EncodeToString (e_sha256 E (cr_Data req))"
    and "Atoi (cr_ChunkID req) = (c, None)" "ParseInt (cr_NextChunkID req) = (nxt, None)"
    and "FileChunkService_Create E d req w = (resp, w')"
  shows "\<exists>st. rs_Success resp \<and> w_db w' = sql_CreateFileChunk (chunk_record req c nxt [] st) (w_db w) \<and>
    w_fs w' (chunk_path d (cr_FileID req) c) = Some (FFile (take (e_written E (w_tick w + 3)) (cr_Data req)))"
proof -
  let ?p = "chunk_path d (cr_FileID req) c"
  have f: "e_fault E (w_tick w) = None" "e_fault E (Suc (w_tick w)) = None" "e_fault E (Suc (Suc (w_tick w))) = None"
    "e_fault E (Suc (Suc (Suc (w_tick w)))) = Some e" "e_fault E (Suc (Suc (Suc (Suc (Suc (w_tick w)))))) = None"
    using assms(1) by simp_all
  obtain w2 where up: "LocalFS_UpdateChunk E d (cr_FileID req) (cr_Data req) c (tick w) = (Inr [], w2)"
    and w2: "w_db w2 = w_db w" "w_tick w2 = Suc (Suc (Suc (Suc (w_tick w))))"
      "w_fs w2 ?p = Some (FFile (take (e_written E (w_tick w + 3)) (cr_Data req)))"
    using assms(3-5) f
    by (simp add: LocalFS_UpdateChunk_def EnsureDir_def os_MkdirAll_def os_Create_def copy_to_file_def ext_call_def
        Let_def numeral_3_eq_3)
  obtain st w3 where st: "NewTimestamp E w2 = (st, w3)" by (cases "NewTimestamp E w2")
  then have w3: "w_db w3 = w_db w2" "w_fs w3 = w_fs w2" "w_tick w3 = Suc (w_tick w2)"
    by (auto simp: NewTimestamp_def Now_def)
  have "e_chunkQ E CreateFileChunkStmt \<noteq> None" using assms(2) by (rule stmts_loadedD)
  then obtain w4 where y: "UserFileRepository_Create E (chunk_record req c nxt [] st) w3 = (OK (), w4)"
    using f(5) by (auto simp: UserFileRepository_Create_def ext_call_def w3 w2)
  from assms(6-9) f(1) have "store_chunk E d req c nxt (tick w) = (resp, w')" by (simp add: Create_steps)
  then have "rs_Success resp \<and> w' = w4" using up st y by (auto simp: store_chunk_def)
  with UserFile_Create_cases [OF y] w2 w3 show ?thesis by auto
qed


definition full_env :: "mem_redis env" where
  "full_env = sample_env\<lparr>e_fault := (\<lambda>n. if n = 3 then Some ''no space left on device'' else None)\<rparr>"

theorem FileChunkService_lost_write_witness:
  "\<exists>resp w' st. FileChunkService_Create full_env ''/data'' sample_chunk sample_world = (resp, w') \<and>
     rs_Success resp \<and> w_fs w' ''/data/B/0'' = Some (FFile []) \<and>
     w_db w' = sql_CreateFileChunk (chunk_record sample_chunk 0 1 [] st) sample_db"
proof -
  obtain resp w' where run: "FileChunkService_Create full_env ''/data'' sample_chunk sample_world = (resp, w')"
    by fastforce
  have f: "e_fault full_env n = (if n = w_tick sample_world + 3 then Some ''no space left on device'' else None)" for n
    by (simp add: full_env_def sample_world_def)
  have e: "stmts_loaded full_env" "e_sha256 full_env = e_sha256 sample_env" "e_written full_env n = 0" for n
    using sample_stmts by (simp_all add: full_env_def stmts_loaded_def sample_env_def)
  from FileChunkService_lost_write [OF f e(1) _ _ _ _ sample_chunk_ok(4,5) run] run show ?thesis
    using sample_chunk_ok(1-3,6) sample_paths by (simp add: e(2,3)) (auto simp: sample_world_def)
qed

end
