(* ===== verification/Supervisor.thy ===== *)
theory Supervisor
  imports FilesRepo Queuer
begin

text \<open>
  The reconciliation worker: \<open>notifiers.MetadataUpdateStatus\<close> (\<open>core/notifiers/metadata.go\<close>),
  the chunk functions and \<open>MetadataExecutor\<close> of \<open>core/supervisors/metadata.changelog.go\<close>, and
  \<open>ManualChunkMetadataReconciler\<close> (\<open>core/workers/metadata.manualreconcile.go\<close>).  When the upload
  of a new version ends, the worker copies the chunk records the client did not send again from
  the previous version, marks the new version current and ends the previous one.
\<close>

subsection \<open>Chunk functions\<close>

fun rest_loop :: "FileInfoResponse \<Rightarrow> FilesWithChunks gomap \<Rightarrow> FilesWithChunks gomap \<Rightarrow> FilesWithChunks gomap" where
  "rest_loop thisFile [] matchedChunks = matchedChunks"
| "rest_loop thisFile ((chunkIDstr, chunk) # rest) matchedChunks =
     (if map_of (fi_Chunks thisFile) chunkIDstr \<noteq> None then rest_loop thisFile rest matchedChunks
      else rest_loop thisFile rest (AList.update chunkIDstr chunk matchedChunks))"

definition RestOfChunks :: "FileInfoResponse \<Rightarrow> FileInfoResponse \<Rightarrow> FilesWithChunks gomap" where
  "RestOfChunks thisFile prevFile = rest_loop thisFile (fi_Chunks prevFile) []"

text \<open>\<open>ReconstructChunks\<close> writes into the map of \<open>thisFile\<close> and returns the same pointer.\<close>

fun assign_all :: "FilesWithChunks gomap \<Rightarrow> FilesWithChunks gomap \<Rightarrow> FilesWithChunks gomap" where
  "assign_all [] m = m"
| "assign_all ((k, chunk) # missing) m = assign_all missing (AList.update k chunk m)"

definition ReconstructChunks :: "FileInfoResponse \<Rightarrow> FileInfoResponse \<Rightarrow> FileInfoResponse" where
  "ReconstructChunks thisFile prevFile =
     thisFile\<lparr>fi_Chunks := assign_all (RestOfChunks thisFile prevFile) (fi_Chunks thisFile)\<rparr>"

fun prev_chain :: "FilesWithChunks gomap \<Rightarrow> (string \<rightharpoonup> string) \<Rightarrow> (string \<rightharpoonup> string) option" where
  "prev_chain [] chain = Some chain"
| "prev_chain ((k, chunk) # rest) chain =
     (case fwc_NextChunkID chunk of
        None \<Rightarrow> None
      | Some n \<Rightarrow> prev_chain rest (chain(k \<mapsto> fmt_d n)))"

fun chain_matches :: "(string \<rightharpoonup> string) \<Rightarrow> FilesWithChunks gomap \<Rightarrow> bool" where
  "chain_matches chain [] = True"
| "chain_matches chain ((k, chunk) # rest) =
     (case fwc_NextChunkID chunk of
        None \<Rightarrow> False
      | Some n \<Rightarrow> (if (case chain k of None \<Rightarrow> [] | Some s \<Rightarrow> s) \<noteq> fmt_d n then False
                   else chain_matches chain rest))"

definition Validate :: "FileInfoResponse \<Rightarrow> FileInfoResponse \<Rightarrow> bool" where
  "Validate reconstructedChunk prevChunk =
     (if fi_NChunks prevChunk \<noteq> fi_NChunks reconstructedChunk then False
      else case prev_chain (fi_Chunks prevChunk) Map.empty of
        None \<Rightarrow> False
      | Some chain \<Rightarrow> chain_matches chain (fi_Chunks reconstructedChunk))"

subsection \<open>ExecuteEach\<close>

text \<open>The chunk records to create, one per entry of the map in its iteration order.\<close>

fun filler_rows :: "'r env \<Rightarrow> FileInfoResponse \<Rightarrow> FilesWithChunks gomap \<Rightarrow> 'r world \<Rightarrow> UserFile list \<times> 'r world" where
  "filler_rows E thisFile [] w = ([], w)"
| "filler_rows E thisFile ((k, chunk) # rest) w =
     (case NewTimestamp E w of (stamp, w1) \<Rightarrow>
      (case filler_rows E thisFile rest w1 of (ufs, w2) \<Rightarrow>
         (\<lparr>uf_UserID = fi_UserID thisFile, uf_FileID = fi_ID thisFile, uf_ChunkID = fwc_ChunkID chunk,
           uf_ChunkBlobUrl = fwc_ChunkBlobUrl chunk, uf_ChunkHash = fwc_ChunkHash chunk,
           uf_NextChunkID = fwc_NextChunkID chunk, uf_Timestamp = stamp\<rparr> # ufs, w2)))"

text \<open>The part of \<open>ExecuteEach\<close> (and of the manual reconciler) after the two files are read:
  \<open>upd\<close> is the call of \<open>repo.Update\<close> that ends it.  The result of \<open>Validate\<close> is only logged.\<close>

definition reconcile_chunks ::
    "'r env \<Rightarrow> FileInfoResponse \<Rightarrow> FileInfoResponse \<Rightarrow> (string \<Rightarrow> 'r world \<Rightarrow> unit res \<times> 'r world)
      \<Rightarrow> 'r world \<Rightarrow> unit res \<times> 'r world" where
  "reconcile_chunks E thisFile prevFile upd w =
     (let fillerChunks = (if fi_NChunks thisFile = fi_NChunks prevFile
                          then RestOfChunks thisFile prevFile else [])
      in if fillerChunks = [] then upd StatusCompleted w
         else case filler_rows E thisFile (e_range E (w_tick w) fillerChunks) w of (chunks, w1) \<Rightarrow>
           (case UserFileRepository_CreateBatch E chunks w1 of
              (OK u, w2) \<Rightarrow> upd StatusCompleted w2
            | (Err e, w2) \<Rightarrow> upd StatusFailed w2
            | (Panic p, w2) \<Rightarrow> (Panic p, w2)))"

definition reconcile ::
    "'r env \<Rightarrow> string \<Rightarrow> string \<Rightarrow> (string \<Rightarrow> 'r world \<Rightarrow> unit res \<times> 'r world) \<Rightarrow> 'r world
      \<Rightarrow> unit res \<times> 'r world" where
  "reconcile E thisID prevID upd w =
     (case MetadataRepository_SelectFiles E [thisID, prevID] w of
        (Err e, w1) \<Rightarrow> (Err e, w1)
      | (Panic p, w1) \<Rightarrow> (Panic p, w1)
      | (OK filesWithChunks, w1) \<Rightarrow>
          (case BuildFilesInfoResponse (map Some filesWithChunks) of
             Err e \<Rightarrow> (Err e, w1)
           | Panic p \<Rightarrow> (Panic p, w1)
           | OK resps \<Rightarrow>
               (if length resps < 2 then (Err ''file_merge_conflict'', w1)
                else let (thisFile, prevFile) =
                       (if fi_ID (resps ! 0) = thisID then (resps ! 0, resps ! 1)
                        else (resps ! 1, resps ! 0))
                     in reconcile_chunks E thisFile prevFile upd w1)))"

definition ExecuteEach :: "'r env \<Rightarrow> CacheMetadata \<Rightarrow> 'r world \<Rightarrow> unit res \<times> 'r world" where
  "ExecuteEach E cachedData w =
     (case cm_PrevID cachedData of
        None \<Rightarrow> MetadataRepository_Update E None (cm_ID cachedData) StatusCompleted w
      | Some prevID \<Rightarrow>
          reconcile E (cm_ID cachedData) prevID
            (MetadataRepository_Update E (Some prevID) (cm_ID cachedData)) w)"

text \<open>The manual reconciler works on a fixed pair of ids.  Its calls of \<open>repo.Update\<close> pass the id
  of the new file as the previous one and the other way round.\<close>

definition ManualChunkMetadataReconciler ::
    "'r env \<Rightarrow> string \<Rightarrow> string \<Rightarrow> 'r world \<Rightarrow> unit res \<times> 'r world" where
  "ManualChunkMetadataReconciler E id0 id1 w =
     reconcile E id0 id1 (MetadataRepository_Update E (Some id0) id1) w"

subsection \<open>Notify and Execute\<close>

text \<open>\<open>Notify\<close> returns the payloads it failed to enqueue; none stands for a nil error.\<close>

fun notify_loop :: "'r env \<Rightarrow> (Payload \<times> string) option list \<Rightarrow> Payload list \<Rightarrow> 'r world \<Rightarrow> Payload list \<times> 'r world" where
  "notify_loop E [] failed w = (failed, w)"
| "notify_loop E (None # payloads) failed w = notify_loop E payloads failed w"
| "notify_loop E (Some (payload, userID) # payloads) failed w =
     (case RedisQ_EnqueueMsg (e_redis E) MetadataUpdateClientsNotifierQueue userID payload (w_redis w) of
        (Some e, r) \<Rightarrow> notify_loop E payloads (failed @ [payload]) (w\<lparr>w_redis := r\<rparr>)
      | (None, r) \<Rightarrow> notify_loop E payloads failed (w\<lparr>w_redis := r\<rparr>))"

definition event_payload :: "'r env \<Rightarrow> MetadataUpdateStatusEvent \<Rightarrow> (Payload \<times> string) option" where
  "event_payload E data =
     (case e_gob_event E data of
        Inl e \<Rightarrow> None
      | Inr b \<Rightarrow> Some (\<lparr>pl_Message = b, pl_Key = [], pl_TTL = 0\<rparr>, ev_UserID data))"

definition Notify :: "'r env \<Rightarrow> MetadataUpdateStatusEvent list \<Rightarrow> 'r world \<Rightarrow> Payload list \<times> 'r world" where
  "Notify E events w = notify_loop E (rho_Map events (\<lambda>data _. event_payload E data)) [] w"

datatype exec_result = EOk | EErr goerr | EPartial "Payload list" | EPanic gopanic

definition success_event :: "CacheMetadata \<Rightarrow> MetadataUpdateStatusEvent" where
  "success_event c = \<lparr>ev_FileID = cm_ID c, ev_UserID = cm_UserID c, ev_PrevFileID = cm_PrevID c,
     ev_DeviceID = cm_DeviceID c\<rparr>"

fun execute_loop :: "'r env \<Rightarrow> Payload option list \<Rightarrow> MetadataUpdateStatusEvent list \<Rightarrow> 'r world
    \<Rightarrow> exec_result \<times> 'r world" where
  "execute_loop E [] events w =
     (case Notify E events w of (failed, w1) \<Rightarrow> (if failed = [] then EOk else EPartial failed, w1))"
| "execute_loop E (None # payloads) events w = execute_loop E payloads events w"
| "execute_loop E (Some payload # payloads) events w =
     (case e_ungob_cache E (pl_Message payload) of
        Inl e \<Rightarrow> (EErr e, w)
      | Inr cachedData \<Rightarrow>
          (case ExecuteEach E cachedData w of
             (Err e, w1) \<Rightarrow> (EErr e, w1)
           | (Panic p, w1) \<Rightarrow> (EPanic p, w1)
           | (OK u, w1) \<Rightarrow> execute_loop E payloads (events @ [success_event cachedData]) w1))"

definition MetadataExecutor_Execute :: "'r env \<Rightarrow> Payload option list \<Rightarrow> 'r world \<Rightarrow> exec_result \<times> 'r world" where
  "MetadataExecutor_Execute E payloads w = execute_loop E payloads [] w"

end
