(* ===== verification/Reconcile.thy ===== *)
theory Reconcile
  imports Supervisor Sample
begin

text \<open>
  What the reconciliation worker does: the chunk functions against their map-level reading, the
  effect of \<open>ExecuteEach\<close> on the tables, and the effect of the swapped arguments in the manual
  reconciler.
\<close>

subsection \<open>The chunk functions on maps\<close>

lemma update_fresh: "k \<notin> fst ` set m \<Longrightarrow> AList.update k v m = m @ [(k, v)]"
  by (induction m) auto

lemma rest_loop_filter:
  "distinct (map fst (acc @ m)) \<Longrightarrow>
     rest_loop f m acc = acc @ filter (\<lambda>p. map_of (fi_Chunks f) (fst p) = None) m"
proof (induction m arbitrary: acc)
  case (Cons p m)
  obtain k c where p: "p = (k, c)" by (cases p)
  show ?case
  proof (cases "map_of (fi_Chunks f) k = None")
    case True
    from Cons.prems p have fresh: "k \<notin> fst ` set acc" by auto
    have "distinct (map fst ((acc @ [(k, c)]) @ m))" using Cons.prems p by simp
    from Cons.IH [OF this] True p fresh show ?thesis by (simp add: update_fresh)
  next
    case False
    with Cons.IH [of acc] Cons.prems p show ?thesis by auto
  qed
qed simp

lemma RestOfChunks_filter:
  "map_wf (fi_Chunks prev) \<Longrightarrow>
     RestOfChunks this prev = filter (\<lambda>p. map_of (fi_Chunks this) (fst p) = None) (fi_Chunks prev)"
  by (simp add: RestOfChunks_def rest_loop_filter)

lemma assign_all_map: "map_wf m \<Longrightarrow> map_of (assign_all m m0) = map_of m0 ++ map_of m"
proof (induction m arbitrary: m0)
  case (Cons p m)
  obtain k c where p: "p = (k, c)" by (cases p)
  with Cons.prems have wf: "map_wf m" and k: "k \<notin> fst ` set m" by auto
  from k have "map_of m k = None" by (simp add: map_of_eq_None_iff)
  with Cons.IH [OF wf] p show ?case
    by (auto simp: update_conv' map_add_def fun_eq_iff split: option.splits)
qed simp

lemma assign_all_wf: "map_wf m0 \<Longrightarrow> map_wf (assign_all m m0)"
  by (induction m m0 rule: assign_all.induct) (simp_all add: map_wf_update)

lemma RestOfChunks_map:
  assumes "map_wf (fi_Chunks prev)"
  shows "map_of (RestOfChunks this prev) k = (if map_of (fi_Chunks this) k = None then map_of (fi_Chunks prev) k else None)"
  unfolding RestOfChunks_filter [OF assms] by (rule map_of_filter_key)

lemma RestOfChunks_wf: "map_wf (fi_Chunks prev) \<Longrightarrow> map_wf (RestOfChunks this prev)"
  by (simp add: RestOfChunks_filter map_wf_filter)

definition chain_put :: "string \<times> FilesWithChunks \<Rightarrow> (string \<rightharpoonup> string) \<Rightarrow> (string \<rightharpoonup> string)" where
  "chain_put p chain = chain(fst p \<mapsto> fmt_d (the (fwc_NextChunkID (snd p))))"

lemma prev_chain_Some:
  "prev_chain m chain =
     (if \<forall>p \<in> set m. fwc_NextChunkID (snd p) \<noteq> None then Some (fold chain_put m chain) else None)"
proof (induction m arbitrary: chain)
  case (Cons p m)
  obtain k c where p: "p = (k, c)" by (cases p)
  show ?case
  proof (cases "fwc_NextChunkID c")
    case (Some n)
    with p have "prev_chain (p # m) chain = prev_chain m (chain_put p chain)"
      by (simp add: chain_put_def)
    with Cons.IH [of "chain_put p chain"] Some p show ?thesis by simp
  qed (simp add: p)
qed simp

lemma fold_chain_put:
  "map_wf m \<Longrightarrow> fold chain_put m chain k =
     (case map_of m k of None \<Rightarrow> chain k | Some c \<Rightarrow> Some (fmt_d (the (fwc_NextChunkID c))))"
proof (induction m arbitrary: chain)
  case (Cons p m)
  then have "map_of m (fst p) = None" by (simp add: map_of_eq_None_iff)
  with Cons show ?case by (cases p) (auto simp: chain_put_def split: option.splits)
qed simp

lemma chain_matches_iff:
  "chain_matches chain m \<longleftrightarrow>
     (\<forall>p \<in> set m. \<exists>n. fwc_NextChunkID (snd p) = Some n \<and> chain (fst p) = Some (fmt_d n))"
proof (induction m)
  case (Cons p m)
  obtain k c where "p = (k, c)" by (cases p)
  with Cons.IH show ?case by (cases "fwc_NextChunkID c"; cases "chain k") auto
qed simp

subsection \<open>Reading the two files\<close>

lemma group_of_chunk_None:
  "map_of (fi_Chunks (group_of rows i)) k = None \<longleftrightarrow> k \<notin> version_str ` set (rows_of rows i)"
  by (auto simp: group_of_chunk find_None_iff)

lemma group_of_chunk_Some:
  "map_of (fi_Chunks (group_of rows i)) k = Some r \<Longrightarrow> r \<in> set (rows_of rows i) \<and> version_str r = k"
  by (auto simp: group_of_chunk find_Some_iff rev_nth)

lemma group_of_ID: "i \<in> fwc_ID ` set rows \<Longrightarrow> fi_ID (group_of rows i) = i"
  using rows_of_hd [of i rows] by (simp add: group_of_def file_info_def)

lemma group_files_pair:
  assumes "fwc_ID ` set rows = {i, p}" and "i \<noteq> p"
  shows "length (group_files rows) = 2"
    and "(if fi_ID (group_files rows ! 0) = i then (group_files rows ! 0, group_files rows ! 1)
          else (group_files rows ! 1, group_files rows ! 0)) = (group_of rows i, group_of rows p)"
proof -
  have set: "set (file_ids rows) = {i, p}" using assms(1) by simp
  have "card (set (file_ids rows)) = 2" using assms(2) unfolding set by simp
  then have len: "length (file_ids rows) = 2" using distinct_card [OF distinct_file_ids, of rows] by linarith
  then show "length (group_files rows) = 2" by (simp add: group_files_def)
  from len obtain a b where ab: "file_ids rows = [a, b]"
    by (auto simp: length_Suc_conv numeral_2_eq_2)
  have ids: "fi_ID (group_of rows a) = a"
    using group_of_ID [of a rows] ab set_file_ids [of rows] by auto
  have "(a = i \<and> b = p) \<or> (a = p \<and> b = i)"
    using set ab assms(2) distinct_file_ids [of rows] by auto
  then show "(if fi_ID (group_files rows ! 0) = i then (group_files rows ! 0, group_files rows ! 1)
      else (group_files rows ! 1, group_files rows ! 0)) = (group_of rows i, group_of rows p)"
    using assms(2) ids by (auto simp: group_files_def ab)
qed

lemma filler_rows_frame:
  "filler_rows E f m w = (ufs, w') \<Longrightarrow> w_db w' = w_db w \<and> w_redis w' = w_redis w \<and> w_fs w' = w_fs w"
  by (induction m arbitrary: ufs w) (auto simp: NewTimestamp_def Now_def split: prod.splits)

definition filler_of :: "FileInfoResponse \<Rightarrow> FilesWithChunks \<Rightarrow> UserFile \<Rightarrow> bool" where
  "filler_of f c u \<longleftrightarrow> uf_UserID u = fi_UserID f \<and> uf_FileID u = fi_ID f \<and> uf_ChunkID u = fwc_ChunkID c \<and>
     uf_ChunkBlobUrl u = fwc_ChunkBlobUrl c \<and> uf_ChunkHash u = fwc_ChunkHash c \<and>
     uf_NextChunkID u = fwc_NextChunkID c"

lemma filler_rows_all2:
  "filler_rows E f m w = (ufs, w') \<Longrightarrow> list_all2 (\<lambda>p u. filler_of f (snd p) u) m ufs"
  by (induction m arbitrary: ufs w) (auto simp: filler_of_def split: prod.splits)

subsection \<open>Filling the missing chunks\<close>

definition chunk_ids :: "string \<Rightarrow> db \<Rightarrow> int set" where
  "chunk_ids i d = uf_ChunkID ` set (file_chunks i d)"

definition same_chunk :: "UserFile \<Rightarrow> UserFile \<Rightarrow> bool" where
  "same_chunk u v \<longleftrightarrow> uf_ChunkID u = uf_ChunkID v \<and> uf_ChunkBlobUrl u = uf_ChunkBlobUrl v \<and>
     uf_ChunkHash u = uf_ChunkHash v \<and> uf_NextChunkID u = uf_NextChunkID v"

text \<open>\<open>ufs\<close> completes the chunks of file \<open>i\<close> from file \<open>p\<close>: one record for each chunk that only
  \<open>p\<close> has, copied from a record of \<open>p\<close>.\<close>

definition fills :: "db \<Rightarrow> string \<Rightarrow> string \<Rightarrow> UserFile list \<Rightarrow> bool" where
  "fills d i p ufs \<longleftrightarrow> distinct (map uf_ChunkID ufs) \<and>
     uf_ChunkID ` set ufs = chunk_ids p d - chunk_ids i d \<and>
     (\<forall>u \<in> set ufs. uf_FileID u = i \<and> (\<exists>v \<in> set (file_chunks p d). same_chunk u v))"

text \<open>The rows \<open>SelectFiles\<close> returns for two files of well-formed tables.\<close>

definition selected :: "'r env \<Rightarrow> nat \<Rightarrow> string list \<Rightarrow> db \<Rightarrow> FilesWithChunks list" where
  "selected E n ids d = map scan_select (e_order E n (sql_join (\<lambda>fm. fm_ID fm \<in> set ids) d))"

lemma SelectFiles_run:
  "no_faults E \<Longrightarrow> stmts_loaded E \<Longrightarrow> ids \<noteq> [] \<Longrightarrow>
     MetadataRepository_SelectFiles E ids w = (OK (selected E (w_tick w) ids (w_db w)), tick w)"
  using stmts_loadedD(5) [of E]
  by (auto simp: MetadataRepository_SelectFiles_def selected_def ext_call_def)

lemma selected_set:
  "sql_order_ok E \<Longrightarrow> set (selected E n ids d) = scan_select ` set (sql_join (\<lambda>fm. fm_ID fm \<in> set ids) d)"
  unfolding sql_order_ok_def selected_def by (metis list.set_map set_mset_mset)

lemma selected_rows_of:
  assumes "sql_order_ok E" and "files_wf (file_metadatas d)" and "file_row i d = Some row" and "i \<in> set ids"
  shows "set (rows_of (selected E n ids d) i) = (\<lambda>u. scan_select (row, u)) ` set (file_chunks i d)"
proof -
  have dist: "distinct (map fm_ID (file_metadatas d))" using assms(2) by (simp add: files_wf_def)
  have row: "row \<in> set (file_metadatas d)" "fm_ID row = i" using assms(3) file_row_Some [OF dist] by auto
  have same: "fm = row" if "fm \<in> set (file_metadatas d)" "fm_ID fm = i" for fm
    using that file_row_Some [OF dist, of i fm] assms(3) by simp
  have "set (rows_of (selected E n ids d) i) =
      scan_select ` {q \<in> set (sql_join (\<lambda>fm. fm_ID fm \<in> set ids) d). fm_ID (fst q) = i}"
    unfolding rows_of_def set_filter selected_set [OF assms(1)] by auto
  also have "{q \<in> set (sql_join (\<lambda>fm. fm_ID fm \<in> set ids) d). fm_ID (fst q) = i} = Pair row ` set (file_chunks i d)"
    (is "?L = ?R")
  proof
    show "?L \<subseteq> ?R" using same by (fastforce simp: set_sql_join file_chunks_def)
    show "?R \<subseteq> ?L" using row assms(4) by (auto simp: set_sql_join file_chunks_def)
  qed
  finally show ?thesis by (simp add: image_image)
qed

lemma selected_ids:
  assumes "sql_order_ok E" and "files_wf (file_metadatas d)"
    and "\<And>i. i \<in> set ids \<Longrightarrow> file_row i d \<noteq> None \<and> file_chunks i d \<noteq> []"
  shows "fwc_ID ` set (selected E n ids d) = set ids"
proof
  show "fwc_ID ` set (selected E n ids d) \<subseteq> set ids"
    unfolding selected_set [OF assms(1)] by (auto simp: set_sql_join)
  show "set ids \<subseteq> fwc_ID ` set (selected E n ids d)"
  proof
    fix i
    assume i: "i \<in> set ids"
    then obtain row where "file_row i d = Some row" using assms(3) by blast
    from selected_rows_of [OF assms(1,2) this i, of n] assms(3) [OF i]
    have "set (rows_of (selected E n ids d) i) \<noteq> {}" by simp
    then have "rows_of (selected E n ids d) i \<noteq> []" by auto
    then show "i \<in> fwc_ID ` set (selected E n ids d)" by (simp add: rows_of_empty)
  qed
qed

lemma group_of_fields:
  assumes "sql_order_ok E" and "files_wf (file_metadatas d)" and "file_row i d = Some row" and "i \<in> set ids"
    and "file_chunks i d \<noteq> []"
  shows "fi_ID (group_of (selected E n ids d) i) = i"
    and "fi_NChunks (group_of (selected E n ids d) i) = fm_NChunks row"
    and "fi_UserID (group_of (selected E n ids d) i) = fm_UserID row"
    and "fi_Size (group_of (selected E n ids d) i) = fm_FileSize row"
proof -
  let ?rs = "rows_of (selected E n ids d) i"
  note set = selected_rows_of [OF assms(1-4), of n]
  with assms(5) have "set ?rs \<noteq> {}" by simp
  then have "?rs \<noteq> []" by auto
  then have "hd ?rs \<in> set ?rs" by simp
  then obtain u where "hd ?rs = scan_select (row, u)" unfolding set by auto
  moreover have "fm_ID row = i" using assms(3) by (rule file_row_id)
  ultimately show "fi_ID (group_of (selected E n ids d) i) = i"
    and "fi_NChunks (group_of (selected E n ids d) i) = fm_NChunks row"
    and "fi_UserID (group_of (selected E n ids d) i) = fm_UserID row"
    and "fi_Size (group_of (selected E n ids d) i) = fm_FileSize row"
    by (simp_all add: group_of_def file_info_def)
qed

lemma reconcile_reads:
  assumes "no_faults E" "stmts_loaded E" "sql_order_ok E" and "files_wf (file_metadatas (w_db w))"
    and "file_row i (w_db w) \<noteq> None" "file_row p (w_db w) \<noteq> None" and "i \<noteq> p"
    and "file_chunks i (w_db w) \<noteq> []" "file_chunks p (w_db w) \<noteq> []"
  shows "reconcile E i p upd w =
    reconcile_chunks E (group_of (selected E (w_tick w) [i, p] (w_db w)) i)
      (group_of (selected E (w_tick w) [i, p] (w_db w)) p) upd (tick w)"
proof -
  let ?rows = "selected E (w_tick w) [i, p] (w_db w)"
  have "fwc_ID ` set ?rows = set [i, p]"
    using assms by (intro selected_ids) auto
  then have ids: "fwc_ID ` set ?rows = {i, p}" by simp
  from group_files_pair [OF ids \<open>i \<noteq> p\<close>]
  have "length (group_files ?rows) = 2"
    and "(if fi_ID (group_files ?rows ! 0) = i then (group_files ?rows ! 0, group_files ?rows ! 1)
      else (group_files ?rows ! 1, group_files ?rows ! 0)) = (group_of ?rows i, group_of ?rows p)" .
  then show ?thesis
    unfolding reconcile_def
    by (simp add: SelectFiles_run assms(1,2) Build_group split: if_splits)
qed

lemma version_str_scan [simp]: "version_str (scan_select (row, u)) = fmt_d (uf_ChunkID u)"
  by (simp add: version_str_def)

lemma inj_fmt_d: "inj fmt_d"
  by (simp add: inj_def fmt_d_inj)

lemma filler_entries:
  fixes rows :: "FilesWithChunks list" and i p :: string
  defines "F \<equiv> RestOfChunks (group_of rows i) (group_of rows p)"
  shows "map_wf F"
    and "fst ` set F = version_str ` set (rows_of rows p) - version_str ` set (rows_of rows i)"
    and "q \<in> set F \<Longrightarrow> snd q \<in> set (rows_of rows p) \<and> version_str (snd q) = fst q"
proof -
  show wf: "map_wf F" unfolding F_def by (rule RestOfChunks_wf) (rule group_of_wf)
  have look: "map_of F k = (if k \<in> version_str ` set (rows_of rows i) then None
      else map_of (fi_Chunks (group_of rows p)) k)" for k
    unfolding F_def RestOfChunks_map [OF group_of_wf] by (simp add: group_of_chunk_None)
  have "k \<in> fst ` set F \<longleftrightarrow> k \<in> version_str ` set (rows_of rows p) - version_str ` set (rows_of rows i)" for k
  proof -
    have "k \<in> fst ` set F \<longleftrightarrow> map_of F k \<noteq> None" by (metis map_of_eq_None_iff)
    also have "\<dots> \<longleftrightarrow> k \<notin> version_str ` set (rows_of rows i) \<and> map_of (fi_Chunks (group_of rows p)) k \<noteq> None"
      unfolding look by simp
    finally show ?thesis unfolding group_of_chunk_None by blast
  qed
  then show "fst ` set F = version_str ` set (rows_of rows p) - version_str ` set (rows_of rows i)" by blast
  show "snd q \<in> set (rows_of rows p) \<and> version_str (snd q) = fst q" if "q \<in> set F" for q
  proof -
    have "map_of F (fst q) = Some (snd q)" using wf that by simp
    then have "map_of (fi_Chunks (group_of rows p)) (fst q) = Some (snd q)"
      by (simp add: look split: if_splits)
    then show ?thesis by (rule group_of_chunk_Some)
  qed
qed

lemma filler_chunk_ids:
  "list_all2 (\<lambda>q u. filler_of f (snd q) u) m ufs \<Longrightarrow> map uf_ChunkID ufs = map (\<lambda>q. fwc_ChunkID (snd q)) m"
  by (induction rule: list_all2_induct) (simp_all add: filler_of_def)

lemma filler_members:
  "list_all2 (\<lambda>q u. filler_of f (snd q) u) m ufs \<Longrightarrow> u \<in> set ufs \<Longrightarrow> \<exists>q \<in> set m. filler_of f (snd q) u"
  by (induction rule: list_all2_induct) auto

lemma fills_from_filler:
  assumes "sql_order_ok E" "files_wf (file_metadatas d)"
    and row: "file_row i d = Some row" and prow: "file_row p d = Some prow"
    and ne: "file_chunks i d \<noteq> []" and ids: "set ids = {i, p}"
    and m: "mset m = mset (RestOfChunks (group_of (selected E n ids d) i) (group_of (selected E n ids d) p))"
    and all: "list_all2 (\<lambda>q u. filler_of (group_of (selected E n ids d) i) (snd q) u) m ufs"
  shows "fills d i p ufs"
proof -
  let ?rows = "selected E n ids d"
  note F = filler_entries [where rows = ?rows and i = i and p = p]
  have setm: "set m = set (RestOfChunks (group_of ?rows i) (group_of ?rows p))" using m by (rule set_perm)
  have ri: "set (rows_of ?rows i) = (\<lambda>u. scan_select (row, u)) ` set (file_chunks i d)"
    and rp: "set (rows_of ?rows p) = (\<lambda>u. scan_select (prow, u)) ` set (file_chunks p d)"
    using selected_rows_of [OF assms(1,2) row] selected_rows_of [OF assms(1,2) prow] ids by auto
  have keys: "map fst m = map fmt_d (map uf_ChunkID ufs)"
  proof -
    have "fst q = fmt_d (fwc_ChunkID (snd q))" if "q \<in> set m" for q
      using F(3) [of q] that setm by (simp add: version_str_def)
    then have "map fst m = map (\<lambda>q. fmt_d (fwc_ChunkID (snd q))) m" by (intro map_cong) simp_all
    then show ?thesis by (simp add: filler_chunk_ids [OF all])
  qed
  have "mset (map fst m) = mset (map fst (RestOfChunks (group_of ?rows i) (group_of ?rows p)))"
    using m by simp
  with F(1) have "distinct (map fst m)" using mset_eq_imp_distinct_iff by blast
  then have dist: "distinct (map uf_ChunkID ufs)" unfolding keys using distinct_map [of fmt_d "map uf_ChunkID ufs"] by blast
  have "fmt_d ` uf_ChunkID ` set ufs = fst ` set m"
    using arg_cong [OF keys, of set] by (simp add: image_image)
  also have "\<dots> = fmt_d ` chunk_ids p d - fmt_d ` chunk_ids i d"
    unfolding setm F(2) ri rp chunk_ids_def by (simp add: image_image)
  also have "\<dots> = fmt_d ` (chunk_ids p d - chunk_ids i d)" by (simp add: image_set_diff [OF inj_fmt_d])
  finally have set: "uf_ChunkID ` set ufs = chunk_ids p d - chunk_ids i d"
    by (simp add: inj_image_eq_iff [OF inj_fmt_d])
  have "uf_FileID u = i \<and> (\<exists>v \<in> set (file_chunks p d). same_chunk u v)" if u: "u \<in> set ufs" for u
  proof -
    from filler_members [OF all u] obtain q where q: "q \<in> set m" and fu: "filler_of (group_of ?rows i) (snd q) u"
      by blast
    from F(3) q setm have "snd q \<in> set (rows_of ?rows p)" by blast
    then obtain v where "v \<in> set (file_chunks p d)" and "snd q = scan_select (prow, v)" unfolding rp by auto
    moreover have "fi_ID (group_of ?rows i) = i"
      using group_of_fields(1) [OF assms(1,2) row _ ne] ids by simp
    ultimately show ?thesis using fu by (auto simp: filler_of_def same_chunk_def)
  qed
  with dist set show ?thesis by (simp add: fills_def)
qed

lemma batch_effect_Nil [simp]: "batch_effect [] d = d"
  by (simp add: batch_effect_def)

lemma reconcile_chunks_run:
  fixes this prev :: FileInfoResponse
  defines "F \<equiv> (if fi_NChunks this = fi_NChunks prev then RestOfChunks this prev else [])"
  assumes "no_faults E" "stmts_loaded E" "range_ok E"
  shows "\<exists>m ufs w1. reconcile_chunks E this prev upd w = upd StatusCompleted w1 \<and>
    w_db w1 = batch_effect ufs (w_db w) \<and> w_redis w1 = w_redis w \<and> w_fs w1 = w_fs w \<and>
    mset m = mset F \<and> list_all2 (\<lambda>q u. filler_of this (snd q) u) m ufs"
proof (cases "F = []")
  case True
  then have "reconcile_chunks E this prev upd w = upd StatusCompleted w"
    by (simp add: reconcile_chunks_def F_def)
  moreover have "mset [] = mset F" using True by simp
  moreover have "list_all2 (\<lambda>q u. filler_of this (snd q) u) [] []" by simp
  ultimately show ?thesis by (metis batch_effect_Nil)
next
  case False
  let ?m = "e_range E (w_tick w) F"
  obtain ufs w1 where f: "filler_rows E this ?m w = (ufs, w1)" by (cases "filler_rows E this ?m w")
  from bat.total_success [OF assms(2,3), of ufs w1] obtain w2 where
    b: "UserFileRepository_CreateBatch E ufs w1 = (OK (), w2)"
    "w_db w2 = batch_effect ufs (w_db w1)" "w_redis w2 = w_redis w1" "w_fs w2 = w_fs w1" by blast
  have "reconcile_chunks E this prev upd w = upd StatusCompleted w2"
    using False f b(1) by (simp add: reconcile_chunks_def F_def Let_def)
  moreover have "mset ?m = mset F" using assms(4) by (simp add: range_ok_def)
  ultimately show ?thesis
    using b filler_rows_frame [OF f] filler_rows_all2 [OF f] by metis
qed

text \<open>What \<open>Update\<close> commits for a version \<open>i\<close> with predecessor \<open>p\<close>, as one function of the rows.\<close>

definition promote :: "string \<Rightarrow> string \<Rightarrow> string \<Rightarrow> gotime \<Rightarrow> FileMetadata \<Rightarrow> FileMetadata" where
  "promote i p status t r =
     (if fm_ID r = i then r\<lparr>fm_CurrentFlag := True, fm_EndDate := None, fm_UploadStaus := status\<rparr>
      else if fm_ID r = p then r\<lparr>fm_CurrentFlag := False, fm_EndDate := Some t, fm_UploadStaus := status\<rparr>
      else r)"

lemma update_effect_promote:
  assumes "files_wf (file_metadatas d)" and "file_row i d = Some row" and "fm_PrevID row = Some p" and "i \<noteq> p"
  shows "file_metadatas (update_effect (Some p, i, status) t d) = map (promote i p status t) (file_metadatas d)"
proof -
  have "fm_PrevID r = Some p" if "r \<in> set (file_metadatas d)" "fm_ID r = i" for r
    using that assms(1-3) file_row_Some [of d i r] by (simp add: files_wf_def)
  then show ?thesis
    using assms(4) by (auto simp: update_effect_def sql_UpdateCurrentFlag_def promote_def)
qed

lemma update_effect_other [simp]:
  "user_files (update_effect a t d) = user_files d" "tokens_tbl (update_effect a t d) = tokens_tbl d"
  by (cases a; auto simp: update_effect_def Let_def split: option.splits)+

lemma batch_effect_sel [simp]:
  "file_metadatas (batch_effect ufs d) = file_metadatas d" "tokens_tbl (batch_effect ufs d) = tokens_tbl d"
  "user_files (batch_effect ufs d) = user_files d @ ufs"
  by (simp_all add: batch_effect_def)

lemma file_row_batch [simp]: "file_row i (batch_effect ufs d) = file_row i d"
  by (simp add: file_row_def)

lemma Update_run:
  assumes "no_faults E" "stmts_loaded E"
  shows "\<exists>w' n. MetadataRepository_Update E prev new status w = (OK (), w') \<and>
    w_db w' = update_effect (prev, new, status) (e_clock E n) (w_db w) \<and>
    w_redis w' = w_redis w \<and> w_fs w' = w_fs w"
  using upd.total_success [OF assms, of "(prev, new, status)" w] by (simp add: update_op_def)


subsection \<open>Runs of \<open>ExecuteEach\<close>\<close>

lemma CreateBatch_no_panic: "fst (UserFileRepository_CreateBatch E ufs w) \<noteq> Panic p"
  by (auto simp: UserFileRepository_CreateBatch_def tx_commit_def ext_call_def
      split: option.splits sum.splits prod.splits)

lemma batch_written:
  "UserFileRepository_CreateBatch E ufs w = (OK u, w') \<Longrightarrow>
     w_db w' = batch_effect ufs (w_db w) \<and> w_redis w' = w_redis w \<and> w_fs w' = w_fs w"
  using CreateBatch_outcome [of E ufs w "OK u" w'] by (simp add: tx_outcome_def)

lemma batch_failed:
  "UserFileRepository_CreateBatch E ufs w = (Err e, w') \<Longrightarrow>
     w_db w' = w_db w \<and> w_redis w' = w_redis w \<and> w_fs w' = w_fs w"
  using CreateBatch_outcome [of E ufs w "Err e" w'] by (simp add: tx_outcome_def)

text \<open>Whatever the driver does, the chunk part ends in one call of \<open>upd\<close>: with status completed
  after writing a record for each missing chunk, or with status failed after writing none.\<close>

lemma reconcile_chunks_cases:
  fixes this prev :: FileInfoResponse
  defines "F \<equiv> (if fi_NChunks this = fi_NChunks prev then RestOfChunks this prev else [])"
  assumes range: "range_ok E" and run: "reconcile_chunks E this prev upd w = (r, w')"
  obtains ufs w1 m where "upd StatusCompleted w1 = (r, w')" "w_db w1 = batch_effect ufs (w_db w)"
      "w_redis w1 = w_redis w" "w_fs w1 = w_fs w"
      "mset m = mset F" "list_all2 (\<lambda>q u. filler_of this (snd q) u) m ufs"
    | w1 where "upd StatusFailed w1 = (r, w')" "w_db w1 = w_db w"
      "w_redis w1 = w_redis w" "w_fs w1 = w_fs w" "F \<noteq> []"
proof (cases "F = []")
  case True
  with run have "upd StatusCompleted w = (r, w')" by (simp add: reconcile_chunks_def F_def)
  with True show thesis by (intro that(1) [of w "[]" "[]"]) simp_all
next
  case False
  obtain ufs w1 where f: "filler_rows E this (e_range E (w_tick w) F) w = (ufs, w1)"
    by (cases "filler_rows E this (e_range E (w_tick w) F) w")
  note frame = filler_rows_frame [OF f]
  obtain b w2 where c: "UserFileRepository_CreateBatch E ufs w1 = (b, w2)"
    by (cases "UserFileRepository_CreateBatch E ufs w1")
  have m: "mset (e_range E (w_tick w) F) = mset F" using range by (simp add: range_ok_def)
  have step: "reconcile_chunks E this prev upd w =
      (case b of OK u \<Rightarrow> upd StatusCompleted w2 | Err e \<Rightarrow> upd StatusFailed w2 | Panic p \<Rightarrow> (Panic p, w2))"
    using False f c by (simp add: reconcile_chunks_def F_def Let_def split: res.split)
  show thesis
  proof (cases b)
    case (OK u)
    with run step batch_written c frame filler_rows_all2 [OF f] m show thesis
      by (intro that(1) [of w2 ufs]) (auto dest: batch_written)
  next
    case (Err e)
    with run step c frame False show thesis
      by (intro that(2) [of w2]) (auto dest: batch_failed)
  next
    case (Panic p)
    with c CreateBatch_no_panic [of E ufs w1 p] show thesis by simp
  qed
qed


lemma SelectFiles_cases:
  "MetadataRepository_SelectFiles E ids w = (r, w1) \<Longrightarrow>
     w_db w1 = w_db w \<and> w_redis w1 = w_redis w \<and> w_fs w1 = w_fs w \<and>
     (r = OK (selected E (w_tick w) ids (w_db w)) \<or> (\<exists>e. r = Err e))"
  by (auto simp: MetadataRepository_SelectFiles_def selected_def ext_call_def split: option.splits if_splits)

lemma selected_subset:
  "sql_order_ok E \<Longrightarrow> fwc_ID ` set (selected E n ids d) \<subseteq> set ids"
  unfolding selected_set by (auto simp: set_sql_join)

lemma two_groups:
  assumes "fwc_ID ` set rows \<subseteq> {i, p}" and "\<not> length (group_files rows) < 2"
  shows "fwc_ID ` set rows = {i, p}" and "i \<noteq> p"
proof -
  have "2 \<le> card (fwc_ID ` set rows)"
    using assms(2) distinct_card [OF distinct_file_ids, of rows] by (simp add: group_files_def)
  moreover have "card (fwc_ID ` set rows) \<le> card {i, p}" using assms(1) by (intro card_mono) auto
  moreover have "card {i, p} \<le> 2" by (cases "i = p") simp_all
  ultimately have eq: "card (fwc_ID ` set rows) = card {i, p}" and two: "card {i, p} = 2" by linarith+
  show "fwc_ID ` set rows = {i, p}" using assms(1) eq by (intro card_subset_eq) auto
  show "i \<noteq> p" using two by auto
qed

lemma reconcile_cases:
  assumes order: "sql_order_ok E" and run: "reconcile E i p upd w = (r, w')"
  defines "rows \<equiv> selected E (w_tick w) [i, p] (w_db w)"
  obtains e where "r = Err e" "w_db w' = w_db w" "w_redis w' = w_redis w" "w_fs w' = w_fs w"
    | w1 where "i \<noteq> p" "fwc_ID ` set rows = {i, p}" "w_db w1 = w_db w" "w_redis w1 = w_redis w" "w_fs w1 = w_fs w"
      "reconcile_chunks E (group_of rows i) (group_of rows p) upd w1 = (r, w')"
proof -
  obtain s w1 where sel: "MetadataRepository_SelectFiles E [i, p] w = (s, w1)"
    by (cases "MetadataRepository_SelectFiles E [i, p] w")
  note fr = SelectFiles_cases [OF sel]
  show thesis
  proof (cases "s = OK rows \<and> \<not> length (group_files rows) < 2")
    case True
    have "fwc_ID ` set rows \<subseteq> {i, p}" using selected_subset [OF order, of _ "[i, p]"] by (auto simp: rows_def)
    from two_groups [OF this] True have two: "fwc_ID ` set rows = {i, p}" "i \<noteq> p" by auto
    from True sel two group_files_pair [OF two]
    have "reconcile E i p upd w = reconcile_chunks E (group_of rows i) (group_of rows p) upd w1"
      by (simp add: reconcile_def Build_group split: if_splits)
    with run two fr show thesis by (intro that(2)) auto
  next
    case False
    with fr sel run have "(\<exists>e. r = Err e) \<and> w' = w1"
      by (auto simp: reconcile_def Build_group rows_def split: if_splits)
    with fr that(1) show thesis by blast
  qed
qed


lemma missing_some:
  assumes "chunk_ids p d - chunk_ids i d \<noteq> {}" and "fills d i p ufs"
  shows "ufs \<noteq> []"
  using assms by (auto simp: fills_def)

lemma fills_complete:
  "fills d i p ufs \<Longrightarrow> chunk_ids i (d\<lparr>user_files := user_files d @ ufs\<rparr>) = chunk_ids i d \<union> chunk_ids p d"
  by (auto simp: fills_def chunk_ids_def file_chunks_def)

text \<open>The tables after a version \<open>i\<close> of \<open>p\<close> is reconciled: the records \<open>ufs\<close> added, both rows
  updated with \<open>status\<close>.\<close>

definition reconciled :: "string \<Rightarrow> string \<Rightarrow> string \<Rightarrow> gotime \<Rightarrow> UserFile list \<Rightarrow> db \<Rightarrow> db" where
  "reconciled i p status t ufs d =
     d\<lparr>file_metadatas := map (promote i p status t) (file_metadatas d), user_files := user_files d @ ufs\<rparr>"

lemma update_after_batch:
  assumes "db_wf d" and "file_row i d = Some row" and "fm_PrevID row = Some p"
  shows "update_effect (Some p, i, status) t (batch_effect ufs d) = reconciled i p status t ufs d"
proof -
  have "i \<noteq> p"
    using assms file_row_Some [of d i row] by (auto simp: db_wf_def files_wf_def)
  with assms update_effect_promote [of "batch_effect ufs d" i row p status t]
  have "file_metadatas (update_effect (Some p, i, status) t (batch_effect ufs d)) =
      map (promote i p status t) (file_metadatas d)"
    by (simp add: db_wf_def)
  then show ?thesis by (simp add: reconciled_def)
qed

lemma ExecuteEach_reconciles:
  assumes "no_faults E" "stmts_loaded E" "sql_order_ok E" "range_ok E" and "db_wf (w_db w)"
    and "cm_ID c = i" "cm_PrevID c = Some p"
    and "file_row i (w_db w) = Some row" "fm_PrevID row = Some p" "file_row p (w_db w) = Some prow"
    and "file_chunks i (w_db w) \<noteq> []" "file_chunks p (w_db w) \<noteq> []"
  shows "\<exists>ufs t w'. ExecuteEach E c w = (OK (), w') \<and>
    w_db w' = reconciled i p StatusCompleted t ufs (w_db w) \<and> w_redis w' = w_redis w \<and> w_fs w' = w_fs w \<and>
    (if fm_NChunks row = fm_NChunks prow
     then fills (w_db w) i p ufs \<and> chunk_ids i (w_db w') = chunk_ids i (w_db w) \<union> chunk_ids p (w_db w)
     else ufs = [])"
proof -
  let ?rows = "selected E (w_tick w) [i, p] (w_db w)"
  have fwf: "files_wf (file_metadatas (w_db w))" using assms(5) by (simp add: db_wf_def)
  then have "i \<noteq> p" using assms(8,9) file_row_Some [of "w_db w" i row] by (auto simp: files_wf_def)
  note gi = group_of_fields [OF assms(3) fwf assms(8), of "[i, p]" "w_tick w"]
  note gp = group_of_fields [OF assms(3) fwf assms(10), of "[i, p]" "w_tick w"]
  have same: "fi_NChunks (group_of ?rows i) = fi_NChunks (group_of ?rows p) \<longleftrightarrow> fm_NChunks row = fm_NChunks prow"
    using gi(2) gp(2) assms(11,12) by simp
  let ?upd = "MetadataRepository_Update E (Some p) i"
  from reconcile_chunks_run [OF assms(1,2,4), of "group_of ?rows i" "group_of ?rows p" ?upd "tick w", unfolded same]
  obtain m ufs w1 where rc: "reconcile_chunks E (group_of ?rows i) (group_of ?rows p) ?upd (tick w) = ?upd StatusCompleted w1"
    and w1: "w_db w1 = batch_effect ufs (w_db w)" "w_redis w1 = w_redis w" "w_fs w1 = w_fs w"
    and m: "mset m = mset (if fm_NChunks row = fm_NChunks prow then RestOfChunks (group_of ?rows i) (group_of ?rows p) else [])"
    and l: "list_all2 (\<lambda>q u. filler_of (group_of ?rows i) (snd q) u) m ufs"
    by auto
  from Update_run [OF assms(1,2), of "Some p" i StatusCompleted w1] obtain w' n where
    u: "?upd StatusCompleted w1 = (OK (), w')" and "w_redis w' = w_redis w" "w_fs w' = w_fs w"
    and db: "w_db w' = reconciled i p StatusCompleted (e_clock E n) ufs (w_db w)"
    unfolding w1 update_after_batch [OF assms(5,8,9)] by blast
  moreover have "ExecuteEach E c w = (OK (), w')"
    using reconcile_reads [OF assms(1,2,3) fwf, of i p ?upd] assms(6-8,10-12) \<open>i \<noteq> p\<close> rc u
    by (simp add: ExecuteEach_def)
  moreover have "fills (w_db w) i p ufs" if "fm_NChunks row = fm_NChunks prow"
    using m that by (intro fills_from_filler [OF assms(3) fwf assms(8,10,11) _ _ l]) simp_all
  moreover have "ufs = []" if "fm_NChunks row \<noteq> fm_NChunks prow" using m l that by simp
  moreover have "chunk_ids i (w_db w') = chunk_ids i (w_db w) \<union> chunk_ids p (w_db w)" if "fills (w_db w) i p ufs"
    using fills_complete [OF that] by (simp add: db reconciled_def chunk_ids_def file_chunks_def)
  ultimately show ?thesis by auto
qed




subsection \<open>Safety when calls fail\<close>

text \<open>However the driver behaves, a run that gets past reading the files is one call of \<open>Update\<close>
  on tables that have gained chunk records of the new version only.\<close>

lemma ExecuteEach_cases:
  assumes "sql_order_ok E" "range_ok E" and run: "ExecuteEach E c w = (r, w')"
  obtains e where "r = Err e" "w_db w' = w_db w" "w_redis w' = w_redis w" "w_fs w' = w_fs w"
    | ufs st w1 where "MetadataRepository_Update E (cm_PrevID c) (cm_ID c) st w1 = (r, w')"
      "w_db w1 = batch_effect ufs (w_db w)" "w_redis w1 = w_redis w" "w_fs w1 = w_fs w"
      "\<forall>u \<in> set ufs. uf_FileID u = cm_ID c" "st = StatusCompleted \<or> st = StatusFailed \<and> ufs = []"
proof (cases "cm_PrevID c")
  case None
  with run show thesis by (intro that(2) [of StatusCompleted w "[]"]) (simp_all add: ExecuteEach_def)
next
  case (Some p)
  let ?rows = "selected E (w_tick w) [cm_ID c, p] (w_db w)"
  let ?upd = "MetadataRepository_Update E (Some p) (cm_ID c)"
  from run Some have rec: "reconcile E (cm_ID c) p ?upd w = (r, w')" by (simp add: ExecuteEach_def)
  show thesis
  proof (rule reconcile_cases [OF assms(1) rec])
    fix w1
    assume ids: "fwc_ID ` set ?rows = {cm_ID c, p}" and fr: "w_db w1 = w_db w" "w_redis w1 = w_redis w" "w_fs w1 = w_fs w"
      and ch: "reconcile_chunks E (group_of ?rows (cm_ID c)) (group_of ?rows p) ?upd w1 = (r, w')"
    have newid: "fi_ID (group_of ?rows (cm_ID c)) = cm_ID c" using ids by (intro group_of_ID) simp
    show thesis
    proof (rule reconcile_chunks_cases [OF assms(2) ch])
      fix ufs w2 m
      assume "?upd StatusCompleted w2 = (r, w')" "w_db w2 = batch_effect ufs (w_db w1)"
        "w_redis w2 = w_redis w1" "w_fs w2 = w_fs w1"
        and l: "list_all2 (\<lambda>q u. filler_of (group_of ?rows (cm_ID c)) (snd q) u) m ufs"
      moreover have "\<forall>u \<in> set ufs. uf_FileID u = cm_ID c"
        using filler_members [OF l] by (auto simp: filler_of_def newid)
      ultimately show thesis using fr Some by (intro that(2) [of StatusCompleted w2 ufs]) auto
    next
      fix w2
      assume "?upd StatusFailed w2 = (r, w')" "w_db w2 = w_db w1" "w_redis w2 = w_redis w1" "w_fs w2 = w_fs w1"
      then show thesis using fr Some by (intro that(2) [of StatusFailed w2 "[]"]) auto
    qed
  qed (use that(1) in blast)
qed

lemma update_effect_row:
  "k \<noteq> i \<Longrightarrow> prev \<noteq> Some k \<Longrightarrow> file_row k (update_effect (prev, i, st) t d) = file_row k d"
  by (cases "file_row k d") (auto simp: update_effect_def file_row_update Let_def dest: file_row_id split: option.split)

lemma db_wf_update_effect:
  "db_wf d \<Longrightarrow> st \<noteq> StatusUploading \<Longrightarrow> db_wf (update_effect (prev, i, st) t d)"
  by (auto simp: update_effect_def Let_def intro!: db_wf_update split: option.split)

lemma db_wf_batch: "db_wf (batch_effect ufs d) = db_wf d"
  by (simp add: db_wf_def)

text \<open>
  C5.  Whatever driver calls fail, \<open>ExecuteEach\<close> keeps the tables well formed, leaves tokens,
  Redis, the stored blobs and every file other than the new version and its predecessor alone,
  only adds chunk records and only to the new version, and if it does not report success it has
  changed no file's metadata.
\<close>

theorem ExecuteEach_safe:
  assumes "sql_order_ok E" "range_ok E" and "db_wf (w_db w)" and "ExecuteEach E c w = (r, w')"
  shows "db_wf (w_db w') \<and> w_redis w' = w_redis w \<and> w_fs w' = w_fs w \<and>
    tokens_tbl (w_db w') = tokens_tbl (w_db w) \<and>
    (\<forall>k. k \<noteq> cm_ID c \<longrightarrow> cm_PrevID c \<noteq> Some k \<longrightarrow> file_row k (w_db w') = file_row k (w_db w)) \<and>
    (\<exists>ufs. user_files (w_db w') = user_files (w_db w) @ ufs \<and> (\<forall>u \<in> set ufs. uf_FileID u = cm_ID c)) \<and>
    (r \<noteq> OK () \<longrightarrow> file_metadatas (w_db w') = file_metadatas (w_db w))"
  using ExecuteEach_cases [OF assms(1,2,4)]
proof cases
  case 1
  with assms(3) show ?thesis by simp
next
  case (2 ufs st w1)
  from 2(6) have st: "st \<noteq> StatusUploading" by auto
  have b: "db_wf (batch_effect ufs (w_db w))" "file_row k (batch_effect ufs (w_db w)) = file_row k (w_db w)" for k
    using assms(3) by (simp_all add: db_wf_batch)
  from Update_outcome [OF 2(1)] 2(3,4)
  have fr: "w_redis w' = w_redis w" "w_fs w' = w_fs w"
    and "r = OK () \<and> (\<exists>n. w_db w' = update_effect (cm_PrevID c, cm_ID c, st) (e_clock E n) (batch_effect ufs (w_db w)))
      \<or> r \<noteq> OK () \<and> w_db w' = batch_effect ufs (w_db w)"
    by (auto simp: tx_outcome_def is_OK_iff 2(2))
  then consider n where "r = OK ()" "w_db w' = update_effect (cm_PrevID c, cm_ID c, st) (e_clock E n) (batch_effect ufs (w_db w))"
    | "w_db w' = batch_effect ufs (w_db w)" by blast
  then show ?thesis
  proof cases
    case (1 n)
    let ?d = "update_effect (cm_PrevID c, cm_ID c, st) (e_clock E n) (batch_effect ufs (w_db w))"
    have "\<forall>k. k \<noteq> cm_ID c \<longrightarrow> cm_PrevID c \<noteq> Some k \<longrightarrow> file_row k ?d = file_row k (w_db w)"
      by (simp add: update_effect_row b(2))
    moreover have "db_wf ?d" using b(1) st by (rule db_wf_update_effect)
    ultimately show ?thesis using 2(5) fr 1(1) unfolding 1(2) by simp
  next
    case 2
    with \<open>\<forall>u \<in> set ufs. uf_FileID u = cm_ID c\<close> b fr show ?thesis by simp
  qed
qed

text \<open>A database whose third call (the start of the batch insert) fails.\<close>

definition flaky_env :: "mem_redis env" where
  "flaky_env = sample_env\<lparr>e_fault := (\<lambda>n. if n = 2 then Some ''locked'' else None)\<rparr>"

lemma flaky_ok: "stmts_loaded flaky_env" "sql_order_ok flaky_env" "range_ok flaky_env" "\<not> no_faults flaky_env"
  using sample_stmts sample_order sample_range
  by (simp_all add: flaky_env_def stmts_loaded_def sql_order_ok_def range_ok_def no_faults_def)

theorem ExecuteEach_safe_witness:
  "\<exists>r w'. ExecuteEach flaky_env sample_cache sample_world = (r, w') \<and> db_wf (w_db w') \<and>
     file_row ''C'' (w_db w') = None \<and> tokens_tbl (w_db w') = []"
proof -
  obtain r w' where run: "ExecuteEach flaky_env sample_cache sample_world = (r, w')" by fastforce
  have "db_wf (w_db sample_world)" by (simp add: sample_world_def sample_db_wf)
  from ExecuteEach_safe [OF flaky_ok(2,3) this run] run show ?thesis
    by (auto simp: sample_defs sample_cache_def file_row_def)
qed

end
