(* ===== verification/Executor.thy ===== *)
theory Executor
  imports Reconcile
begin

text \<open>
  The rest of the worker's behaviour: first versions, a batch insert that fails, the manual
  reconciler, the chunk functions as operations on maps, and \<open>MetadataExecutor.Execute\<close> with the
  notifications it sends.
\<close>

subsection \<open>First versions and failed batches\<close>

text \<open>
  A first version (a message without a previous id) becomes current and completed and nothing
  else changes.  The uploaded chunks are not looked at: the conclusion holds whatever
  \<open>file_chunks\<close> of the version is, none included.
\<close>

theorem ExecuteEach_first_version:
  assumes "no_faults E" "stmts_loaded E" and "cm_PrevID c = None"
    and "file_row (cm_ID c) (w_db w) = Some row" "fm_PrevID row = None"
  shows "\<exists>w'. ExecuteEach E c w = (OK (), w') \<and>
    file_row (cm_ID c) (w_db w') =
      Some (row\<lparr>fm_CurrentFlag := True, fm_EndDate := None, fm_UploadStaus := StatusCompleted\<rparr>) \<and>
    (\<forall>k. k \<noteq> cm_ID c \<longrightarrow> file_row k (w_db w') = file_row k (w_db w)) \<and>
    user_files (w_db w') = user_files (w_db w) \<and> tokens_tbl (w_db w') = tokens_tbl (w_db w) \<and>
    w_redis w' = w_redis w \<and> w_fs w' = w_fs w"
proof -
  from Update_run [OF assms(1,2), of None "cm_ID c" StatusCompleted w] obtain w' n where
    u: "MetadataRepository_Update E None (cm_ID c) StatusCompleted w = (OK (), w')"
    and db: "w_db w' = update_effect (None, cm_ID c, StatusCompleted) (e_clock E n) (w_db w)"
    and fr: "w_redis w' = w_redis w" "w_fs w' = w_fs w" by blast
  have "ExecuteEach E c w = (OK (), w')" using u assms(3) by (simp add: ExecuteEach_def)
  moreover have "file_row (cm_ID c) (w_db w') =
      Some (row\<lparr>fm_CurrentFlag := True, fm_EndDate := None, fm_UploadStaus := StatusCompleted\<rparr>)"
    using assms(4,5) file_row_id [OF assms(4)] by (simp add: db update_effect_def file_row_update)
  moreover have "\<forall>k. k \<noteq> cm_ID c \<longrightarrow> file_row k (w_db w') = file_row k (w_db w)"
    by (simp add: db update_effect_row)
  ultimately show ?thesis using fr by (simp add: db)
qed

text \<open>A first version that no chunk was uploaded for.\<close>

definition row_N :: FileMetadata where
  "row_N = row_B\<lparr>fm_ID := ''N'', fm_PrevID := None\<rparr>"

definition new_world :: "mem_redis world" where
  "new_world = sample_world\<lparr>w_db := sample_db\<lparr>file_metadatas := [row_A, row_N]\<rparr>\<rparr>"

definition new_message :: CacheMetadata where
  "new_message = sample_cache\<lparr>cm_ID := ''N'', cm_PrevID := None\<rparr>"

theorem ExecuteEach_first_version_witness:
  "\<exists>w'. ExecuteEach sample_env new_message new_world = (OK (), w') \<and> file_chunks ''N'' (w_db w') = [] \<and>
     file_row ''N'' (w_db w') =
       Some (row_N\<lparr>fm_CurrentFlag := True, fm_EndDate := None, fm_UploadStaus := StatusCompleted\<rparr>)"
proof -
  have c: "cm_PrevID new_message = None" "cm_ID new_message = ''N''" by (simp_all add: new_message_def)
  have n: "file_row ''N'' (w_db new_world) = Some row_N" "fm_PrevID row_N = None"
    "file_chunks ''N'' (w_db new_world) = []"
    by (simp_all add: file_row_def file_chunks_def new_world_def row_N_def sample_defs)
  from ExecuteEach_first_version [OF sample_no_faults sample_stmts c(1), of new_world row_N] n
  show ?thesis by (auto simp: c file_chunks_def)
qed

lemma selected_row_exists:
  assumes "sql_order_ok E" and "i \<in> fwc_ID ` set (selected E n ids d)" and "files_wf (file_metadatas d)"
  obtains row where "file_row i d = Some row" and "file_chunks i d \<noteq> []"
proof -
  from assms(2) obtain q where q: "q \<in> set (sql_join (\<lambda>fm. fm_ID fm \<in> set ids) d)" "fm_ID (fst q) = i"
    unfolding selected_set [OF assms(1)] by auto
  then have "fst q \<in> set (file_metadatas d)" "snd q \<in> set (file_chunks i d)"
    using set_sql_join [of "fst q" "snd q"] by (auto simp: file_chunks_def)
  moreover from this q assms(3) have "file_row i d = Some (fst q)"
    using file_row_Some [of d i "fst q"] by (simp add: files_wf_def)
  ultimately show thesis by (intro that) auto
qed

text \<open>
  C34.  When the batch insert of the missing chunks fails, \<open>ExecuteEach\<close> nevertheless makes the
  incomplete version current and ends its predecessor: if a run reports success although chunks
  are missing and no record was added, both rows have status failed, the new version is current
  and the previous one is ended.
\<close>

theorem ExecuteEach_batch_failure:
  assumes "sql_order_ok E" "range_ok E" and "db_wf (w_db w)"
    and "cm_ID c = i" "cm_PrevID c = Some p"
    and "file_row i (w_db w) = Some row" "fm_PrevID row = Some p" "file_row p (w_db w) = Some prow"
    and "fm_NChunks row = fm_NChunks prow" and "chunk_ids p (w_db w) - chunk_ids i (w_db w) \<noteq> {}"
    and "ExecuteEach E c w = (OK (), w')" "user_files (w_db w') = user_files (w_db w)"
  shows "\<exists>t. w_db w' = reconciled i p StatusFailed t [] (w_db w)"
proof -
  let ?rows = "selected E (w_tick w) [i, p] (w_db w)" and ?upd = "MetadataRepository_Update E (Some p) i"
  have fwf: "files_wf (file_metadatas (w_db w))" using assms(3) by (simp add: db_wf_def)
  have eff: "\<exists>t. w_db w' = reconciled i p st t ufs (w_db w)"
    if "?upd st w2 = (OK (), w')" "w_db w2 = batch_effect ufs (w_db w)" for st ufs w2
    using Update_outcome [OF that(1)] update_after_batch [OF assms(3,6,7)] that(2)
    by (auto simp: tx_outcome_def)
  have "reconcile E i p ?upd w = (OK (), w')" using assms(4,5,11) by (simp add: ExecuteEach_def)
  from this show ?thesis
  proof (rule reconcile_cases [OF assms(1)])
    fix w1
    assume ids: "fwc_ID ` set ?rows = {i, p}" and w1: "w_db w1 = w_db w"
      and run: "reconcile_chunks E (group_of ?rows i) (group_of ?rows p) ?upd w1 = (OK (), w')"
    have ne: "file_chunks i (w_db w) \<noteq> []" "file_chunks p (w_db w) \<noteq> []"
      using selected_row_exists [OF assms(1) _ fwf] ids by (metis insertI1, metis insertI1 insertI2)
    have same: "fi_NChunks (group_of ?rows i) = fi_NChunks (group_of ?rows p)"
      using assms(9) group_of_fields(2) [OF assms(1) fwf assms(6)] group_of_fields(2) [OF assms(1) fwf assms(8)] ne
      by simp
    show ?thesis
    proof (rule reconcile_chunks_cases [OF assms(2) run, unfolded same])
      fix ufs w2 m
      assume u: "?upd StatusCompleted w2 = (OK (), w')" "w_db w2 = batch_effect ufs (w_db w1)"
        and m: "mset m = mset (if fi_NChunks (group_of ?rows p) = fi_NChunks (group_of ?rows p)
          then RestOfChunks (group_of ?rows i) (group_of ?rows p) else [])"
        and l: "list_all2 (\<lambda>q u. filler_of (group_of ?rows i) (snd q) u) m ufs"
      have "fills (w_db w) i p ufs"
        using m by (intro fills_from_filler [OF assms(1) fwf assms(6,8) ne(1) _ _ l]) simp_all
      with assms(10) have "ufs \<noteq> []" by (rule missing_some)
      moreover have "user_files (w_db w') = user_files (w_db w) @ ufs"
        using eff [OF u(1), of ufs] u(2) w1 by (auto simp: reconciled_def)
      ultimately show ?thesis using assms(12) by simp
    next
      fix w2
      assume "?upd StatusFailed w2 = (OK (), w')" "w_db w2 = w_db w1"
      then show ?thesis using eff [of StatusFailed w2 "[]"] w1 by simp
    qed
  qed simp
qed

theorem ExecuteEach_batch_failure_witness:
  "\<exists>t w'. ExecuteEach flaky_env sample_cache sample_world = (OK (), w') \<and>
     w_db w' = reconciled ''B'' ''A'' StatusFailed t [] sample_db"
proof -
  let ?run = "ExecuteEach flaky_env sample_cache sample_world"
  have r: "fst ?run = OK ()" "user_files (w_db (snd ?run)) = user_files sample_db" by code_simp+
  then have run: "?run = (OK (), snd ?run)" by (metis prod.collapse)
  have w: "w_db sample_world = sample_db" by (simp add: sample_world_def)
  have c: "cm_ID sample_cache = ''B''" "cm_PrevID sample_cache = Some ''A''" by (simp_all add: sample_cache_def)
  have f: "fm_PrevID row_B = Some ''A''" "fm_NChunks row_B = fm_NChunks row_A" by (simp_all add: row_A_def row_B_def)
  have "chunk_ids ''A'' sample_db - chunk_ids ''B'' sample_db \<noteq> {}"
    by (simp add: chunk_ids_def sample_rows chunk_row_def)
  with ExecuteEach_batch_failure [OF flaky_ok(2,3) _ c _ f(1) _ f(2) _ run, unfolded w] r(2)
  show ?thesis using run sample_db_wf sample_rows(1,2) by blast
qed


subsection \<open>The manual reconciler\<close>

text \<open>
  The manual reconciler passes the two ids to \<open>Update\<close> the wrong way round: run on a new
  version \<open>i\<close> of \<open>p\<close> it reports success, ends the new version and takes its current flag, and
  leaves the row of the previous version as it was.
\<close>

theorem ManualReconciler_ends_new_version:
  assumes "no_faults E" "stmts_loaded E" "sql_order_ok E" "range_ok E" and "db_wf (w_db w)"
    and "file_row i (w_db w) = Some row" "fm_PrevID row = Some p"
    and "file_row p (w_db w) = Some prow" "fm_PrevID prow \<noteq> Some i"
    and "file_chunks i (w_db w) \<noteq> []" "file_chunks p (w_db w) \<noteq> []"
  shows "\<exists>t w'. ManualChunkMetadataReconciler E i p w = (OK (), w') \<and>
    file_row i (w_db w') =
      Some (row\<lparr>fm_CurrentFlag := False, fm_EndDate := Some t, fm_UploadStaus := StatusCompleted\<rparr>) \<and>
    file_row p (w_db w') = Some prow"
proof -
  let ?rows = "selected E (w_tick w) [i, p] (w_db w)" and ?upd = "MetadataRepository_Update E (Some i) p"
  have fwf: "files_wf (file_metadatas (w_db w))" using assms(5) by (simp add: db_wf_def)
  then have "i \<noteq> p" using assms(6,7) file_row_Some [of "w_db w" i row] by (auto simp: files_wf_def)
  from reconcile_chunks_run [OF assms(1,2,4), of "group_of ?rows i" "group_of ?rows p" ?upd "tick w"]
  obtain ufs w1 where rc: "reconcile_chunks E (group_of ?rows i) (group_of ?rows p) ?upd (tick w) = ?upd StatusCompleted w1"
    and w1: "w_db w1 = batch_effect ufs (w_db w)" by auto
  from Update_run [OF assms(1,2), of "Some i" p StatusCompleted w1] obtain w' n where
    u: "?upd StatusCompleted w1 = (OK (), w')"
    and db: "w_db w' = update_effect (Some i, p, StatusCompleted) (e_clock E n) (batch_effect ufs (w_db w))"
    unfolding w1 by blast
  have "ManualChunkMetadataReconciler E i p w = (OK (), w')"
    using reconcile_reads [OF assms(1-3) fwf, of i p ?upd] assms(6,8,10,11) \<open>i \<noteq> p\<close> rc u
    by (simp add: ManualChunkMetadataReconciler_def)
  moreover have "file_row i (w_db w') =
      Some (row\<lparr>fm_CurrentFlag := False, fm_EndDate := Some (e_clock E n), fm_UploadStaus := StatusCompleted\<rparr>)"
    using \<open>i \<noteq> p\<close> assms(6) file_row_id [OF assms(6)] by (simp add: db update_effect_def file_row_update)
  moreover have "file_row p (w_db w') = Some prow"
    using \<open>i \<noteq> p\<close> assms(8,9) file_row_id [OF assms(8)] by (simp add: db update_effect_def file_row_update)
  ultimately show ?thesis by blast
qed

theorem ManualReconciler_ends_new_version_witness:
  "\<exists>t w'. ManualChunkMetadataReconciler sample_env ''B'' ''A'' sample_world = (OK (), w') \<and>
     file_row ''B'' (w_db w') =
       Some (row_B\<lparr>fm_CurrentFlag := False, fm_EndDate := Some t, fm_UploadStaus := StatusCompleted\<rparr>) \<and>
     file_row ''A'' (w_db w') = Some row_A"
proof -
  have w: "w_db sample_world = sample_db" by (simp add: sample_world_def)
  have f: "fm_PrevID row_B = Some ''A''" "fm_PrevID row_A \<noteq> Some ''B''" by (simp_all add: row_A_def row_B_def)
  from ManualReconciler_ends_new_version [of sample_env sample_world "''B''" row_B "''A''" row_A]
  show ?thesis by (simp add: w f sample_ok sample_db_wf sample_rows)
qed

subsection \<open>Reconstruction and validation\<close>

lemma prev_chain_lookup:
  "map_wf m \<Longrightarrow> prev_chain m Map.empty = Some chain \<Longrightarrow>
     chain k = Some (fmt_d n) \<longleftrightarrow> (\<exists>c. map_of m k = Some c \<and> fwc_NextChunkID c = Some n)"
  by (fastforce simp: prev_chain_Some fold_chain_put fmt_d_inj split: if_splits option.splits
      dest: map_of_SomeD)

lemma Validate_iff:
  assumes "map_wf (fi_Chunks prev)"
  shows "Validate r prev \<longleftrightarrow> fi_NChunks prev = fi_NChunks r \<and>
    (\<forall>q \<in> set (fi_Chunks prev). fwc_NextChunkID (snd q) \<noteq> None) \<and>
    (\<forall>q \<in> set (fi_Chunks r). \<exists>n. fwc_NextChunkID (snd q) = Some n \<and>
       (\<exists>c. map_of (fi_Chunks prev) (fst q) = Some c \<and> fwc_NextChunkID c = Some n))"
proof (cases "prev_chain (fi_Chunks prev) Map.empty")
  case None
  then show ?thesis by (auto simp: Validate_def prev_chain_Some split: if_splits)
next
  case (Some chain)
  then have "\<forall>q \<in> set (fi_Chunks prev). fwc_NextChunkID (snd q) \<noteq> None"
    by (simp add: prev_chain_Some split: if_splits)
  with Some show ?thesis
    by (simp add: Validate_def chain_matches_iff prev_chain_lookup [OF assms Some])
qed

text \<open>
  Reconstruction and its validation.  \<open>ReconstructChunks\<close> overlays the uploaded chunks of the
  new version on those of the previous one and changes no other field, and \<open>Validate\<close> accepts the
  result exactly when both versions have the same chunk count, every chunk of the previous
  version has a successor, and each uploaded chunk has the place the previous version gives it.
\<close>

theorem Validate_Reconstruct:
  assumes "map_wf (fi_Chunks this)" and "map_wf (fi_Chunks prev)"
  shows "map_of (fi_Chunks (ReconstructChunks this prev)) = map_of (fi_Chunks prev) ++ map_of (fi_Chunks this) \<and>
    ReconstructChunks this prev = this\<lparr>fi_Chunks := fi_Chunks (ReconstructChunks this prev)\<rparr> \<and>
    (Validate (ReconstructChunks this prev) prev \<longleftrightarrow>
       fi_NChunks prev = fi_NChunks this \<and>
       (\<forall>k c. map_of (fi_Chunks prev) k = Some c \<longrightarrow> fwc_NextChunkID c \<noteq> None) \<and>
       (\<forall>k c. map_of (fi_Chunks this) k = Some c \<longrightarrow>
          (\<exists>n pc. fwc_NextChunkID c = Some n \<and> map_of (fi_Chunks prev) k = Some pc \<and> fwc_NextChunkID pc = Some n)))"
proof -
  let ?R = "ReconstructChunks this prev" and ?P = "map_of (fi_Chunks prev)" and ?T = "map_of (fi_Chunks this)"
  have look: "map_of (fi_Chunks ?R) = ?P ++ ?T"
    by (auto simp: ReconstructChunks_def assign_all_map RestOfChunks_wf assms map_add_def
        RestOfChunks_map [OF assms(2)] fun_eq_iff split: option.splits)
  have fields: "fi_NChunks ?R = fi_NChunks this" by (simp add: ReconstructChunks_def)
  have wfR: "map_wf (fi_Chunks ?R)"
    by (simp add: ReconstructChunks_def assign_all_wf assms)
  have all: "(\<forall>q \<in> set m. Q (fst q) (snd q)) \<longleftrightarrow> (\<forall>k c. map_of m k = Some c \<longrightarrow> Q k c)"
    if "map_wf m" for m :: "FilesWithChunks gomap" and Q
    using that by (auto dest: map_of_SomeD)
  have "Validate ?R prev \<longleftrightarrow> fi_NChunks prev = fi_NChunks this \<and>
      (\<forall>k c. ?P k = Some c \<longrightarrow> fwc_NextChunkID c \<noteq> None) \<and>
      (\<forall>k c. (?P ++ ?T) k = Some c \<longrightarrow> (\<exists>n. fwc_NextChunkID c = Some n \<and> (\<exists>pc. ?P k = Some pc \<and> fwc_NextChunkID pc = Some n)))"
    unfolding Validate_iff [OF assms(2)] look [symmetric]
    using all [OF assms(2), of "\<lambda>k c. fwc_NextChunkID c \<noteq> None"]
      all [OF wfR, of "\<lambda>k c. \<exists>n. fwc_NextChunkID c = Some n \<and> (\<exists>pc. ?P k = Some pc \<and> fwc_NextChunkID pc = Some n)"]
    by (simp add: fields)
  then show ?thesis
    using look by (auto simp: ReconstructChunks_def map_add_Some_iff)
qed


text \<open>Versions \<open>A\<close> and \<open>B\<close> of the sample tables as the worker reads them.\<close>

definition sample_info :: "string \<Rightarrow> FileInfoResponse" where
  "sample_info i = group_of (selected sample_env 0 [''B'', ''A''] sample_db) i"

theorem Validate_Reconstruct_witness:
  "Validate (ReconstructChunks (sample_info ''B'') (sample_info ''A'')) (sample_info ''A'') \<and>
   map_option fwc_ChunkBlobUrl
     (map_of (fi_Chunks (ReconstructChunks (sample_info ''B'') (sample_info ''A''))) ''0'') = Some ''a0''"
proof -
  let ?B = "sample_info ''B''" and ?A = "sample_info ''A''"
  have wf: "map_wf (fi_Chunks ?B)" "map_wf (fi_Chunks ?A)" by (simp_all add: sample_info_def group_of_wf)
  have run: "map (\<lambda>(k, c). (k, fwc_NextChunkID c, fwc_ChunkBlobUrl c)) (fi_Chunks ?B) = [(''1'', Some (-1), ''b1'')]"
    "map (\<lambda>(k, c). (k, fwc_NextChunkID c, fwc_ChunkBlobUrl c)) (fi_Chunks ?A) =
       [(''0'', Some 1, ''a0''), (''1'', Some (-1), ''a1'')]"
    "fi_NChunks ?A = fi_NChunks ?B"
    by code_simp+
  then show ?thesis
    using Validate_Reconstruct [OF wf] by (auto simp: map_eq_Cons_conv map_add_def split: if_splits)
qed

subsection \<open>Execute and its notifications\<close>

text \<open>The queue entries a list of events puts on the list of user \<open>u\<close>.\<close>

definition notifications :: "'r env \<Rightarrow> MetadataUpdateStatusEvent list \<Rightarrow> string \<Rightarrow> bytes list" where
  "notifications E events u =
     concat (map (\<lambda>v. case e_gob_event E v of Inl e \<Rightarrow> [] | Inr b \<Rightarrow> if ev_UserID v = u then [b] else []) events)"

fun non_nil :: "'a option list \<Rightarrow> 'a list" where
  "non_nil [] = []"
| "non_nil (None # xs) = non_nil xs"
| "non_nil (Some x # xs) = x # non_nil xs"

abbreviation client_queue :: "string \<Rightarrow> string" where
  "client_queue u \<equiv> NewTemplateString MetadataUpdateClientsNotifierQueue [u]"

lemma client_queue_inj: "client_queue u = client_queue v \<longleftrightarrow> u = v"
  by (simp add: notifier_queue)

lemma notify_loop_failed: "notify_loop E ps failed w = ([], w') \<Longrightarrow> failed = []"
  by (induction E ps failed w rule: notify_loop.induct) (auto split: prod.splits option.splits)

lemma notify_loop_view:
  assumes lists: "redis_lists (e_redis E) view"
  shows "notify_loop E (map (event_payload E) events) [] w = ([], w') \<Longrightarrow>
    view (w_redis w') (client_queue u) = view (w_redis w) (client_queue u) @ notifications E events u \<and>
    view (w_redis w') MetadataFileUpdateQueue = view (w_redis w) MetadataFileUpdateQueue \<and> w_db w' = w_db w"
proof (induction events arbitrary: w)
  case (Cons v events)
  show ?case
  proof (cases "e_gob_event E v")
    case (Inl e)
    with Cons show ?thesis by (simp add: event_payload_def notifications_def)
  next
    case (Inr b)
    obtain e r where push: "RPush (e_redis E) (client_queue (ev_UserID v)) b (w_redis w) = (e, r)"
      by (cases "RPush (e_redis E) (client_queue (ev_UserID v)) b (w_redis w)")
    let ?p = "\<lparr>pl_Message = b, pl_Key = [], pl_TTL = 0\<rparr>"
    have step: "notify_loop E (map (event_payload E) (v # events)) [] w =
        notify_loop E (map (event_payload E) events) (if e = None then [] else [?p]) (w\<lparr>w_redis := r\<rparr>)"
      using Inr push by (simp add: event_payload_def RedisQ_EnqueueMsg_def Let_def split: option.splits)
    have "(if e = None then [] else [?p]) = []"
      using Cons.prems unfolding step by (rule notify_loop_failed)
    then have "e = None" by (simp split: if_splits)
    with push have view: "view r = (view (w_redis w))(client_queue (ev_UserID v) :=
        view (w_redis w) (client_queue (ev_UserID v)) @ [b])" using redis_push [OF lists] by simp
    from \<open>e = None\<close> Cons.prems step have "notify_loop E (map (event_payload E) events) [] (w\<lparr>w_redis := r\<rparr>) = ([], w')"
      by simp
    from Cons.IH [OF this] show ?thesis
      using queues_differ [of "ev_UserID v"] by (simp add: view notifications_def Inr client_queue_inj)
  qed
qed (simp add: notifications_def)

lemma ExecuteEach_redis:
  assumes "sql_order_ok E" "range_ok E" "ExecuteEach E c w = (r, w')"
  shows "w_redis w' = w_redis w"
  using ExecuteEach_cases [OF assms] Update_outcome by cases (fastforce simp: tx_outcome_def)+

lemma ExecuteEach_keeps:
  assumes "sql_order_ok E" "range_ok E" "ExecuteEach E c w = (r, w')" "db_wf (w_db w)"
  shows "w_redis w' = w_redis w \<and> w_fs w' = w_fs w \<and> db_wf (w_db w')"
  using ExecuteEach_cases [OF assms(1-3)]
proof cases
  case (2 ufs st w1)
  from 2(6) have st: "st \<noteq> StatusUploading" by auto
  have "db_wf (w_db w1)" using assms(4) by (simp add: 2(2) db_wf_batch)
  with Update_outcome [OF 2(1)] 2(3,4) st show ?thesis
    by (auto simp: tx_outcome_def intro: db_wf_update_effect)
qed (use assms(4) in simp)

lemma execute_loop_OK:
  assumes "sql_order_ok E" "range_ok E" "redis_lists (e_redis E) view"
  shows "execute_loop E payloads events w = (EOk, w') \<Longrightarrow>
    \<exists>cs. map (\<lambda>p. e_ungob_cache E (pl_Message p)) (non_nil payloads) = map Inr cs \<and>
      (\<forall>u. view (w_redis w') (client_queue u) =
         view (w_redis w) (client_queue u) @ notifications E (events @ map success_event cs) u) \<and>
      view (w_redis w') MetadataFileUpdateQueue = view (w_redis w) MetadataFileUpdateQueue"
proof (induction payloads arbitrary: events w)
  case Nil
  then have "notify_loop E (map (event_payload E) events) [] w = ([], w')"
    by (simp add: Notify_def rho_Map_map split: prod.splits if_splits)
  from notify_loop_view [OF assms(3) this] show ?case by simp
next
  case (Cons q payloads)
  show ?case
  proof (cases q)
    case None
    with Cons show ?thesis by simp
  next
    case (Some p)
    with Cons.prems obtain c where c: "e_ungob_cache E (pl_Message p) = Inr c" by (auto split: sum.splits)
    obtain x w1 where x: "ExecuteEach E c w = (x, w1)" by (cases "ExecuteEach E c w")
    note red = ExecuteEach_redis [OF assms(1,2) x]
    from Cons.prems Some c x have "execute_loop E payloads (events @ [success_event c]) w1 = (EOk, w')"
      by (auto split: res.splits)
    from Cons.IH [OF this] obtain cs where
      "map (\<lambda>p. e_ungob_cache E (pl_Message p)) (non_nil payloads) = map Inr cs"
      "\<forall>u. view (w_redis w') (client_queue u) =
        view (w_redis w) (client_queue u) @ notifications E (events @ map success_event (c # cs)) u"
      "view (w_redis w') MetadataFileUpdateQueue = view (w_redis w) MetadataFileUpdateQueue"
      unfolding red by auto
    with Some c show ?thesis by (intro exI [of _ "c # cs"]) simp
  qed
qed

text \<open>
  C11.  A batch that \<open>Execute\<close> completes: every payload was decoded, and for every user the list that
  notifies the user's clients has gained exactly one encoded event per processed message of that
  user, in the order of the messages; the queue of pending updates is untouched.
\<close>

theorem Execute_notifies:
  assumes "sql_order_ok E" "range_ok E" "redis_lists (e_redis E) view"
    and "MetadataExecutor_Execute E payloads w = (EOk, w')"
  shows "\<exists>cs. map (\<lambda>p. e_ungob_cache E (pl_Message p)) (non_nil payloads) = map Inr cs \<and>
    (\<forall>u. view (w_redis w') (client_queue u) =
       view (w_redis w) (client_queue u) @ notifications E (map success_event cs) u) \<and>
    view (w_redis w') MetadataFileUpdateQueue = view (w_redis w) MetadataFileUpdateQueue"
  using execute_loop_OK [OF assms(1-3), of payloads "[]" w w'] assms(4)
  by (simp add: MetadataExecutor_Execute_def)

definition sample_payload :: Payload where
  "sample_payload = \<lparr>pl_Message = ''m'', pl_Key = [], pl_TTL = 0\<rparr>"

theorem Execute_notifies_witness:
  "\<exists>w'. MetadataExecutor_Execute sample_env [None, Some sample_payload] sample_world = (EOk, w') \<and>
     fst (w_redis w') (client_queue ''U1'') = [''e''] \<and> fst (w_redis w') (client_queue ''U2'') = []"
proof -
  let ?run = "MetadataExecutor_Execute sample_env [None, Some sample_payload] sample_world"
  have "fst ?run = EOk" by code_simp
  then have run: "?run = (EOk, snd ?run)" by (metis prod.collapse)
  have lists: "redis_lists (e_redis sample_env) fst" using mem_lists by (simp add: sample_env_def)
  from Execute_notifies [OF sample_order sample_range lists run] obtain cs where
    cs: "map (\<lambda>p. e_ungob_cache sample_env (pl_Message p)) (non_nil [None, Some sample_payload]) = map Inr cs"
    and v: "\<forall>u. fst (w_redis (snd ?run)) (client_queue u) = fst (w_redis sample_world) (client_queue u) @
      notifications sample_env (map success_event cs) u"
    by blast
  from cs have "cs = [sample_cache]" by (auto simp: sample_env_def sample_payload_def)
  then have "notifications sample_env (map success_event cs) u = (if u = ''U1'' then [''e''] else [])" for u
    by (auto simp: notifications_def success_event_def sample_env_def sample_cache_def sample_event_def)
  with v have "fst (w_redis (snd ?run)) (client_queue u) = (if u = ''U1'' then [''e''] else [])" for u
    by (simp add: sample_world_def)
  with run show ?thesis by (intro exI [of _ "snd ?run"]) simp
qed


text \<open>
  A batch that ends in an error sends no notification at all, also not for the messages of the
  batch that were reconciled before the one that failed: Redis is as it was, while the tables keep
  what the earlier messages changed and stay well formed.
\<close>

theorem Execute_error_silent:
  assumes "sql_order_ok E" "range_ok E" and "db_wf (w_db w)"
    and "MetadataExecutor_Execute E payloads w = (EErr e, w')"
  shows "w_redis w' = w_redis w \<and> w_fs w' = w_fs w \<and> db_wf (w_db w')"
proof -
  have "execute_loop E payloads events w = (EErr e, w') \<Longrightarrow> db_wf (w_db w) \<Longrightarrow>
      w_redis w' = w_redis w \<and> w_fs w' = w_fs w \<and> db_wf (w_db w')" for events
  proof (induction payloads arbitrary: events w)
    case (Cons q payloads)
    show ?case
    proof (cases q)
      case (Some p)
      show ?thesis
      proof (cases "e_ungob_cache E (pl_Message p)")
        case (Inr c)
        obtain x w1 where x: "ExecuteEach E c w = (x, w1)" by (cases "ExecuteEach E c w")
        note keeps = ExecuteEach_keeps [OF assms(1,2) x Cons.prems(2)]
        show ?thesis
          using Cons.prems(1) Cons.IH [of "events @ [success_event c]" w1] keeps Some Inr x
          by (cases x) auto
      qed (use Cons.prems Some in auto)
    qed (use Cons in auto)
  qed (auto split: prod.splits if_splits)
  with assms(3,4) show ?thesis by (simp add: MetadataExecutor_Execute_def)
qed

theorem Execute_error_silent_witness:
  "\<exists>e w'. MetadataExecutor_Execute sample_env
       [Some sample_payload, Some (sample_payload\<lparr>pl_Message := ''x''\<rparr>)] sample_world = (EErr e, w') \<and>
     fst (w_redis w') (client_queue ''U1'') = [] \<and>
     map_option fm_CurrentFlag (file_row ''B'' (w_db w')) = Some True"
proof -
  let ?run = "MetadataExecutor_Execute sample_env
       [Some sample_payload, Some (sample_payload\<lparr>pl_Message := ''x''\<rparr>)] sample_world"
  have r: "fst ?run = EErr ''gob''" "map_option fm_CurrentFlag (file_row ''B'' (w_db (snd ?run))) = Some True"
    by code_simp+
  then have run: "?run = (EErr ''gob'', snd ?run)" by (metis prod.collapse)
  have "db_wf (w_db sample_world)" by (simp add: sample_world_def sample_db_wf)
  from Execute_error_silent [OF sample_order sample_range this run] have
    "fst (w_redis (snd ?run)) (client_queue ''U1'') = []" by (simp add: sample_world_def)
  with run r(2) show ?thesis by blast
qed

subsection \<open>Two versions of one file\<close>

lemma file_row_reconciled: "file_row x (reconciled i p st t ufs d) = map_option (promote i p st t) (file_row x d)"
proof -
  have "find (\<lambda>row. fm_ID row = x) (map (promote i p st t) rows) = map_option (promote i p st t) (find (\<lambda>row. fm_ID row = x) rows)"
    for rows by (induction rows) (auto simp: promote_def)
  then show ?thesis by (simp add: file_row_def reconciled_def)
qed

lemma file_chunks_reconciled: "file_chunks x d \<noteq> [] \<Longrightarrow> file_chunks x (reconciled i p st t ufs d) \<noteq> []"
  by (simp add: file_chunks_def reconciled_def)

text \<open>
  C36.  Nothing compares a version with the current one: when two devices upload versions of the same
  file and neither replaces the other, both uploads are reconciled without an error, and both versions
  are current afterwards.
\<close>

theorem ExecuteEach_two_current:
  assumes "no_faults E" "stmts_loaded E" "sql_order_ok E" "range_ok E" and "db_wf (w_db w)"
    and "file_row i (w_db w) = Some irow" "fm_PrevID irow = Some p" "file_row k (w_db w) = Some krow" "fm_PrevID krow = Some p"
    and "file_row p (w_db w) = Some prow" "i \<noteq> k"
    and "file_chunks i (w_db w) \<noteq> []" "file_chunks k (w_db w) \<noteq> []" "file_chunks p (w_db w) \<noteq> []"
    and "cm_ID c = i" "cm_PrevID c = Some p" "cm_ID e = k" "cm_PrevID e = Some p"
  shows "\<exists>w1 w2 irow' krow'. ExecuteEach E c w = (OK (), w1) \<and> ExecuteEach E e w1 = (OK (), w2) \<and>
    file_row i (w_db w2) = Some irow' \<and> file_row k (w_db w2) = Some krow' \<and>
    fm_PrevID irow' = fm_PrevID krow' \<and> fm_CurrentFlag irow' \<and> fm_CurrentFlag krow' \<and>
    fm_EndDate irow' = None \<and> fm_EndDate krow' = None"
proof -
  have fwf: "files_wf (file_metadatas (w_db w))" using assms(5) by (simp add: db_wf_def)
  then have "distinct (map fm_ID (file_metadatas (w_db w)))" by (simp add: files_wf_def)
  note rows = file_row_Some [OF this, THEN iffD1]
  have ids: "fm_ID irow = i" "fm_ID krow = k" "fm_ID prow = p" using rows assms(6,8,10) by simp_all
  have np: "i \<noteq> p" "k \<noteq> p"
    using fwf rows [OF assms(6)] rows [OF assms(8)] assms(7,9) by (auto simp: files_wf_def)
  obtain t ufs w1 where w1: "ExecuteEach E c w = (OK (), w1)" "w_db w1 = reconciled i p StatusCompleted t ufs (w_db w)"
    using ExecuteEach_reconciles [OF assms(1-5,15,16,6,7,10,12,14)] by blast
  let ?pr = "promote i p StatusCompleted t"
  have r1: "file_row k (w_db w1) = Some (?pr krow)" "file_row p (w_db w1) = Some (?pr prow)" "file_row i (w_db w1) = Some (?pr irow)"
    using assms(6,8,10) by (simp_all add: w1(2) file_row_reconciled)
  have "db_wf (w_db w1)" using ExecuteEach_keeps [OF assms(3,4) w1(1) assms(5)] by simp
  moreover have "fm_PrevID (?pr krow) = Some p" using assms(9) by (simp add: promote_def)
  ultimately obtain t2 ufs2 w2 where w2: "ExecuteEach E e w1 = (OK (), w2)"
    "w_db w2 = reconciled k p StatusCompleted t2 ufs2 (w_db w1)"
    using ExecuteEach_reconciles [OF assms(1-4) _ assms(17,18) r1(1) _ r1(2)] assms(13,14)
    by (auto simp: w1(2) file_chunks_reconciled)
  let ?qr = "promote k p StatusCompleted t2"
  have "file_row i (w_db w2) = Some (?qr (?pr irow))" "file_row k (w_db w2) = Some (?qr (?pr krow))"
    using r1 by (simp_all add: w2(2) file_row_reconciled)
  then show ?thesis using w1(1) w2(1) ids np assms(7,9,11) by (simp add: promote_def)
qed

definition row_C :: FileMetadata where
  "row_C = row_B\<lparr>fm_ID := ''C'', fm_FileHash := ''hc''\<rparr>"

definition two_versions :: "mem_redis world" where
  "two_versions = sample_world\<lparr>w_db := sample_db\<lparr>file_metadatas := [row_A, row_B, row_C],
     user_files := user_files sample_db @ [chunk_row ''C'' 0 ''c0'' 1 31]\<rparr>\<rparr>"

theorem ExecuteEach_two_current_witness:
  "\<exists>w1 w2 irow' krow'. ExecuteEach sample_env sample_cache two_versions = (OK (), w1) \<and>
    ExecuteEach sample_env (sample_cache\<lparr>cm_ID := ''C''\<rparr>) w1 = (OK (), w2) \<and>
    file_row ''B'' (w_db w2) = Some irow' \<and> file_row ''C'' (w_db w2) = Some krow' \<and> fm_CurrentFlag irow' \<and> fm_CurrentFlag krow'"
proof -
  have wf: "db_wf (w_db two_versions)"
    by (simp add: two_versions_def db_wf_def files_wf_def sample_defs row_C_def)
  have f: "file_row ''B'' (w_db two_versions) = Some row_B" "file_row ''C'' (w_db two_versions) = Some row_C"
    "file_row ''A'' (w_db two_versions) = Some row_A" "file_chunks ''A'' (w_db two_versions) \<noteq> []"
    "file_chunks ''B'' (w_db two_versions) \<noteq> []" "file_chunks ''C'' (w_db two_versions) \<noteq> []"
    by (simp_all add: two_versions_def file_row_def file_chunks_def sample_defs row_C_def)
  have r: "fm_PrevID row_B = Some ''A''" "fm_PrevID row_C = Some ''A''" "cm_ID sample_cache = ''B''" "cm_PrevID sample_cache = Some ''A''"
    by (simp_all add: row_B_def row_C_def sample_cache_def)
  from ExecuteEach_two_current [OF sample_ok(1-4) wf f(1) r(1) f(2) r(2) f(3) _ f(5,6,4) r(3,4), of "sample_cache\<lparr>cm_ID := ''C''\<rparr>"] r
  show ?thesis by auto
qed

end
