(* ===== verification/Download.thy ===== *)
theory Download
  imports MetadataService Chunks Executor
begin

text \<open>
  \<open>DownloadHandler\<close> (\<open>core/files/download.service.go\<close>), which assembles a file from its chunk
  paths through a Redis cache, the copy loop of the handler \<open>DownloadFile\<close>
  (\<open>web/routes/metadatahandler.go\<close>), which does so without the cache, and the ordered urls they
  start from.
\<close>

subsection \<open>Assembling a file\<close>

text \<open>\<open>os.Open\<close> and \<open>io.Copy\<close> of one path.\<close>

definition read_path :: "'r env \<Rightarrow> string \<Rightarrow> 'r world \<Rightarrow> (goerr + bytes) \<times> 'r world" where
  "read_path E filePath w =
     (case ext_call E w of
        (Some e, w1) \<Rightarrow> (Inl e, w1)
      | (None, w1) \<Rightarrow>
          (case w_fs w1 filePath of
             None \<Rightarrow> (Inl ''no such file or directory'', w1)
           | Some node \<Rightarrow>
               (case ext_call E w1 of
                  (Some e, w2) \<Rightarrow> (Inl e, w2)
                | (None, w2) \<Rightarrow>
                    (case node of FDir \<Rightarrow> (Inl ''is a directory'', w2) | FFile b \<Rightarrow> (Inr b, w2)))))"

fun download_loop :: "'r env \<Rightarrow> string list \<Rightarrow> bytes \<Rightarrow> 'r world \<Rightarrow> bytes res \<times> 'r world" where
  "download_loop E [] buffer w = (OK buffer, w)"
| "download_loop E (filePath # filePaths) buffer w =
     (case RGet (e_redis E) filePath (w_redis w) of
        Some data \<Rightarrow> download_loop E filePaths (buffer @ data) w
      | None \<Rightarrow>
          (case read_path E filePath w of
             (Inl e, w1) \<Rightarrow> (Err e, w1)
           | (Inr data, w1) \<Rightarrow>
               (case SetEx (e_redis E) filePath data (w_redis w1) of
                  (err, r) \<Rightarrow> download_loop E filePaths (buffer @ data) (w1\<lparr>w_redis := r\<rparr>))))"

definition DownloadHandler_Download :: "'r env \<Rightarrow> int \<Rightarrow> string list \<Rightarrow> 'r world \<Rightarrow> bytes res \<times> 'r world" where
  "DownloadHandler_Download E fileSize filePaths w =
     (if fileSize < 0 then (Panic NegativeLen, w) else download_loop E filePaths [] w)"

fun copy_loop :: "'r env \<Rightarrow> string list \<Rightarrow> bytes \<Rightarrow> 'r world \<Rightarrow> bytes res \<times> 'r world" where
  "copy_loop E [] buffer w = (OK buffer, w)"
| "copy_loop E (filePath # downloadUrls) buffer w =
     (case read_path E filePath w of
        (Inl e, w1) \<Rightarrow> (Err e, w1)
      | (Inr data, w1) \<Rightarrow> copy_loop E downloadUrls (buffer @ data) w1)"

definition DownloadFile_buffer :: "'r env \<Rightarrow> int \<Rightarrow> string list \<Rightarrow> 'r world \<Rightarrow> bytes res \<times> 'r world" where
  "DownloadFile_buffer E fileSize downloadUrls w =
     (if fileSize < 0 then (Panic NegativeLen, w) else copy_loop E downloadUrls [] w)"

subsection \<open>The cache\<close>

text \<open>Every cached value is the content of the file whose path is its key.\<close>

definition cache_coherent :: "'r env \<Rightarrow> 'r world \<Rightarrow> bool" where
  "cache_coherent E w \<longleftrightarrow> (\<forall>p v. RGet (e_redis E) p (w_redis w) = Some v \<longrightarrow> w_fs w p = Some (FFile v))"

lemma read_path_run:
  "no_faults E \<Longrightarrow> w_fs w p = Some (FFile b) \<Longrightarrow> read_path E p w = (Inr b, tick (tick w))"
  by (simp add: read_path_def ext_call_def)

lemma read_path_frame:
  "read_path E p w = (r, w') \<Longrightarrow> w_db w' = w_db w \<and> w_redis w' = w_redis w \<and> w_fs w' = w_fs w \<and>
     (\<forall>b. r = Inr b \<longrightarrow> w_fs w p = Some (FFile b))"
  by (auto simp: read_path_def ext_call_def split: option.splits fsnode.splits)

lemma SetEx_coherent:
  assumes "redis_cache (e_redis E)" and "cache_coherent E w" and "w_fs w p = Some (FFile b)"
    and "SetEx (e_redis E) p b (w_redis w) = (err, r)"
  shows "cache_coherent E (w\<lparr>w_redis := r\<rparr>)"
proof -
  have "w_fs w k = Some (FFile v)" if "RGet (e_redis E) k r = Some v" for k v
  proof -
    from assms(1,4) that have "RGet (e_redis E) k (w_redis w) = Some v \<or> k = p \<and> v = b"
      unfolding redis_cache_def by blast
    with assms(2,3) show ?thesis by (auto simp: cache_coherent_def)
  qed
  then show ?thesis by (simp add: cache_coherent_def)
qed

lemma coherent_cong: "w_redis w' = w_redis w \<Longrightarrow> w_fs w' = w_fs w \<Longrightarrow> cache_coherent E w' = cache_coherent E w"
  by (simp add: cache_coherent_def)

lemma download_loop_contents:
  assumes "no_faults E" "redis_cache (e_redis E)"
  shows "cache_coherent E w \<Longrightarrow> \<forall>p \<in> set paths. w_fs w p = Some (FFile (content p)) \<Longrightarrow>
    \<exists>w'. download_loop E paths buffer w = (OK (buffer @ concat (map content paths)), w') \<and>
      w_fs w' = w_fs w \<and> w_db w' = w_db w \<and> cache_coherent E w'"
proof (induction paths arbitrary: buffer w)
  case (Cons p paths)
  show ?case
  proof (cases "RGet (e_redis E) p (w_redis w)")
    case (Some v)
    with Cons.prems have "v = content p" by (simp add: cache_coherent_def)
    with Some Cons.IH [of w "buffer @ content p"] Cons.prems show ?thesis by simp
  next
    case None
    obtain err r where set: "SetEx (e_redis E) p (content p) (w_redis (tick (tick w))) = (err, r)"
      by (cases "SetEx (e_redis E) p (content p) (w_redis (tick (tick w)))")
    have "cache_coherent E (tick (tick w))" using Cons.prems(1) coherent_cong [of "tick (tick w)" w] by simp
    with set Cons.prems(2) have "cache_coherent E ((tick (tick w))\<lparr>w_redis := r\<rparr>)"
      by (intro SetEx_coherent [OF assms(2)]) simp_all
    from Cons.IH [OF this, of "buffer @ content p"] Cons.prems(2) None set show ?thesis
      using read_path_run [OF assms(1), of w p "content p"] by simp
  qed
qed simp

lemma copy_loop_contents:
  assumes "no_faults E"
  shows "\<forall>p \<in> set paths. w_fs w p = Some (FFile (content p)) \<Longrightarrow>
    \<exists>w'. copy_loop E paths buffer w = (OK (buffer @ concat (map content paths)), w') \<and>
      w_fs w' = w_fs w \<and> w_db w' = w_db w \<and> w_redis w' = w_redis w"
proof (induction paths arbitrary: buffer w)
  case (Cons p paths)
  with read_path_run [OF assms, of w p "content p"] Cons.IH [of "tick (tick w)" "buffer @ content p"]
  show ?case by simp
qed simp

text \<open>
  C17.  The cached download returns the chunks' contents in order, and the same bytes as the
  uncached one: if no call fails, every path is a file and the cache agrees with the files, both
  succeed with the concatenation of the files; the cache still agrees afterwards and no table
  and no file changes.
\<close>

theorem Download_contents:
  assumes "no_faults E" "redis_cache (e_redis E)" "cache_coherent E w" and "0 \<le> fileSize"
    and "\<forall>p \<in> set paths. w_fs w p = Some (FFile (content p))"
  shows "\<exists>w' w''. DownloadHandler_Download E fileSize paths w = (OK (concat (map content paths)), w') \<and>
    DownloadFile_buffer E fileSize paths w = (OK (concat (map content paths)), w'') \<and>
    w_fs w' = w_fs w \<and> w_db w' = w_db w \<and> cache_coherent E w' \<and> w_fs w'' = w_fs w \<and> w_db w'' = w_db w"
  using download_loop_contents [OF assms(1-3,5), of "[]"] copy_loop_contents [OF assms(1,5), of "[]"] assms(4)
  by (auto simp: DownloadHandler_Download_def DownloadFile_buffer_def)

definition stored_world :: "mem_redis world" where
  "stored_world = sample_world\<lparr>w_fs := (\<lambda>p. if p = ''/d/A/0'' then Some (FFile ''ab'') else
     if p = ''/d/A/1'' then Some (FFile ''c'') else None),
     w_redis := (\<lambda>q. [], \<lambda>k. if k = ''/d/A/1'' then Some ''c'' else None)\<rparr>"

theorem Download_contents_witness:
  "\<exists>w'. DownloadHandler_Download sample_env 3 [''/d/A/0'', ''/d/A/1''] stored_world = (OK ''abc'', w') \<and>
     cache_coherent sample_env w'"
proof -
  have "cache_coherent sample_env stored_world" "redis_cache (e_redis sample_env)"
    using mem_cache by (simp_all add: cache_coherent_def stored_world_def sample_env_def mem_client_def)
  with Download_contents [OF sample_no_faults, of stored_world 3 "[''/d/A/0'', ''/d/A/1'']"
      "\<lambda>p. if p = ''/d/A/0'' then ''ab'' else ''c''"]
  show ?thesis by (auto simp: stored_world_def)
qed

text \<open>
  C39.  The cache is not told when a chunk is uploaded again: if the path of a chunk is cached, an
  accepted second upload of that chunk with other data leaves the cached bytes in place, and the
  download of the path returns them and not the data now on disk.
\<close>

theorem Download_after_reupload:
  assumes "RGet (e_redis E) (chunk_path d (cr_FileID req) c) (w_redis w) = Some old" and "old \<noteq> cr_Data req"
    and "Atoi (cr_ChunkID req) = (c, None)"
    and "FileChunkService_Create E d req w = (resp, w1)" "rs_Success resp"
    and "w_fs w1 (chunk_path d (cr_FileID req) c) = Some (FFile (cr_Data req))"
  shows "\<exists>w2. DownloadHandler_Download E (int (length (cr_Data req))) [chunk_path d (cr_FileID req) c] w1 = (OK old, w2) \<and>
    \<not> cache_coherent E w1"
proof -
  have "w_redis w1 = w_redis w"
    using assms(4) store_chunk_cases by (fastforce simp: Create_steps split: if_splits)
  with assms(1) have hit: "RGet (e_redis E) (chunk_path d (cr_FileID req) c) (w_redis w1) = Some old" by simp
  moreover from hit assms(2,6) have "\<not> cache_coherent E w1"
    unfolding cache_coherent_def by (metis fsnode.inject option.inject)
  ultimately show ?thesis by (simp add: DownloadHandler_Download_def)
qed

definition cached_world :: "mem_redis world" where
  "cached_world = sample_world\<lparr>w_redis := (\<lambda>q. [], \<lambda>k. if k = ''/data/B/0'' then Some ''old'' else None)\<rparr>"

theorem Download_after_reupload_witness:
  "\<exists>resp w1 w2. FileChunkService_Create sample_env ''/data'' sample_chunk cached_world = (resp, w1) \<and> rs_Success resp \<and>
     DownloadHandler_Download sample_env 2 [''/data/B/0''] w1 = (OK ''old'', w2) \<and>
     w_fs w1 ''/data/B/0'' = Some (FFile ''hi'')"
proof -
  let ?run = "FileChunkService_Create sample_env ''/data'' sample_chunk cached_world"
  have r: "rs_Success (fst ?run)" "w_fs (snd ?run) ''/data/B/0'' = Some (FFile ''hi'')" by code_simp+
  obtain resp w1 where run: "?run = (resp, w1)" by (cases ?run)
  have p: "chunk_path ''/data'' (cr_FileID sample_chunk) 0 = ''/data/B/0''"
    using sample_paths(1) [of 0] sample_chunk_ok(1,6) by simp
  from Download_after_reupload [OF _ _ sample_chunk_ok(4) run, of "''old''"] r run p
  show ?thesis using sample_chunk_ok(2) by (simp add: cached_world_def sample_env_def mem_client_def)
qed


subsection \<open>The ordered urls of a file\<close>

abbreviation entry_id :: "string \<times> FilesWithChunks \<Rightarrow> int" where
  "entry_id q \<equiv> fwc_ChunkID (snd q)"

lemma place_chunks_OK:
  "distinct (map entry_id m) \<Longrightarrow> \<forall>q \<in> set m. 0 \<le> entry_id q \<and> entry_id q < int (length acc) \<Longrightarrow>
     \<exists>urls. place_chunks m acc = OK urls \<and> length urls = length acc \<and>
       (\<forall>q \<in> set m. urls ! nat (entry_id q) = fwc_ChunkBlobUrl (snd q)) \<and>
       (\<forall>c. int c \<notin> entry_id ` set m \<longrightarrow> urls ! c = acc ! c)"
proof (induction m arbitrary: acc)
  case (Cons p m)
  obtain k ch where p: "p = (k, ch)" by (cases p)
  let ?acc = "acc[nat (fwc_ChunkID ch) := fwc_ChunkBlobUrl ch]"
  from Cons.prems p have r: "0 \<le> fwc_ChunkID ch" "fwc_ChunkID ch < int (length acc)" by auto
  from Cons.IH [of ?acc] Cons.prems obtain urls where u: "place_chunks m ?acc = OK urls" "length urls = length acc"
    "\<forall>q \<in> set m. urls ! nat (entry_id q) = fwc_ChunkBlobUrl (snd q)"
    "\<forall>c. int c \<notin> entry_id ` set m \<longrightarrow> urls ! c = ?acc ! c" by auto
  have "fwc_ChunkID ch \<notin> entry_id ` set m" using Cons.prems(1) p by simp
  then have "urls ! nat (fwc_ChunkID ch) = fwc_ChunkBlobUrl ch" using u(4) r by (simp add: nat_less_iff)
  moreover have "urls ! c = acc ! c" if "int c \<notin> entry_id ` set (p # m)" for c
    using u(4) that p r by (auto simp: nth_list_update)
  ultimately show ?case using p r u by (auto simp del: One_nat_def)
qed simp

lemma place_chunks_panic:
  "q \<in> set m \<Longrightarrow> \<not> (0 \<le> entry_id q \<and> entry_id q < int (length acc)) \<Longrightarrow> place_chunks m acc = Panic IndexOutOfRange"
  by (induction m acc rule: place_chunks.induct) auto

lemma entries_distinct:
  assumes "map_wf m" and "\<forall>q \<in> set m. fst q = fmt_d (entry_id q)"
  shows "distinct (map entry_id m)"
proof -
  have "map fst m = map fmt_d (map entry_id m)" using assms(2) by (simp add: map_eq_conv)
  with assms(1) show ?thesis using distinct_map [of fmt_d "map entry_id m"] by metis
qed

lemma single_file:
  assumes "\<forall>r \<in> set rows. fwc_ID r = i" and "rows \<noteq> []"
  shows "group_files rows = [group_of rows i]" and "find_last i (group_files rows) = Some (group_of rows i)"
proof -
  have "set (file_ids rows) = {i}" using assms by (cases rows) auto
  then have "file_ids rows = [i]"
    using distinct_file_ids [of rows] by (cases "file_ids rows" rule: remdups_adj.cases) auto
  then show g: "group_files rows = [group_of rows i]" by (simp add: group_files_def)
  have "fi_ID (group_of rows i) = i" using assms by (intro group_of_ID) (cases rows; auto)
  then show "find_last i (group_files rows) = Some (group_of rows i)" by (simp add: g find_last_def)
qed

lemma group_entries:
  assumes "q \<in> set (fi_Chunks (group_of rows i))"
  shows "snd q \<in> set (rows_of rows i)" and "fst q = fmt_d (entry_id q)"
proof -
  have "map_of (fi_Chunks (group_of rows i)) (fst q) = Some (snd q)"
    using assms group_of_wf [of rows i] by simp
  from group_of_chunk_Some [OF this] show "snd q \<in> set (rows_of rows i)" "fst q = fmt_d (entry_id q)"
    by (auto simp: version_str_def)
qed

lemma group_has_entry:
  assumes "r \<in> set (rows_of rows i)"
  shows "\<exists>q \<in> set (fi_Chunks (group_of rows i)). entry_id q = fwc_ChunkID r"
proof -
  have "map_of (fi_Chunks (group_of rows i)) (version_str r) \<noteq> None"
    using assms by (simp add: group_of_chunk_None)
  then obtain v where v: "map_of (fi_Chunks (group_of rows i)) (version_str r) = Some v" by blast
  from group_of_chunk_Some [OF v] have "fwc_ChunkID v = fwc_ChunkID r" by (simp add: version_str_def fmt_d_inj)
  with map_of_SomeD [OF v] show ?thesis by force
qed


lemma ListOrdered_reads:
  assumes "no_faults E" "stmts_loaded E" "sql_order_ok E" and "files_wf (file_metadatas (w_db w))"
    and "file_row i (w_db w) = Some row" "file_chunks i (w_db w) \<noteq> []"
  defines "info \<equiv> group_of (selected E (w_tick w) [i] (w_db w)) i"
  shows "MetadataService_ListOrderedFileChunks E i u w =
    (if fm_UserID row \<noteq> u then (Err ''file_corrupted:2045:500'', tick w)
     else if fm_NChunks row < 0 then (Panic NegativeLen, tick w)
     else (res_map (\<lambda>chunks. (chunks, info)) (place_chunks (e_range E (Suc (w_tick w)) (fi_Chunks info))
        (replicate (nat (fm_NChunks row)) [])), tick w))"
proof -
  let ?rows = "selected E (w_tick w) [i] (w_db w)"
  have ids: "\<forall>r \<in> set ?rows. fwc_ID r = i" using selected_subset [OF assms(3), of "w_tick w" "[i]"] by auto
  then have "rows_of ?rows i = ?rows" by (simp add: rows_of_def)
  with selected_rows_of [OF assms(3-5), of "[i]" "w_tick w"]
  have rows: "set ?rows = (\<lambda>v. scan_select (row, v)) ` set (file_chunks i (w_db w))" by simp
  with assms(6) have ne: "?rows \<noteq> []" by auto
  have filt: "rho_Filter ?rows (\<lambda>chunk _. fwc_UserID chunk = u) = (if fm_UserID row = u then ?rows else [])"
    unfolding rho_Filter_filter using rows by (auto simp: filter_empty_conv filter_id_conv)
  have n: "fi_NChunks info = fm_NChunks row"
    unfolding info_def by (rule group_of_fields(2) [OF assms(3-5)]) (simp_all add: assms(6))
  show ?thesis
    using SelectFiles_run [OF assms(1,2), of "[i]" w] single_file [OF ids ne] n
    by (auto simp: MetadataService_ListOrderedFileChunks_def filt Build_group info_def [symmetric] group_files_def
        file_ids_def)
qed

text \<open>The entries that the loop ranges over: one per chunk number that was uploaded.\<close>

definition ranged :: "'r env \<Rightarrow> string \<Rightarrow> 'r world \<Rightarrow> FilesWithChunks gomap" where
  "ranged E i w = e_range E (Suc (w_tick w)) (fi_Chunks (group_of (selected E (w_tick w) [i] (w_db w)) i))"

lemma ranged_entries:
  assumes "sql_order_ok E" "range_ok E" and "files_wf (file_metadatas (w_db w))" "file_row i (w_db w) = Some row"
  shows "entry_id ` set (ranged E i w) = chunk_ids i (w_db w)" and "distinct (map entry_id (ranged E i w))"
    and "\<forall>q \<in> set (ranged E i w). \<exists>v \<in> set (file_chunks i (w_db w)). snd q = scan_select (row, v)"
proof -
  let ?rows = "selected E (w_tick w) [i] (w_db w)" and ?m = "ranged E i w"
  have m: "mset ?m = mset (fi_Chunks (group_of ?rows i))" using assms(2) by (simp add: range_ok_def ranged_def)
  then have setm: "set ?m = set (fi_Chunks (group_of ?rows i))" by (rule set_perm)
  have wfm: "map_wf ?m" using m group_of_wf [of ?rows i] mset_eq_imp_distinct_iff mset_map by metis
  have rows: "set (rows_of ?rows i) = (\<lambda>v. scan_select (row, v)) ` set (file_chunks i (w_db w))"
    using selected_rows_of [OF assms(1,3,4)] by simp
  have ent: "\<exists>v \<in> set (file_chunks i (w_db w)). snd q = scan_select (row, v)" "fst q = fmt_d (entry_id q)"
    if "q \<in> set ?m" for q
    using group_entries [of q ?rows i] that setm rows by auto
  then show "\<forall>q \<in> set ?m. \<exists>v \<in> set (file_chunks i (w_db w)). snd q = scan_select (row, v)" by blast
  show "distinct (map entry_id ?m)" using ent(2) by (intro entries_distinct [OF wfm]) blast
  have "c \<in> entry_id ` set ?m" if c: "c \<in> chunk_ids i (w_db w)" for c
  proof -
    from c obtain v where "scan_select (row, v) \<in> set (rows_of ?rows i)" "c = uf_ChunkID v"
      unfolding chunk_ids_def rows by blast
    with group_has_entry [of "scan_select (row, v)" ?rows i] show ?thesis unfolding setm by force
  qed
  moreover have "entry_id ` set ?m \<subseteq> chunk_ids i (w_db w)" using ent(1) by (fastforce simp: chunk_ids_def)
  ultimately show "entry_id ` set ?m = chunk_ids i (w_db w)" by blast
qed

lemma ListOrdered_outside:
  assumes "no_faults E" "stmts_loaded E" "sql_order_ok E" "range_ok E" and "db_wf (w_db w)"
    and "file_row i (w_db w) = Some row" "file_chunks i (w_db w) \<noteq> []"
    and "fm_UserID row = u" "0 \<le> fm_NChunks row" "\<exists>c \<in> chunk_ids i (w_db w). c < 0 \<or> fm_NChunks row \<le> c"
  shows "\<exists>p. fst (MetadataService_ListOrderedFileChunks E i u w) = Panic p"
proof -
  let ?acc = "replicate (nat (fm_NChunks row)) ([] :: string)"
  have fwf: "files_wf (file_metadatas (w_db w))" using assms(5) by (simp add: db_wf_def)
  note run = ListOrdered_reads [OF assms(1-3) fwf assms(6,7), of u]
  from assms(9,10) obtain q where "q \<in> set (ranged E i w)" "\<not> (0 \<le> entry_id q \<and> entry_id q < int (length ?acc))"
    unfolding ranged_entries(1) [OF assms(3,4) fwf assms(6), symmetric] by fastforce
  from place_chunks_panic [OF this] assms(8,9) show ?thesis by (simp add: run res_map_def ranged_def)
qed

lemma ListOrdered_inside:
  assumes "no_faults E" "stmts_loaded E" "sql_order_ok E" "range_ok E" and "db_wf (w_db w)"
    and "file_row i (w_db w) = Some row" "file_chunks i (w_db w) \<noteq> []"
    and "fm_UserID row = u" "0 \<le> fm_NChunks row" "\<forall>c \<in> chunk_ids i (w_db w). 0 \<le> c \<and> c < fm_NChunks row"
  shows "\<exists>urls info. MetadataService_ListOrderedFileChunks E i u w = (OK (urls, info), tick w) \<and>
      fi_ID info = i \<and> fi_Size info = fm_FileSize row \<and> int (length urls) = fm_NChunks row \<and>
      (\<forall>c < length urls. if int c \<in> chunk_ids i (w_db w)
         then \<exists>v \<in> set (file_chunks i (w_db w)). uf_ChunkID v = int c \<and> urls ! c = uf_ChunkBlobUrl v
         else urls ! c = [])"
proof -
  let ?m = "ranged E i w" and ?acc = "replicate (nat (fm_NChunks row)) ([] :: string)"
  let ?info = "group_of (selected E (w_tick w) [i] (w_db w)) i"
  have fwf: "files_wf (file_metadatas (w_db w))" using assms(5) by (simp add: db_wf_def)
  note run = ListOrdered_reads [OF assms(1-3) fwf assms(6,7), of u]
  note ent = ranged_entries [OF assms(3,4) fwf assms(6)]
  have "\<forall>q \<in> set ?m. 0 \<le> entry_id q \<and> entry_id q < int (length ?acc)"
    using assms(9,10) unfolding ent(1) [symmetric] by simp
  from place_chunks_OK [OF ent(2) this] obtain urls where u: "place_chunks ?m ?acc = OK urls" "length urls = length ?acc"
    "\<forall>q \<in> set ?m. urls ! nat (entry_id q) = fwc_ChunkBlobUrl (snd q)"
    "\<forall>c. int c \<notin> chunk_ids i (w_db w) \<longrightarrow> urls ! c = ?acc ! c"
    unfolding ent(1) by blast
  have "\<exists>v \<in> set (file_chunks i (w_db w)). uf_ChunkID v = int c \<and> urls ! c = uf_ChunkBlobUrl v"
    if "int c \<in> chunk_ids i (w_db w)" for c
  proof -
    from that obtain q where q: "q \<in> set ?m" "entry_id q = int c" unfolding ent(1) [symmetric] by auto
    from bspec [OF ent(3) q(1)] u(3) q show ?thesis by fastforce
  qed
  moreover have "urls ! c = []" if "c < length urls" "int c \<notin> chunk_ids i (w_db w)" for c
    using u(2,4) that by simp
  moreover have "fi_ID ?info = i" "fi_Size ?info = fm_FileSize row"
    using group_of_fields [OF assms(3) fwf assms(6) _ assms(7), of "[i]" "w_tick w"] by simp_all
  moreover have "MetadataService_ListOrderedFileChunks E i u w = (OK (urls, ?info), tick w)"
    using assms(8,9) u(1) by (simp add: run res_map_def ranged_def)
  ultimately show ?thesis using assms(9) u(2) by auto
qed




end
