(* ===== verification/Uploads.thy ===== *)
theory Uploads
  imports MetadataService Executor
begin

text \<open>
  What the operations of \<open>MetadataService\<close> do to the tables and the queue: registering a file or
  a version stores its row and its stream token together or not at all, the token it returns is
  accepted for that file, and the end of an upload puts one message on the update queue.
\<close>

subsection \<open>Lookups\<close>

lemma FindBy_cases:
  "MetadataRepository_FindBy E cl w = (r, w') \<Longrightarrow>
     w_db w' = w_db w \<and> w_redis w' = w_redis w \<and> w_fs w' = w_fs w \<and>
     (r = OK (filter (where_holds cl) (file_metadatas (w_db w))) \<or> (\<exists>e. r = Err e))"
  by (auto simp: MetadataRepository_FindBy_def ext_call_def split: option.splits if_splits)

lemma FindBy_run:
  "no_faults E \<Longrightarrow> stmts_loaded E \<Longrightarrow> cl \<noteq> [] \<Longrightarrow> where_wf cl \<Longrightarrow> where_bound cl \<Longrightarrow>
     fst (MetadataRepository_FindBy E cl w) = OK (filter (where_holds cl) (file_metadatas (w_db w)))"
  using stmts_loadedD(6) [of E] by (auto simp: MetadataRepository_FindBy_def ext_call_def)

lemma where_id:
  "where_holds [clause_eq ''id'' i] = (\<lambda>row. fm_ID row = i)"
  "where_wf [clause_eq ''id'' i]" "where_bound [clause_eq ''id'' i]"
  by (auto simp: fun_eq_iff clause_eq_def where_wf_def where_bound_def where_holds_def clause_holds_def
      FindClause_Args_def sql_op_def fm_column_def)

lemma where_uploading:
  "where_holds [clause_eq ''id'' i, clause_eq ''upload_status'' s] = (\<lambda>row. fm_ID row = i \<and> fm_UploadStaus row = s)"
  "where_wf [clause_eq ''id'' i, clause_eq ''upload_status'' s]"
  "where_bound [clause_eq ''id'' i, clause_eq ''upload_status'' s]"
  by (auto simp: fun_eq_iff clause_eq_def where_wf_def where_bound_def where_holds_def clause_holds_def
      FindClause_Args_def sql_op_def fm_column_def)

subsection \<open>Issuing a stream token\<close>

text \<open>\<open>t\<close> is a stream token of the file \<open>m\<close> and its user that expires a day after some reading
  of the clock.\<close>

definition stream_token_for :: "'r env \<Rightarrow> FileMetadata \<Rightarrow> Token \<Rightarrow> bool" where
  "stream_token_for E m t \<longleftrightarrow> tk_ResourceID t = fm_ID m \<and> tk_ResouceType t = ''stream'' \<and>
     tk_UserID t = Some (fm_UserID m) \<and> tk_DeviceID t = [] \<and>
     (\<exists>n. tk_AccessExpiresAt t = e_clock E n + AccessExpiryDuration)"

text \<open>The ULID and random sources deliver.\<close>

definition sources_ok :: "'r env \<Rightarrow> bool" where
  "sources_ok E \<longleftrightarrow> (\<forall>n. \<exists>i. e_ulid E n = Inr i) \<and> (\<forall>n k. \<exists>b. e_rand E n k = Inr b)"

lemma NewToken_run:
  "sources_ok E \<Longrightarrow> \<exists>t w'. NewToken E fid ResourceTypeStream [WithDefaultExpiry, WithUserID u] w = (OK t, w')"
  unfolding sources_ok_def
  by (auto simp: NewToken_def Let_def ValidateResourceType_def GenerateToken_def Now_def NewTimestamp_def
      WithDefaultExpiry_def WithUserID_def split: sum.splits) (metis Inl_Inr_False)+

lemma CreateMetadataToken_no_panic:
  "fst (MetadataTokenRepository_CreateMetadataToken E m t w) \<noteq> Panic p"
  by (auto simp: MetadataTokenRepository_CreateMetadataToken_def tx_commit_def ext_call_def
      split: option.splits prod.splits)

lemma issue_token_outcome:
  assumes "issue_token E m e1 e2 answer w = (r, w')"
  shows "w_redis w' = w_redis w \<and> w_fs w' = w_fs w \<and>
    ((\<exists>t. r = OK (BuildResponse None (Some (answer t))) \<and> stream_token_for E m t \<and>
        w_db w' = sql_CreateToken t (sql_CreateFileMetadata m (w_db w))) \<or>
     (\<exists>e. r = OK (BuildResponse (Some e) None) \<and> w_db w' = w_db w))"
proof -
  obtain x w1 where x: "NewToken E (fm_ID m) ResourceTypeStream
      [WithDefaultExpiry, WithUserID (Some (fm_UserID m))] w = (x, w1)"
    by (cases "NewToken E (fm_ID m) ResourceTypeStream [WithDefaultExpiry, WithUserID (Some (fm_UserID m))] w")
  note nt = NewToken_stream [OF x]
  show ?thesis
  proof (cases x)
    case (OK t)
    with nt have t: "stream_token_for E m t" by (simp add: stream_token_for_def)
    obtain y w2 where y: "MetadataTokenRepository_CreateMetadataToken E m t w1 = (y, w2)"
      by (cases "MetadataTokenRepository_CreateMetadataToken E m t w1")
    note out = CreateMetadataToken_outcome [OF y]
    show ?thesis
      using assms x y OK nt out t CreateMetadataToken_no_panic [of E m t w1]
      by (cases y) (auto simp: issue_token_def tx_outcome_def)
  next
    case (Err e)
    with assms x nt show ?thesis by (auto simp: issue_token_def)
  next
    case (Panic p)
    with nt show ?thesis by simp
  qed
qed

lemma issue_token_run:
  assumes "no_faults E" "stmts_loaded E" "sources_ok E"
  shows "\<exists>t w'. issue_token E m e1 e2 answer w = (OK (BuildResponse None (Some (answer t))), w') \<and>
    stream_token_for E m t \<and> w_db w' = sql_CreateToken t (sql_CreateFileMetadata m (w_db w)) \<and>
    w_redis w' = w_redis w \<and> w_fs w' = w_fs w"
proof -
  obtain t w1 where t: "NewToken E (fm_ID m) ResourceTypeStream
      [WithDefaultExpiry, WithUserID (Some (fm_UserID m))] w = (OK t, w1)"
    using NewToken_run [OF assms(3)] by blast
  from cmt.total_success [OF assms(1,2), of "(m, t)" w1] obtain w2 where
    "MetadataTokenRepository_CreateMetadataToken E m t w1 = (OK (), w2)" by (auto simp: create_token_op_def)
  with t have run: "issue_token E m e1 e2 answer w = (OK (BuildResponse None (Some (answer t))), w2)"
    by (simp add: issue_token_def)
  from NewToken_stream [OF t] have "stream_token_for E m t" by (simp add: stream_token_for_def)
  moreover from issue_token_outcome [OF run] have "w_redis w2 = w_redis w" "w_fs w2 = w_fs w" by auto
  moreover from NewToken_stream [OF t] CreateMetadataToken_outcome
      [OF \<open>MetadataTokenRepository_CreateMetadataToken E m t w1 = (OK (), w2)\<close>]
  have "w_db w2 = sql_CreateToken t (sql_CreateFileMetadata m (w_db w))" by (simp add: tx_outcome_def)
  ultimately show ?thesis using run by blast
qed


subsection \<open>Registering a file\<close>

text \<open>\<open>m\<close> is the row of a file requested by \<open>req\<close>: not current, without predecessor.\<close>

definition first_row :: "MetadataRequest \<Rightarrow> FileMetadata \<Rightarrow> bool" where
  "first_row req m \<longleftrightarrow> fm_UserID m = mr_UserID req \<and> fm_Filename m = mr_FileName req \<and>
     fm_FileSize m = mr_FileSize req \<and> fm_FileType m = mr_FileType req \<and> fm_FileHash m = mr_Digest req \<and>
     fm_NChunks m = mr_Chunks req \<and> mr_Chunks req = CalculateChunks (mr_FileSize req) \<and>
     fm_UploadStaus m = mr_UploadStatus req \<and> \<not> fm_CurrentFlag m \<and> fm_PrevID m = None \<and> fm_EndDate m = None"

text \<open>The tables after \<open>m\<close> and its token \<open>t\<close> were stored, and the response \<open>a\<close> that names them.\<close>

definition stored :: "'r env \<Rightarrow> FileMetadata \<Rightarrow> Token \<Rightarrow> MetadataTokenResponse \<Rightarrow> db \<Rightarrow> db \<Rightarrow> bool" where
  "stored E m t a d d' \<longleftrightarrow> d' = sql_CreateToken t (sql_CreateFileMetadata m d) \<and> stream_token_for E m t \<and>
     (\<exists>n. e_ulid E n = Inr (fm_ID m)) \<and>
     mt_StreamToken a = tk_AccessToken t \<and> mt_FileID a = fm_ID m \<and> mt_PrevID a = fm_PrevID m \<and>
     mt_ExpiresIn a = ShortExpiryDuration"

definition names_stored :: "FileMetadata \<Rightarrow> (Token \<Rightarrow> MetadataTokenResponse) \<Rightarrow> bool" where
  "names_stored m answer \<longleftrightarrow> (\<forall>t. mt_StreamToken (answer t) = tk_AccessToken t \<and> mt_FileID (answer t) = fm_ID m \<and>
     mt_PrevID (answer t) = fm_PrevID m \<and> mt_ExpiresIn (answer t) = ShortExpiryDuration)"

lemma issue_stored:
  assumes "issue_token E m e1 e2 answer w = (r, w')" and "e_ulid E n = Inr (fm_ID m)" and "names_stored m answer"
  shows "w_redis w' = w_redis w \<and> w_fs w' = w_fs w \<and>
    ((\<exists>t a. r = OK (BuildResponse None (Some a)) \<and> stored E m t a (w_db w) (w_db w')) \<or>
     (\<exists>e. r = OK (BuildResponse (Some e) None) \<and> w_db w' = w_db w))"
  using issue_token_outcome [OF assms(1)] assms(2,3) by (fastforce simp: stored_def names_stored_def)

lemma issue_stored_run:
  assumes "no_faults E" "stmts_loaded E" "sources_ok E" and "e_ulid E n = Inr (fm_ID m)" and "names_stored m answer"
  shows "\<exists>t a w'. issue_token E m e1 e2 answer w = (OK (BuildResponse None (Some a)), w') \<and>
    stored E m t a (w_db w) (w_db w')"
  using issue_token_run [OF assms(1-3), of m e1 e2 answer w] assms(4,5) by (fastforce simp: stored_def names_stored_def)

lemma FindByHash_cases:
  "MetadataRepository_FindByHash E h w = (q, w') \<Longrightarrow>
     w_db w' = w_db w \<and> w_redis w' = w_redis w \<and> w_fs w' = w_fs w"
  by (auto simp: MetadataRepository_FindByHash_def go_simps split: option.splits)

lemma FindByHash_run:
  "no_faults E \<Longrightarrow> stmts_loaded E \<Longrightarrow>
     fst (MetadataRepository_FindByHash E h w) =
       (0 < sql_FindByHash h (w_db w), if 0 < sql_FindByHash h (w_db w) then Some ErrDuplicateFile else None)"
  using stmts_loadedD(4) [of E]
  by (auto simp: MetadataRepository_FindByHash_def go_simps)

lemma NewID_cases:
  "NewID E w = (r, w') \<Longrightarrow> w' = tick w \<and> ((\<exists>i. r = OK i \<and> e_ulid E (w_tick w) = Inr i) \<or> (\<exists>e. r = Err e))"
  by (auto simp: NewID_def split: sum.splits)

lemma NewTimestamp_frame:
  "NewTimestamp E w = (st, w') \<Longrightarrow> w_db w' = w_db w \<and> w_redis w' = w_redis w \<and> w_fs w' = w_fs w"
  by (auto simp: NewTimestamp_def Now_def)

text \<open>The row and the response that \<open>PrepareFileForUpload\<close> builds.\<close>

definition prep_row :: "MetadataRequest \<Rightarrow> string \<Rightarrow> Timestamp \<Rightarrow> FileMetadata" where
  "prep_row req i st = \<lparr>fm_ID = i, fm_UserID = mr_UserID req, fm_Filename = mr_FileName req,
     fm_FileSize = mr_FileSize req, fm_FileType = mr_FileType req, fm_FileHash = mr_Digest req,
     fm_NChunks = mr_Chunks req, fm_CurrentFlag = False, fm_UploadStaus = mr_UploadStatus req,
     fm_PrevID = None, fm_EndDate = None, fm_Timestamp = st\<rparr>"

definition prep_answer :: "MetadataRequest \<Rightarrow> string \<Rightarrow> Token \<Rightarrow> MetadataTokenResponse" where
  "prep_answer req i token = \<lparr>mt_AccessToken = [], mt_StreamToken = tk_AccessToken token, mt_PrevID = None,
     mt_FileID = i, mt_FileType = mr_FileType req, mt_Digest = mr_Digest req,
     mt_UploadStatus = StatusUploading, mt_CreatedAt = ts_CreatedAt (tk_Timestamp token),
     mt_ExpiresIn = ShortExpiryDuration\<rparr>"

lemma prep_row_ok:
  "mr_Chunks req = CalculateChunks (mr_FileSize req) \<Longrightarrow> first_row req (prep_row req i st)"
  "names_stored (prep_row req i st) (prep_answer req i)" "fm_ID (prep_row req i st) = i"
  by (simp_all add: first_row_def prep_row_def prep_answer_def names_stored_def)

lemma Prepare_issues:
  assumes "MetadataRepository_FindByHash E (mr_Digest req) w = ((found, None), w1)"
    and "NewID E w1 = (OK i, w2)" "NewTimestamp E w2 = (st, w3)"
    and "CalculateChunks (mr_FileSize req) = mr_Chunks req"
  shows "MetadataService_PrepareFileForUpload E req w =
    issue_token E (prep_row req i st) ''internal_server_error:2010:500'' ''internal_server_error:2011:500''
      (prep_answer req i) w3"
  using assms by (simp add: MetadataService_PrepareFileForUpload_def Let_def prep_row_def prep_answer_def [abs_def])

lemma Prepare_outcome:
  assumes "MetadataService_PrepareFileForUpload E req w = (r, w')"
  shows "w_redis w' = w_redis w \<and> w_fs w' = w_fs w \<and>
    ((\<exists>m t a. r = OK (BuildResponse None (Some a)) \<and> first_row req m \<and> stored E m t a (w_db w) (w_db w')) \<or>
     (\<exists>e. r = OK (BuildResponse (Some e) None) \<and> w_db w' = w_db w))"
proof -
  obtain found err w1 where h: "MetadataRepository_FindByHash E (mr_Digest req) w = ((found, err), w1)"
    by (metis prod.collapse)
  note fr1 = FindByHash_cases [OF h]
  obtain x w2 where x: "NewID E w1 = (x, w2)" by (cases "NewID E w1")
  note nid = NewID_cases [OF x]
  obtain st w3 where st: "NewTimestamp E w2 = (st, w3)" by (cases "NewTimestamp E w2")
  note fr3 = NewTimestamp_frame [OF st]
  show ?thesis
  proof (cases "err = None \<and> CalculateChunks (mr_FileSize req) = mr_Chunks req \<and> (\<exists>i. x = OK i)")
    case True
    then obtain i where i: "x = OK i" by blast
    with nid have u: "e_ulid E (w_tick w1) = Inr (fm_ID (prep_row req i st))" by (simp add: prep_row_ok)
    from True h x i st assms
    have "issue_token E (prep_row req i st) ''internal_server_error:2010:500'' ''internal_server_error:2011:500''
      (prep_answer req i) w3 = (r, w')" using Prepare_issues by metis
    from issue_stored [OF this u prep_row_ok(2)] prep_row_ok(1) [of req i st] True fr1 fr3 nid
    show ?thesis by auto
  next
    case False
    with assms h x nid have "(\<exists>e. r = OK (BuildResponse (Some e) None)) \<and> (w' = w1 \<or> w' = w2)"
      by (auto simp: MetadataService_PrepareFileForUpload_def Let_def split: option.splits if_splits)
    with fr1 nid show ?thesis by auto
  qed
qed


text \<open>
  C12.  Registering a file, when no call fails: a digest already in the table is refused as a
  duplicate, a chunk count other than \<open>CalculateChunks\<close> of the size is refused, and every other
  request succeeds, storing exactly one row for the requested file (not current, uploaded chunks
  still to come) together with exactly one stream token for it, and answering with both.
\<close>

theorem PrepareFileForUpload_total:
  assumes "no_faults E" "stmts_loaded E" "sources_ok E"
  shows "\<exists>resp w'. MetadataService_PrepareFileForUpload E req w = (OK resp, w') \<and>
    (if mr_Digest req \<in> fm_FileHash ` set (file_metadatas (w_db w))
     then resp = BuildResponse (Some ''duplicate:2014:422'') None \<and> w_db w' = w_db w
     else if mr_Chunks req \<noteq> CalculateChunks (mr_FileSize req)
     then resp = BuildResponse (Some ''chunks_size_invalid:2005:422'') None \<and> w_db w' = w_db w
     else \<exists>m t a. resp = BuildResponse None (Some a) \<and> first_row req m \<and> stored E m t a (w_db w) (w_db w'))"
proof -
  let ?dup = "mr_Digest req \<in> fm_FileHash ` set (file_metadatas (w_db w))"
  obtain found err w1 where h: "MetadataRepository_FindByHash E (mr_Digest req) w = ((found, err), w1)"
    by (metis prod.collapse)
  have dup: "0 < sql_FindByHash (mr_Digest req) (w_db w) \<longleftrightarrow> ?dup"
    by (auto simp: sql_FindByHash_def filter_empty_conv image_iff eq_commute [of "mr_Digest req"])
  with FindByHash_run [OF assms(1,2), of "mr_Digest req" w] h
  have err: "err = (if ?dup then Some ErrDuplicateFile else None)" by simp
  note fr1 = FindByHash_cases [OF h]
  obtain i where i: "NewID E w1 = (OK i, tick w1)" "e_ulid E (w_tick w1) = Inr i"
    using assms(3) by (auto simp: NewID_def sources_ok_def) (metis sum.simps(6))
  obtain st w3 where st: "NewTimestamp E (tick w1) = (st, w3)" by (cases "NewTimestamp E (tick w1)")
  note fr3 = NewTimestamp_frame [OF st]
  show ?thesis
  proof (cases "?dup \<or> mr_Chunks req \<noteq> CalculateChunks (mr_FileSize req)")
    case True
    with h err i fr1 show ?thesis by (auto simp: MetadataService_PrepareFileForUpload_def Let_def)
  next
    case False
    then have run: "MetadataService_PrepareFileForUpload E req w =
        issue_token E (prep_row req i st) ''internal_server_error:2010:500'' ''internal_server_error:2011:500''
          (prep_answer req i) w3"
      using h err i st by (intro Prepare_issues) auto
    from False have "first_row req (prep_row req i st)" by (simp add: prep_row_ok)
    moreover have "e_ulid E (w_tick w1) = Inr (fm_ID (prep_row req i st))" using i by (simp add: prep_row_ok)
    from issue_stored_run [OF assms this prep_row_ok(2)] run fr1 fr3 obtain t a w' where
      "MetadataService_PrepareFileForUpload E req w = (OK (BuildResponse None (Some a)), w')"
      "stored E (prep_row req i st) t a (w_db w) (w_db w')" by auto metis
    ultimately show ?thesis using False by auto
  qed
qed

definition sample_request :: MetadataRequest where
  "sample_request = \<lparr>mr_UserID = ''U1'', mr_FileName = ''g'', mr_FileType = ''t'', mr_FileSize = 5000000,
     mr_Digest = ''hg'', mr_UploadStatus = StatusUploading, mr_Chunks = 2, mr_AccessToken = []\<rparr>"

lemma sample_sources: "sources_ok sample_env"
  by (simp add: sources_ok_def sample_env_def)

theorem PrepareFileForUpload_total_witness:
  "\<exists>m t a w'. MetadataService_PrepareFileForUpload sample_env sample_request sample_world =
       (OK (BuildResponse None (Some a)), w') \<and>
     stored sample_env m t a sample_db (w_db w') \<and> fm_Filename m = ''g'' \<and> fm_NChunks m = 2"
proof -
  have c: "CalculateChunks (mr_FileSize sample_request) = mr_Chunks sample_request"
    by (simp add: sample_request_def CalculateChunks_exact FrontendChunkSize_def)
  have d: "mr_Digest sample_request \<notin> fm_FileHash ` set (file_metadatas (w_db sample_world))"
    by (simp add: sample_request_def sample_defs)
  have w: "w_db sample_world = sample_db" by (simp add: sample_world_def)
  have m: "first_row sample_request m \<Longrightarrow> fm_Filename m = ''g'' \<and> fm_NChunks m = 2" for m
    by (simp add: first_row_def sample_request_def)
  from PrepareFileForUpload_total [OF sample_no_faults sample_stmts sample_sources, of sample_request sample_world]
  obtain m t a w' where "MetadataService_PrepareFileForUpload sample_env sample_request sample_world =
       (OK (BuildResponse None (Some a)), w')" "first_row sample_request m"
     "stored sample_env m t a sample_db (w_db w')"
    using c d by (auto simp: w)
  with m show ?thesis by blast
qed


subsection \<open>Registering a version\<close>

text \<open>\<open>m\<close> is the row of a new version of the file \<open>prev\<close> requested by \<open>req\<close>.\<close>

definition version_row :: "FileUpdateMetadataRequest \<Rightarrow> FileMetadata \<Rightarrow> FileMetadata \<Rightarrow> bool" where
  "version_row req prev m \<longleftrightarrow> fm_PrevID m = Some (fm_ID prev) \<and> fm_ID prev = ur_FileID req \<and>
     fm_UserID m = ur_UserID req \<and> fm_Filename m = fm_Filename prev \<and> fm_FileType m = fm_FileType prev \<and>
     fm_FileSize m = ur_FileSize req \<and> fm_FileHash m = ur_Digest req \<and> ur_Digest req \<noteq> fm_FileHash prev \<and>
     fm_NChunks m = ur_Chunks req \<and> ur_Chunks req = CalculateChunks (ur_FileSize req) \<and>
     fm_UploadStaus m = StatusUploading \<and> \<not> fm_CurrentFlag m \<and> fm_EndDate m = None"

definition upd_row :: "FileUpdateMetadataRequest \<Rightarrow> FileMetadata \<Rightarrow> string \<Rightarrow> Timestamp \<Rightarrow> FileMetadata" where
  "upd_row req prev i st = \<lparr>fm_ID = i, fm_UserID = ur_UserID req, fm_Filename = fm_Filename prev,
     fm_FileSize = ur_FileSize req, fm_FileType = fm_FileType prev, fm_FileHash = ur_Digest req,
     fm_NChunks = ur_Chunks req, fm_CurrentFlag = False, fm_UploadStaus = StatusUploading,
     fm_PrevID = Some (ur_FileID req), fm_EndDate = None, fm_Timestamp = st\<rparr>"

definition upd_answer :: "FileUpdateMetadataRequest \<Rightarrow> string \<Rightarrow> Token \<Rightarrow> MetadataTokenResponse" where
  "upd_answer req i token = \<lparr>mt_AccessToken = [], mt_StreamToken = tk_AccessToken token,
     mt_PrevID = Some (ur_FileID req), mt_FileID = i, mt_FileType = [], mt_Digest = [],
     mt_UploadStatus = StatusUploading, mt_CreatedAt = ts_CreatedAt (tk_Timestamp token),
     mt_ExpiresIn = ShortExpiryDuration\<rparr>"

lemma upd_row_ok:
  "fm_ID prev = ur_FileID req \<Longrightarrow> ur_Chunks req = CalculateChunks (ur_FileSize req) \<Longrightarrow>
     ur_Digest req \<noteq> fm_FileHash prev \<Longrightarrow> version_row req prev (upd_row req prev i st)"
  "names_stored (upd_row req prev i st) (upd_answer req i)" "fm_ID (upd_row req prev i st) = i"
  by (simp_all add: version_row_def upd_row_def upd_answer_def names_stored_def)

lemma Update_issues:
  assumes "MetadataRepository_FindBy E [clause_eq ''id'' (ur_FileID req)] w = (OK (prev # rest), w1)"
    and "NewID E w1 = (OK i, w2)" "NewTimestamp E w2 = (st, w3)"
    and "CalculateChunks (ur_FileSize req) = ur_Chunks req" "fm_FileHash prev \<noteq> ur_Digest req"
  shows "MetadataService_UpdateFileMetadata E req w =
    issue_token E (upd_row req prev i st) ''internal_server_error:2011:500'' ''internal_server_error:2011:500''
      (upd_answer req i) w3"
  using assms by (simp add: MetadataService_UpdateFileMetadata_def Let_def upd_row_def upd_answer_def [abs_def])

lemma Update_meta_outcome:
  assumes "MetadataService_UpdateFileMetadata E req w = (r, w')"
  shows "w_redis w' = w_redis w \<and> w_fs w' = w_fs w \<and>
    ((\<exists>prev m t a. r = OK (BuildResponse None (Some a)) \<and> prev \<in> set (file_metadatas (w_db w)) \<and>
        version_row req prev m \<and> stored E m t a (w_db w) (w_db w')) \<or>
     (\<exists>e. r = OK (BuildResponse (Some e) None) \<and> w_db w' = w_db w))"
proof -
  obtain q w1 where f: "MetadataRepository_FindBy E [clause_eq ''id'' (ur_FileID req)] w = (q, w1)"
    by (cases "MetadataRepository_FindBy E [clause_eq ''id'' (ur_FileID req)] w")
  note fr1 = FindBy_cases [OF f, unfolded where_id]
  obtain x w2 where x: "NewID E w1 = (x, w2)" by (cases "NewID E w1")
  note nid = NewID_cases [OF x]
  obtain st w3 where st: "NewTimestamp E w2 = (st, w3)" by (cases "NewTimestamp E w2")
  note fr3 = NewTimestamp_frame [OF st]
  show ?thesis
  proof (cases "CalculateChunks (ur_FileSize req) = ur_Chunks req \<and> (\<exists>i. x = OK i) \<and>
      (\<exists>prev rest. q = OK (prev # rest) \<and> fm_FileHash prev \<noteq> ur_Digest req)")
    case True
    then obtain i prev rest where i: "x = OK i" and q: "q = OK (prev # rest)"
      and h: "fm_FileHash prev \<noteq> ur_Digest req" by blast
    from q fr1 have "filter (\<lambda>row. fm_ID row = ur_FileID req) (file_metadatas (w_db w)) = prev # rest" by auto
    then have prev: "prev \<in> set (file_metadatas (w_db w))" "fm_ID prev = ur_FileID req"
      by (auto simp: filter_eq_Cons_iff)
    from nid i have u: "e_ulid E (w_tick w1) = Inr (fm_ID (upd_row req prev i st))" by (simp add: upd_row_ok)
    have "issue_token E (upd_row req prev i st) ''internal_server_error:2011:500'' ''internal_server_error:2011:500''
      (upd_answer req i) w3 = (r, w')" using Update_issues True f q x i st h assms by metis
    from issue_stored [OF this u upd_row_ok(2)] upd_row_ok(1) [of prev req i st] True prev h fr1 fr3 nid
    show ?thesis by auto
  next
    case False
    with assms f x nid fr1 have "(\<exists>e. r = OK (BuildResponse (Some e) None)) \<and> (w' = w \<or> w' = w1 \<or> w' = w2)"
      by (auto simp: MetadataService_UpdateFileMetadata_def Let_def split: list.splits if_splits)
    with fr1 nid show ?thesis by auto
  qed
qed

text \<open>The ids that the generator can still deliver are not in use.\<close>

definition fresh_ids :: "'r env \<Rightarrow> db \<Rightarrow> bool" where
  "fresh_ids E d \<longleftrightarrow> (\<forall>n i. e_ulid E n = Inr i \<longrightarrow> i \<notin> fm_ID ` set (file_metadatas d))"

lemma stored_wf:
  assumes "stored E m t a d d'" and "db_wf d" and "fresh_ids E d" and "\<not> fm_CurrentFlag m"
    and "\<And>p. fm_PrevID m = Some p \<Longrightarrow> p \<in> fm_ID ` set (file_metadatas d)"
  shows "db_wf d'"
proof -
  have "fm_ID m \<notin> fm_ID ` set (file_metadatas d)" using assms(1,3) by (auto simp: stored_def fresh_ids_def)
  with assms(2,4,5) have "db_wf (sql_CreateFileMetadata m d)" by (intro db_wf_create_file) auto
  then show ?thesis
    using assms(1) by (auto simp: stored_def stream_token_for_def intro!: db_wf_create_token)
qed

text \<open>
  Whatever calls fail, registering a file is all or nothing: either the response is a success
  and the tables have gained exactly one row, as requested, and one stream token for it, or the
  response is an error and the tables are unchanged; blobs and Redis are never touched.  Fresh ids
  provided, the tables stay well formed.
\<close>

theorem PrepareFileForUpload_atomic:
  assumes "MetadataService_PrepareFileForUpload E req w = (r, w')"
  shows "w_redis w' = w_redis w \<and> w_fs w' = w_fs w \<and> (db_wf (w_db w) \<and> fresh_ids E (w_db w) \<longrightarrow> db_wf (w_db w')) \<and>
    ((\<exists>m t a. r = OK (BuildResponse None (Some a)) \<and> first_row req m \<and> stored E m t a (w_db w) (w_db w')) \<or>
     (\<exists>e. r = OK (BuildResponse (Some e) None) \<and> w_db w' = w_db w))"
proof -
  note out = Prepare_outcome [OF assms]
  have "db_wf (w_db w')" if "db_wf (w_db w)" "fresh_ids E (w_db w)"
    using out
  proof (elim conjE disjE exE)
    fix m t a
    assume "first_row req m" and s: "stored E m t a (w_db w) (w_db w')"
    then show ?thesis by (intro stored_wf [OF s that]) (simp_all add: first_row_def)
  qed (use that in simp)
  with out show ?thesis by blast
qed

text \<open>The third external call of the request fails.\<close>

definition locked_env :: "mem_redis env" where
  "locked_env = sample_env\<lparr>e_fault := (\<lambda>n. if n = 8 then Some ''locked'' else None)\<rparr>"

lemma sample_fresh: "fresh_ids sample_env sample_db" "fresh_ids locked_env sample_db"
  by (auto simp: fresh_ids_def sample_env_def sample_db_def row_A_def row_B_def locked_env_def)

theorem PrepareFileForUpload_atomic_witness:
  "\<exists>r w'. MetadataService_PrepareFileForUpload locked_env sample_request sample_world = (r, w') \<and>
     w_fs w' = w_fs sample_world \<and> db_wf (w_db w')"
proof -
  obtain r w' where run: "MetadataService_PrepareFileForUpload locked_env sample_request sample_world = (r, w')"
    by fastforce
  from PrepareFileForUpload_atomic [OF run] run show ?thesis
    using sample_fresh sample_db_wf by (auto simp: sample_world_def)
qed

text \<open>
  C40.  Whatever calls fail, registering a new version is all or nothing in the same way.  The
  version refers to the file it replaces, inherits its name and type, is not a copy of it and has
  the requested chunk count; it belongs to the requesting user, whoever owns the replaced file.
\<close>

theorem UpdateFileMetadata_atomic:
  assumes "MetadataService_UpdateFileMetadata E req w = (r, w')"
  shows "w_redis w' = w_redis w \<and> w_fs w' = w_fs w \<and> (db_wf (w_db w) \<and> fresh_ids E (w_db w) \<longrightarrow> db_wf (w_db w')) \<and>
    ((\<exists>prev m t a. r = OK (BuildResponse None (Some a)) \<and> prev \<in> set (file_metadatas (w_db w)) \<and>
        version_row req prev m \<and> stored E m t a (w_db w) (w_db w')) \<or>
     (\<exists>e. r = OK (BuildResponse (Some e) None) \<and> w_db w' = w_db w))"
proof -
  note out = Update_meta_outcome [OF assms]
  have "db_wf (w_db w')" if "db_wf (w_db w)" "fresh_ids E (w_db w)"
    using out
  proof (elim conjE disjE exE)
    fix prev m t a
    assume prev: "prev \<in> set (file_metadatas (w_db w))" "version_row req prev m" and s: "stored E m t a (w_db w) (w_db w')"
    from prev have "fm_PrevID m = Some p \<Longrightarrow> p \<in> fm_ID ` set (file_metadatas (w_db w))" for p
      by (simp add: version_row_def) (metis imageI)
    with prev show ?thesis by (intro stored_wf [OF s that]) (auto simp: version_row_def)
  qed (use that in simp)
  with out show ?thesis by blast
qed

definition sample_update :: FileUpdateMetadataRequest where
  "sample_update = \<lparr>ur_FileName = [], ur_FileID = ''A'', ur_Digest = ''hc'', ur_Chunks = 2, ur_FileSize = 5000000,
     ur_FileType = [], ur_UploadStatus = [], ur_UserID = ''U2''\<rparr>"

theorem UpdateFileMetadata_atomic_witness:
  "\<exists>m t a w'. MetadataService_UpdateFileMetadata sample_env sample_update sample_world =
       (OK (BuildResponse None (Some a)), w') \<and> stored sample_env m t a sample_db (w_db w') \<and>
     fm_PrevID m = Some ''A'' \<and> fm_UserID m = ''U2'' \<and> fm_UserID row_A = ''U1'' \<and> db_wf (w_db w')"
proof -
  let ?run = "MetadataService_UpdateFileMetadata sample_env sample_update sample_world"
  have c: "CalculateChunks (ur_FileSize sample_update) = ur_Chunks sample_update"
    by (simp add: sample_update_def CalculateChunks_exact FrontendChunkSize_def)
  obtain w1 where f: "MetadataRepository_FindBy sample_env [clause_eq ''id'' ''A''] sample_world = (OK [row_A], w1)"
    using FindBy_run [OF sample_no_faults sample_stmts, of "[clause_eq ''id'' ''A'']" sample_world]
    by (cases "MetadataRepository_FindBy sample_env [clause_eq ''id'' ''A''] sample_world")
      (auto simp: where_id sample_defs)
  obtain i st w3 where "NewID sample_env w1 = (OK i, tick w1)" "NewTimestamp sample_env (tick w1) = (st, w3)"
    by (simp add: NewID_def sample_env_def NewTimestamp_def Now_def)
  then have issue: "?run = issue_token sample_env (upd_row sample_update row_A i st) ''internal_server_error:2011:500''
      ''internal_server_error:2011:500'' (upd_answer sample_update i) w3"
    using f c by (intro Update_issues) (auto simp: sample_update_def row_A_def)
  obtain a w' where run: "?run = (OK (BuildResponse None (Some a)), w')"
    using issue_token_run [OF sample_no_faults sample_stmts sample_sources] unfolding issue by blast
  have ne: "OK (BuildResponse None (Some a)) \<noteq> OK (BuildResponse (Some e) None)" for e
    by (simp add: BuildResponse_def)
  from UpdateFileMetadata_atomic [OF run] ne sample_db_wf sample_fresh(1) obtain prev m t where
    "version_row sample_update prev m" "stored sample_env m t a sample_db (w_db w')" "db_wf (w_db w')"
    by (auto simp: sample_world_def BuildResponse_def)
  with run show ?thesis by (auto simp: version_row_def sample_update_def row_A_def BuildResponse_def)
qed


subsection \<open>Stream tokens\<close>

lemma stored_token_first:
  assumes "stored E m t a d d'" and "db_wf d" and "fresh_ids E d"
  shows "filter (\<lambda>k. tk_AccessToken k = s \<and> tk_ResourceID k = fm_ID m \<and> u \<noteq> None \<and> tk_UserID k = u \<and>
      tk_ResouceType k = ''stream'') (tokens_tbl d') =
    (if s = tk_AccessToken t \<and> u = Some (fm_UserID m) then [t] else [])"
proof -
  have new: "fm_ID m \<notin> fm_ID ` set (file_metadatas d)" using assms(1,3) by (auto simp: stored_def fresh_ids_def)
  have "t\<lparr>tk_DeviceID := []\<rparr> = t" using assms(1) by (cases t) (simp add: stored_def stream_token_for_def)
  moreover have "filter (\<lambda>k. tk_AccessToken k = s \<and> tk_ResourceID k = fm_ID m \<and> u \<noteq> None \<and> tk_UserID k = u \<and>
      tk_ResouceType k = ''stream'') (tokens_tbl d) = []"
    using assms(2) new unfolding db_wf_def filter_empty_conv by metis
  ultimately show ?thesis using assms(1) by (auto simp: stored_def stream_token_for_def)
qed

text \<open>
  C14.  Issue and check: the stream token returned for a new file is accepted, within a day, for that
  file and its user, and yields the token of that file; no other user id and no other token text
  is accepted for the file, as long as no further token is stored.
\<close>

theorem stream_token_roundtrip:
  assumes "no_faults E" "stmts_loaded E" and "db_wf (w_db w)" "fresh_ids E (w_db w)"
    and "\<And>n. 0 < e_clock E n" and "\<And>n k. e_clock E n \<le> e_clock E k + AccessExpiryDuration"
    and "MetadataService_PrepareFileForUpload E req w = (OK (BuildResponse None (Some a)), w1)"
    and "tokens_tbl (w_db w2) = tokens_tbl (w_db w1)"
    and "fc_ResourceID clause = mt_FileID a"
  shows "if fc_StreamToken clause = mt_StreamToken a \<and> fc_UserID clause = Some (mr_UserID req)
    then \<exists>t w3. TokensRepository_FindByStreamToken E clause w2 = (OK t, w3) \<and> tk_ResourceID t = mt_FileID a \<and>
      tk_UserID t = Some (mr_UserID req)
    else fst (TokensRepository_FindByStreamToken E clause w2) = Err ErrTokenExpired"
proof -
  from Prepare_outcome [OF assms(7)] obtain m t where m: "first_row req m" and s: "stored E m t a (w_db w) (w_db w1)"
    by (auto simp: BuildResponse_def)
  let ?rows = "sql_GetStreamToken (fc_StreamToken clause) (fc_ResourceID clause) (fc_UserID clause) ''stream'' (w_db w2)"
  have id: "mt_FileID a = fm_ID m" "mt_StreamToken a = tk_AccessToken t" "fm_UserID m = mr_UserID req"
    using s m by (simp_all add: stored_def first_row_def)
  have rows: "?rows = (if fc_StreamToken clause = mt_StreamToken a \<and> fc_UserID clause = Some (mr_UserID req) then [t] else [])"
    unfolding sql_GetStreamToken_def assms(8,9) id(1) stored_token_first [OF s assms(3,4)] id by simp
  have run: "TokensRepository_FindByStreamToken E clause w2 = checked_token E ?rows (tick w2)"
    using stmts_loadedD(9) [OF assms(2)] assms(1)
    by (auto simp: TokensRepository_FindByStreamToken_def GetStreamTokenStmt_def ext_call_def)
  show ?thesis
  proof (cases "fc_StreamToken clause = mt_StreamToken a \<and> fc_UserID clause = Some (mr_UserID req)")
    case True
    from s obtain n where "tk_AccessExpiresAt t = e_clock E n + AccessExpiryDuration"
      by (auto simp: stored_def stream_token_for_def)
    with assms(6) [of "Suc (Suc (w_tick w2))" n]
    have "fst (checked_token E (take 1 (t # [])) (tick w2)) = OK t" by (intro checked_token_live [OF assms(1)]) simp
    then obtain w3 where "checked_token E [t] (tick w2) = (OK t, w3)" by (cases "checked_token E [t] (tick w2)") simp
    with True run rows s id show ?thesis by (auto simp: stored_def stream_token_for_def)
  next
    case False
    with checked_token_empty [of E "tick w2"] assms(5) show ?thesis unfolding run rows by auto
  qed
qed

definition sample_clause :: "string \<Rightarrow> string \<Rightarrow> FindByClause" where
  "sample_clause fid tok = \<lparr>fc_AccessToken = [], fc_RefreshToken = [], fc_StreamToken = tok, fc_ResourceID = fid,
     fc_ResourceType = ''stream'', fc_UserID = Some ''U1'', fc_TestMode = True\<rparr>"

lemma sample_window:
  assumes "e_clock E = (\<lambda>n. 1000)"
  shows "0 < e_clock E n" "e_clock E n \<le> e_clock E k + AccessExpiryDuration"
  by (simp_all add: assms duration_defs)

definition still_env :: "mem_redis env" where
  "still_env = sample_env\<lparr>e_clock := (\<lambda>n. 1000)\<rparr>"

lemma still_ok: "no_faults still_env" "stmts_loaded still_env" "sources_ok still_env" "fresh_ids still_env sample_db"
  using sample_no_faults sample_stmts sample_sources sample_fresh(1)
  by (simp_all add: still_env_def no_faults_def stmts_loaded_def sources_ok_def fresh_ids_def)

theorem stream_token_roundtrip_witness:
  "\<exists>a w1 t w3. MetadataService_PrepareFileForUpload still_env sample_request sample_world =
      (OK (BuildResponse None (Some a)), w1) \<and>
    TokensRepository_FindByStreamToken still_env (sample_clause (mt_FileID a) (mt_StreamToken a)) w1 = (OK t, w3) \<and>
    tk_ResourceID t = mt_FileID a"
proof -
  have c: "CalculateChunks (mr_FileSize sample_request) = mr_Chunks sample_request"
    by (simp add: sample_request_def CalculateChunks_exact FrontendChunkSize_def)
  have h: "MetadataRepository_FindByHash still_env (mr_Digest sample_request) sample_world = ((False, None), tick sample_world)"
    by (simp add: MetadataRepository_FindByHash_def still_env_def sample_env_def ext_call_def sql_FindByHash_def
        sample_request_def sample_defs)
  obtain i st w3 where "NewID still_env (tick sample_world) = (OK i, tick (tick sample_world))"
    "NewTimestamp still_env (tick (tick sample_world)) = (st, w3)"
    by (simp add: NewID_def still_env_def sample_env_def NewTimestamp_def Now_def)
  from Prepare_issues [OF h this c] issue_token_run [OF still_ok(1-3)] obtain a w1 where
    run: "MetadataService_PrepareFileForUpload still_env sample_request sample_world =
      (OK (BuildResponse None (Some a)), w1)" by metis
  have wf: "db_wf (w_db sample_world)" "fresh_ids still_env (w_db sample_world)"
    using sample_db_wf still_ok(4) by (simp_all add: sample_world_def)
  have clk: "e_clock still_env = (\<lambda>n. 1000)" by (simp add: still_env_def)
  note rt = stream_token_roundtrip [OF still_ok(1,2) wf sample_window [OF clk] run refl,
      of "sample_clause (mt_FileID a) (mt_StreamToken a)"]
  have "mr_UserID sample_request = ''U1''" by (simp add: sample_request_def)
  with rt run show ?thesis by (simp add: sample_clause_def) blast
qed


subsection \<open>The end of an upload\<close>

definition eof_message :: "UserFileDevice \<Rightarrow> FileMetadata \<Rightarrow> CacheMetadata" where
  "eof_message ud row = \<lparr>cm_UserID = fm_UserID row, cm_PrevID = fm_PrevID row, cm_DeviceID = ud_DeviceID ud,
     cm_ID = ud_FileID ud\<rparr>"

text \<open>What the queue looks like after a request to end the upload of a file: one message more when
  the file is being uploaded and the response is a success, and otherwise as before.\<close>

lemma filter_row:
  assumes "distinct (map fm_ID (file_metadatas d))"
  shows "filter (\<lambda>row. fm_ID row = i \<and> P row) (file_metadatas d) =
    (case file_row i d of None \<Rightarrow> [] | Some row \<Rightarrow> if P row then [row] else [])"
proof -
  have "filter (\<lambda>row. fm_ID row = i \<and> P row) rows =
      (case find (\<lambda>row. fm_ID row = i) rows of None \<Rightarrow> [] | Some row \<Rightarrow> if P row then [row] else [])"
    if "distinct (map fm_ID rows)" for rows
    using that
  proof (induction rows)
    case (Cons r rows)
    have "filter (\<lambda>row. fm_ID row = i \<and> P row) rows = []" if "fm_ID r = i"
      using Cons.prems that unfolding filter_empty_conv by (metis distinct.simps(2) image_eqI list.simps(9) list.set_map)
    with Cons show ?case by auto
  qed simp
  from this [OF assms] show ?thesis by (simp add: file_row_def)
qed

lemma MarkUploadComplete_cases:
  assumes "db_wf (w_db w)" and "MetadataService_MarkUploadComplete E ud w = (resp, w')"
  shows "w_db w' = w_db w \<and> w_fs w' = w_fs w \<and>
    (resp = BuildResponse (Some ''file_not_found:2019:404'') None \<and> w_redis w' = w_redis w \<or>
     (\<exists>row. file_row (ud_FileID ud) (w_db w) = Some row \<and> fm_UploadStaus row = StatusUploading \<and>
       (resp = BuildResponse (Some ''internal_error:2021:500'') None \<and> w_redis w' = w_redis w \<or>
        (\<exists>b e. e_gob_cache E (eof_message ud row) = Inr b \<and>
           RPush (e_redis E) MetadataFileUpdateQueue b (w_redis w) = (e, w_redis w') \<and>
           resp = (if e = None then BuildResponse None (Some [(''eof'', True)])
                   else BuildResponse (Some ''internal_error:2021:500'') None)))))"
proof -
  let ?cl = "[clause_eq ''id'' (ud_FileID ud), clause_eq ''upload_status'' StatusUploading]"
  obtain q w1 where f: "MetadataRepository_FindBy E ?cl w = (q, w1)" by (cases "MetadataRepository_FindBy E ?cl w")
  have dist: "distinct (map fm_ID (file_metadatas (w_db w)))" using assms(1) by (simp add: db_wf_def files_wf_def)
  note fr = FindBy_cases [OF f, unfolded where_uploading filter_row [OF dist]]
  show ?thesis
  proof (cases "\<exists>row rest. q = OK (row # rest)")
    case False
    with f assms(2) have "resp = BuildResponse (Some ''file_not_found:2019:404'') None \<and> w' = w1"
      by (auto simp: MetadataService_MarkUploadComplete_def split: res.splits list.splits)
    with fr show ?thesis by simp
  next
    case True
    then obtain row rest where q: "q = OK (row # rest)" by blast
    with fr have row: "file_row (ud_FileID ud) (w_db w) = Some row" "fm_UploadStaus row = StatusUploading"
      by (auto split: option.splits if_splits)
    show ?thesis
    proof (cases "e_gob_cache E (eof_message ud row)")
      case (Inl e)
      with f q assms(2) have "resp = BuildResponse (Some ''internal_error:2021:500'') None \<and> w' = w1"
        by (simp add: MetadataService_MarkUploadComplete_def eof_message_def)
      with fr row show ?thesis by simp
    next
      case (Inr b)
      obtain e r where push: "RPush (e_redis E) MetadataFileUpdateQueue b (w_redis w1) = (e, r)"
        by (cases "RPush (e_redis E) MetadataFileUpdateQueue b (w_redis w1)")
      with f q Inr assms(2) have "resp = (if e = None then BuildResponse None (Some [(''eof'', True)])
          else BuildResponse (Some ''internal_error:2021:500'') None) \<and> w' = w1\<lparr>w_redis := r\<rparr>"
        by (auto simp: MetadataService_MarkUploadComplete_def eof_message_def RedisQ_EnqueueMsg_def file_queue
            split: option.splits)
      with fr row Inr push show ?thesis by auto
    qed
  qed
qed

text \<open>
  C15.  Ending an upload: a success means that the file was still being uploaded and that exactly
  one message, with the file's owner, its predecessor and the device, was appended to the queue of
  pending updates; a file that is not being uploaded is answered with 404 and nothing is queued;
  the tables and the blobs are never changed, whatever calls fail.
\<close>

theorem MarkUploadComplete_message:
  assumes "db_wf (w_db w)" and "redis_lists (e_redis E) view"
    and "MetadataService_MarkUploadComplete E ud w = (resp, w')"
  shows "w_db w' = w_db w \<and> w_fs w' = w_fs w \<and>
    (rs_Success resp \<longrightarrow> (\<exists>row b. file_row (ud_FileID ud) (w_db w) = Some row \<and> fm_UploadStaus row = StatusUploading \<and>
       e_gob_cache E (eof_message ud row) = Inr b \<and>
       view (w_redis w') = (view (w_redis w))(MetadataFileUpdateQueue := view (w_redis w) MetadataFileUpdateQueue @ [b]))) \<and>
    (map_option fm_UploadStaus (file_row (ud_FileID ud) (w_db w)) \<noteq> Some StatusUploading \<longrightarrow>
       resp = BuildResponse (Some ''file_not_found:2019:404'') None \<and> w_redis w' = w_redis w)"
proof -
  let ?Q = MetadataFileUpdateQueue
  have no: "\<not> rs_Success (BuildResponse (Some ''file_not_found:2019:404'') None)"
    "\<not> rs_Success (BuildResponse (Some ''internal_error:2021:500'') None)" by (simp_all add: BuildResponse_def)
  from MarkUploadComplete_cases [OF assms(1,3)] have fr: "w_db w' = w_db w" "w_fs w' = w_fs w"
    and "resp = BuildResponse (Some ''file_not_found:2019:404'') None \<and> w_redis w' = w_redis w \<or>
     (\<exists>row. file_row (ud_FileID ud) (w_db w) = Some row \<and> fm_UploadStaus row = StatusUploading \<and>
       (resp = BuildResponse (Some ''internal_error:2021:500'') None \<and> w_redis w' = w_redis w \<or>
        (\<exists>b e. e_gob_cache E (eof_message ud row) = Inr b \<and> RPush (e_redis E) ?Q b (w_redis w) = (e, w_redis w') \<and>
           resp = (if e = None then BuildResponse None (Some [(''eof'', True)])
                   else BuildResponse (Some ''internal_error:2021:500'') None))))"
    by blast+
  from this(3) show ?thesis
  proof (elim disjE exE conjE)
    fix row b e
    assume "file_row (ud_FileID ud) (w_db w) = Some row" "fm_UploadStaus row = StatusUploading"
      "e_gob_cache E (eof_message ud row) = Inr b" "RPush (e_redis E) ?Q b (w_redis w) = (e, w_redis w')"
      "resp = (if e = None then BuildResponse None (Some [(''eof'', True)])
         else BuildResponse (Some ''internal_error:2021:500'') None)"
    with fr no redis_push [OF assms(2)] show ?thesis by (cases e) auto
  qed (use fr no in simp_all)
qed

theorem MarkUploadComplete_message_witness:
  "\<exists>resp w'. MetadataService_MarkUploadComplete sample_env
      \<lparr>ud_UserID = [], ud_DeviceID = ''1'', ud_FileID = ''B'', ud_ChunkID = []\<rparr> sample_world = (resp, w') \<and>
    rs_Success resp \<and> fst (w_redis w') MetadataFileUpdateQueue = [''m'']"
proof -
  let ?ud = "\<lparr>ud_UserID = [], ud_DeviceID = ''1'', ud_FileID = ''B'', ud_ChunkID = []\<rparr>"
  let ?run = "MetadataService_MarkUploadComplete sample_env ?ud sample_world"
  have ok: "rs_Success (fst ?run)" by code_simp
  have w: "db_wf (w_db sample_world)" "redis_lists (e_redis sample_env) fst"
    using sample_db_wf mem_lists by (simp_all add: sample_world_def sample_env_def)
  have "fst (w_redis (snd ?run)) MetadataFileUpdateQueue = [''m'']"
    using MarkUploadComplete_message [OF w, of ?ud "fst ?run" "snd ?run"] ok
    by (auto simp: sample_world_def sample_rows eof_message_def sample_env_def split: if_splits)
  with ok show ?thesis by (metis prod.collapse)
qed

subsection \<open>Repositories and tokens\<close>

text \<open>
  C13.  Switching versions is atomic: whatever call fails, \<open>Update\<close> either reports success and both
  statements are committed (the new version is current where its predecessor matches, and the
  predecessor is ended), or reports an error or panics and no table has changed.  The one way it
  panics is a failed start of the transaction, whose error the code does not look at.
\<close>

theorem MetadataRepository_Update_atomic:
  assumes "MetadataRepository_Update E prev new status w = (r, w')"
  shows "w_redis w' = w_redis w \<and> w_fs w' = w_fs w \<and>
    (if r = OK () then \<exists>n. w_db w' = update_effect (prev, new, status) (e_clock E n) (w_db w)
     else w_db w' = w_db w) \<and>
    ((\<exists>p. r = Panic p) \<longleftrightarrow> e_fault E (w_tick w) \<noteq> None \<and> e_metaQ E UpdateCurrentFlagStmt \<noteq> None)"
proof -
  have "(\<exists>p. r = Panic p) \<longleftrightarrow> e_fault E (w_tick w) \<noteq> None \<and> e_metaQ E UpdateCurrentFlagStmt \<noteq> None"
    using assms by (auto simp: MetadataRepository_Update_def ext_call_def Now_def Let_def tx_commit_def
        split: option.splits if_splits)
  with upd.all_or_nothing [of E "(prev, new, status)" w r w'] upd.other_state [of E "(prev, new, status)" w r w'] assms
  show ?thesis by (auto simp: update_op_def)
qed

text \<open>The second statement of the transaction fails.\<close>

definition late_env :: "mem_redis env" where
  "late_env = sample_env\<lparr>e_fault := (\<lambda>n. if n = 3 then Some ''locked'' else None)\<rparr>"

theorem MetadataRepository_Update_atomic_witness:
  "\<exists>r w'. MetadataRepository_Update late_env (Some ''A'') ''B'' StatusCompleted sample_world = (r, w') \<and>
     r = Err ''locked'' \<and> w_db w' = sample_db"
proof -
  let ?run = "MetadataRepository_Update late_env (Some ''A'') ''B'' StatusCompleted sample_world"
  have r: "fst ?run = Err ''locked''" by code_simp
  then have run: "?run = (Err ''locked'', snd ?run)" by (metis prod.collapse)
  from MetadataRepository_Update_atomic [OF run] have "w_db (snd ?run) = sample_db" by (simp add: sample_world_def)
  with run show ?thesis by blast
qed

text \<open>
  C37.  Listing files: the page is cut to the limit without regard to the number of rows, so when no
  call fails the request panics for every user with fewer joined rows than the limit (the default
  limit is 20), a user without files included; with at least as many rows it returns the grouped
  page, and reports more exactly when there is a further row.
\<close>

theorem ListFilesForUser_short_page:
  assumes "no_faults E" "stmts_loaded E" "sql_order_ok E" and "0 < lim" "lim < 2 ^ 62" and "0 \<le> offset"
    and "rows = sql_join (\<lambda>fm. fm_UserID fm = u \<and> fm_CurrentFlag fm) (w_db w)"
    and "page = map scan_list (sql_page (lim + 1) offset (e_order E (w_tick w) rows))"
    and "cap_ok E"
  shows "if int (length page) < lim then \<exists>p. fst (MetadataService_ListFilesForUser E u offset lim w) = Panic p
    else fst (MetadataService_ListFilesForUser E u offset lim w) =
      OK (BuildResponse None (Some \<lparr>fr_FilesInfo = group_files (take (nat lim) page),
        fr_HasMore = (lim < int (length page))\<rparr>))"
proof -
  have scan: "fst (scan_rows E xs v)" for xs :: "FilesWithChunks list" and v
    using assms(1) by (induction xs arbitrary: v) (simp_all add: ext_call_def)
  have wrap: "wrap64 (lim + 1) = lim + 1" using assms(4,5) by (simp add: wrap64_def)
  obtain w2 where sc: "scan_rows E page (tick w) = (True, w2)" using scan [of page "tick w"] by (cases "scan_rows E page (tick w)") auto
  have "e_metaQ E GetFilesForUserStmt \<noteq> None" using assms(2) by (rule stmts_loadedD)
  then have run: "MetadataRepository_ListByUserID E u offset lim w =
      (res_map (\<lambda>pg. (pg, lim < int (length page))) (slice_to (e_cap E (length page)) page lim), w2)"
    using assms(1,4) sc
    by (auto simp: MetadataRepository_ListByUserID_def go_simps wrap assms(7,8) split: prod.splits)
  show ?thesis
  proof (cases "int (length page) < lim")
    case True
    show ?thesis
    proof (cases "int (e_cap E (length page)) < lim")
      case True
      with \<open>int (length page) < lim\<close> assms(4) show ?thesis
        by (simp add: MetadataService_ListFilesForUser_def run slice_to_def)
    next
      case False
      let ?pg = "take (nat lim) (map Some page) @ replicate (nat lim - length page) None"
      have nil: "None \<in> set ?pg" using True by auto
      then obtain p where "BuildFilesInfoResponse ?pg = Panic p"
        using build_loop_nil unfolding BuildFilesInfoResponse_def by blast
      moreover have "?pg \<noteq> []" using nil by auto
      ultimately show ?thesis using True False assms(4)
        by (simp add: MetadataService_ListFilesForUser_def run slice_to_def)
    qed
  next
    case False
    then have cap: "\<not> int (e_cap E (length page)) < lim" using assms(9) unfolding cap_ok_def by (meson linorder_not_le of_nat_le_iff order_trans)
    have "take (nat lim) page \<noteq> []" using False assms(4) by auto
    with False cap assms(4) show ?thesis
      by (simp add: MetadataService_ListFilesForUser_def run slice_to_def take_map Build_group)
  qed
qed


theorem ListFilesForUser_short_page_witness:
  "(\<exists>p. fst (MetadataService_ListFilesForUser sample_env ''U1'' 0 20 sample_world) = Panic p) \<and>
   (\<exists>infos. fst (MetadataService_ListFilesForUser sample_env ''U1'' 0 2 sample_world) =
      OK (BuildResponse None (Some \<lparr>fr_FilesInfo = infos, fr_HasMore = False\<rparr>)) \<and> map fi_ID infos = [''A''])"
proof -
  let ?rows = "sql_join (\<lambda>fm. fm_UserID fm = ''U1'' \<and> fm_CurrentFlag fm) (w_db sample_world)"
  have p: "length (map scan_list (sql_page 21 0 (e_order sample_env 0 ?rows))) = 2"
    "map fwc_ID (map scan_list (sql_page 3 0 (e_order sample_env 0 ?rows))) = [''A'', ''A'']" by code_simp+
  have t: "w_tick sample_world = 0" by (simp add: sample_world_def)
  have ids: "map fwc_ID xs = [''A'', ''A''] \<Longrightarrow> length xs = 2 \<and> map fi_ID (group_files (take 2 xs)) = [''A'']" for xs
    by (simp add: group_files_ids) (auto simp: file_ids_def map_eq_Cons_conv take_map [symmetric])
  note L = ListFilesForUser_short_page [OF sample_no_faults sample_stmts sample_order _ _ _ refl refl sample_cap]
  from L [where lim = 20 and offset = 0 and u = "''U1''" and w = sample_world] p(1) have short: "\<exists>p. fst (MetadataService_ListFilesForUser sample_env ''U1'' 0 20 sample_world) = Panic p"
    by (simp add: t)
  define xs where "xs = map scan_list (sql_page 3 0 (e_order sample_env 0 ?rows))"
  have "fst (MetadataService_ListFilesForUser sample_env ''U1'' 0 2 sample_world) =
      OK (BuildResponse None (Some \<lparr>fr_FilesInfo = group_files (take 2 xs), fr_HasMore = False\<rparr>))"
    using L [where lim = 2 and offset = 0 and u = "''U1''" and w = sample_world] ids [OF p(2)] by (simp add: t xs_def)
  moreover have "map fi_ID (group_files (take 2 xs)) = [''A'']" using ids [OF p(2)] unfolding xs_def by (rule conjunct2)
  ultimately have "\<exists>infos. fst (MetadataService_ListFilesForUser sample_env ''U1'' 0 2 sample_world) =
      OK (BuildResponse None (Some \<lparr>fr_FilesInfo = infos, fr_HasMore = False\<rparr>)) \<and> map fi_ID infos = [''A'']"
    by (intro exI conjI)
  with short show ?thesis by (intro conjI)
qed

end
