(* ===== verification/Machines.thy ===== *)
theory Machines
  imports Main
begin

text \<open>
  Step relations of concurrent components: the states a relation reaches from its start, what an
  invariant is, and what stays true once it holds.  The components state their invariants by
  interpreting the locales; the laws are proved once here.
\<close>

inductive reachable :: "('s \<Rightarrow> 's \<Rightarrow> bool) \<Rightarrow> 's \<Rightarrow> 's \<Rightarrow> bool" for step start where
  start: "reachable step start start"
| step: "reachable step start s \<Longrightarrow> step s s' \<Longrightarrow> reachable step start s'"

lemma reachable_trans: "reachable step s t \<Longrightarrow> reachable step start s \<Longrightarrow> reachable step start t"
  by (induction rule: reachable.induct) (auto intro: reachable.step)

text \<open>A predicate that no step falsifies.\<close>

locale stable =
  fixes step :: "'s \<Rightarrow> 's \<Rightarrow> bool" and P :: "'s \<Rightarrow> bool"
  assumes keeps: "P s \<Longrightarrow> step s s' \<Longrightarrow> P s'"
begin

lemma stays: "reachable step s s' \<Longrightarrow> P s \<Longrightarrow> P s'"
  by (induction rule: reachable.induct) (auto intro: keeps)

end

text \<open>An invariant also holds at the start.\<close>

locale invariant = stable +
  fixes start :: 'a
  assumes holds_at_start: "P start"
begin

lemma holds: "reachable step start s \<Longrightarrow> P s"
  by (rule stays [OF _ holds_at_start])

end

text \<open>A machine each of whose steps an abstract machine answers with some number of steps.\<close>

locale simulation = invariant +
  fixes astep :: "'b \<Rightarrow> 'b \<Rightarrow> bool" and abs :: "'a \<Rightarrow> 'b"
  assumes follows: "P s \<Longrightarrow> step s s' \<Longrightarrow> reachable astep (abs s) (abs s')"
begin

lemma simulates: "reachable step start s \<Longrightarrow> reachable astep (abs start) (abs s)"
proof (induction rule: reachable.induct)
  case start
  show ?case by (rule reachable.start)
next
  case (step s s')
  from follows [OF holds [OF step(1)] step(2)] step.IH show ?case by (rule reachable_trans)
qed

end

end
