(* ===== verification/Registry.thy ===== *)
theory Registry
  imports Machines
begin

text \<open>
  What the table of files promises, without tables: a registry of files, each with an owner, the
  file it replaces and a phase.  A file is registered as pending; when its upload is reconciled it
  becomes current and the file it replaces is retired, in one step.  Nothing else happens to a
  file.
\<close>

datatype phase = Pending | Current | Retired

record entry =
  en_owner :: string
  en_prev :: "string option"
  en_phase :: phase

type_synonym registry = "string \<rightharpoonup> entry"

definition retire :: "string option \<Rightarrow> registry \<Rightarrow> registry" where
  "retire prev a = (case prev of None \<Rightarrow> a
     | Some p \<Rightarrow> a(p := map_option (\<lambda>en. en\<lparr>en_phase := Retired\<rparr>) (a p)))"

definition switch :: "string \<Rightarrow> registry \<Rightarrow> registry" where
  "switch i a = (case a i of None \<Rightarrow> a
     | Some en \<Rightarrow> retire (en_prev en) (a(i \<mapsto> en\<lparr>en_phase := Current\<rparr>)))"

inductive registry_step :: "registry \<Rightarrow> registry \<Rightarrow> bool" where
  register: "a i = None \<Longrightarrow> (\<And>p. prev = Some p \<Longrightarrow> a p \<noteq> None) \<Longrightarrow>
     registry_step a (a(i \<mapsto> \<lparr>en_owner = u, en_prev = prev, en_phase = Pending\<rparr>))"
| switch: "a i \<noteq> None \<Longrightarrow> registry_step a (switch i a)"

subsection \<open>Versions\<close>

definition succs :: "registry \<Rightarrow> (string \<times> string) set" where
  "succs a = {(p, i). \<exists>en. a i = Some en \<and> en_prev en = Some p}"

definition registry_inv :: "registry \<Rightarrow> bool" where
  "registry_inv a \<longleftrightarrow> finite (dom a) \<and> acyclic (succs a) \<and> (\<forall>(p, i) \<in> succs a. p \<in> dom a) \<and>
     (\<forall>p en. a p = Some en \<longrightarrow> en_phase en = Retired \<longrightarrow>
        (\<exists>i en'. a i = Some en' \<and> en_prev en' = Some p \<and> en_phase en' \<noteq> Pending))"

lemma registry_invD:
  assumes "registry_inv a"
  shows "finite (dom a)" "acyclic (succs a)" "(p, i) \<in> succs a \<Longrightarrow> p \<in> dom a"
    "a p = Some en \<Longrightarrow> en_phase en = Retired \<Longrightarrow>
      \<exists>i en'. a i = Some en' \<and> en_prev en' = Some p \<and> en_phase en' \<noteq> Pending"
  using assms unfolding registry_inv_def by fast+

lemma succs_cong:
  assumes "\<And>i. map_option en_prev (b i) = map_option en_prev (a i)"
  shows "succs b = succs a"
proof -
  have "(\<exists>en. b i = Some en \<and> en_prev en = Some p) \<longleftrightarrow> (\<exists>en. a i = Some en \<and> en_prev en = Some p)" for p i
    using assms [of i] by (cases "a i"; cases "b i") auto
  then show ?thesis by (simp add: succs_def)
qed

lemma switch_at:
  "switch i a k = (case a i of None \<Rightarrow> a k | Some en \<Rightarrow>
     if en_prev en = Some k then map_option (\<lambda>e. e\<lparr>en_phase := Retired\<rparr>) (if k = i then a i else a k)
     else if k = i then Some (en\<lparr>en_phase := Current\<rparr>) else a k)"
  by (auto simp: switch_def retire_def split: option.splits)

lemma register_inv:
  assumes "registry_inv a" "a i = None" "\<And>p. prev = Some p \<Longrightarrow> a p \<noteq> None"
  shows "registry_inv (a(i \<mapsto> \<lparr>en_owner = u, en_prev = prev, en_phase = Pending\<rparr>))" (is "registry_inv ?b")
proof -
  note I = registry_invD [OF assms(1)]
  have none: "(i, k) \<notin> succs a" for k using I(3) [of i k] assms(2) by auto
  have s: "succs ?b = (case prev of None \<Rightarrow> succs a | Some p \<Rightarrow> insert (p, i) (succs a))"
    using assms(2) by (auto simp: succs_def split: option.splits)
  have "(i, p) \<notin> (succs a)\<^sup>*" if "prev = Some p" for p
    using none assms(2,3) that by (auto elim: converse_rtranclE)
  then have "acyclic (succs ?b)" using I(2) by (auto simp: s split: option.splits)
  moreover have "\<forall>(p, k) \<in> succs ?b. p \<in> dom ?b" using I(3) assms(3) by (auto simp: s split: option.splits)
  moreover have "\<exists>k en'. ?b k = Some en' \<and> en_prev en' = Some p \<and> en_phase en' \<noteq> Pending"
    if p: "?b p = Some en" "en_phase en = Retired" for p en
  proof -
    from p have "a p = Some en" by (auto split: if_splits)
    from I(4) [OF this p(2)] obtain k en' where "a k = Some en'" "en_prev en' = Some p" "en_phase en' \<noteq> Pending" by blast
    moreover with assms(2) have "k \<noteq> i" by auto
    ultimately show ?thesis by (intro exI [of _ k] exI [of _ en']) simp
  qed
  ultimately show ?thesis using I(1) unfolding registry_inv_def by simp
qed

lemma switch_inv:
  assumes "registry_inv a" "a i = Some en"
  shows "registry_inv (switch i a)"
proof -
  note I = registry_invD [OF assms(1)] and at = switch_at [of i a, unfolded assms(2) option.case]
  have "(i, i) \<notin> succs a" using I(2) by (auto simp: acyclic_def)
  then have ne: "en_prev en \<noteq> Some i" using assms(2) by (auto simp: succs_def)
  have s: "succs (switch i a) = succs a"
    by (rule succs_cong) (auto simp: at assms(2) option.map_comp comp_def ne)
  have d: "dom (switch i a) = dom a" using assms(2) by (auto simp: at dom_def split: if_splits)
  have ph: "\<exists>e'. switch i a k = Some e' \<and> en_prev e' = en_prev e \<and> en_phase e' \<noteq> Pending"
    if "a k = Some e" "en_phase e \<noteq> Pending \<or> k = i" for k e
    using that assms(2) ne by (auto simp: at)
  have "\<exists>k e'. switch i a k = Some e' \<and> en_prev e' = Some p \<and> en_phase e' \<noteq> Pending"
    if p: "switch i a p = Some e" "en_phase e = Retired" for p e
  proof (cases "en_prev en = Some p")
    case True
    then show ?thesis using ph [OF assms(2)] by auto
  next
    case False
    with p have "a p = Some e" by (auto simp: at split: if_splits)
    from I(4) [OF this p(2)] show ?thesis using ph by fastforce
  qed
  with I show ?thesis unfolding registry_inv_def s d by blast
qed

interpretation registry: invariant registry_step registry_inv Map.empty
proof
  fix a b
  assume "registry_inv a" and "registry_step a b"
  from this(2,1) show "registry_inv b"
    by cases (auto intro: register_inv switch_inv)
qed (simp add: registry_inv_def succs_def acyclic_def)

text \<open>Following the version links from a retired file one comes to a current one.\<close>

lemma retired_has_current:
  assumes "registry_inv a" "a p = Some en" "en_phase en = Retired"
  shows "\<exists>i e. (p, i) \<in> (succs a)\<^sup>+ \<and> a i = Some e \<and> en_phase e = Current"
proof -
  note I = registry_invD [OF assms(1)]
  have "succs a \<subseteq> dom a \<times> dom a" using I(3) by (auto simp: succs_def)
  then have "finite (succs a)" using I(1) by (meson finite_SigmaI finite_subset)
  then have "wf ((succs a)\<inverse>)" using I(2) by (rule finite_acyclic_wf_converse)
  then show ?thesis using assms(2,3)
  proof (induction p arbitrary: en rule: wf_induct_rule)
    case (less p)
    from I(4) [OF less.prems] obtain i e where i: "a i = Some e" "en_prev e = Some p" "en_phase e \<noteq> Pending" by blast
    then have pi: "(p, i) \<in> succs a" by (auto simp: succs_def)
    show ?case
    proof (cases "en_phase e")
      case Retired
      with less.IH [of i e] pi i obtain j f where "(i, j) \<in> (succs a)\<^sup>+" "a j = Some f" "en_phase f = Current" by auto
      with pi show ?thesis by (meson trancl_into_trancl2)
    qed (use i pi in auto)
  qed
qed

end
