(* ===== verification/System.thy ===== *)
theory System
  imports Download Uploads Registry
begin

text \<open>
  The service as one machine: the HTTP operations, the producer that polls the update queue, the
  worker that executes batches, and the consumers of notifications and downloads, interleaved in
  any order, each call with its own environment (any faults, clock, generators).  The machine
  refines the registry of files: the table of files only ever changes by registering a file or by
  switching a file and its predecessor together.
\<close>

subsection \<open>States and steps\<close>

text \<open>\<open>sy_batches\<close> are the batches between \<open>MetadataChangelog.Produce\<close> and the worker.\<close>

record 'r sys =
  sy_world :: "'r world"
  sy_batches :: "Payload list list"

text \<open>The registry that the tables hold.\<close>

definition row_phase :: "FileMetadata \<Rightarrow> phase" where
  "row_phase row = (if fm_CurrentFlag row then Current else if fm_EndDate row = None then Pending else Retired)"

definition row_entry :: "FileMetadata \<Rightarrow> entry" where
  "row_entry row = \<lparr>en_owner = fm_UserID row, en_prev = fm_PrevID row, en_phase = row_phase row\<rparr>"

definition registry_of :: "db \<Rightarrow> registry" where
  "registry_of d i = map_option row_entry (file_row i d)"

text \<open>Tables are good when they are well formed and no id is empty.\<close>

definition tables_ok :: "db \<Rightarrow> bool" where
  "tables_ok d \<longleftrightarrow> db_wf d \<and> [] \<notin> fm_ID ` set (file_metadatas d)"

text \<open>A message of the update queue is good when it decodes to a file of the registry and the
  predecessor it names is the file's.\<close>

definition msg_ok :: "'r env \<Rightarrow> registry \<Rightarrow> bytes \<Rightarrow> bool" where
  "msg_ok E a b \<longleftrightarrow> (\<exists>c en. e_ungob_cache E b = Inr c \<and> a (cm_ID c) = Some en \<and> en_prev en = cm_PrevID c)"

text \<open>A state is good when its tables are and so is every message on the way to the worker.\<close>

definition sys_inv :: "'r env \<Rightarrow> ('r \<Rightarrow> string \<Rightarrow> string list) \<Rightarrow> 'r sys \<Rightarrow> bool" where
  "sys_inv E0 view s \<longleftrightarrow> tables_ok (w_db (sy_world s)) \<and>
     (\<forall>b \<in> set (view (w_redis (sy_world s)) MetadataFileUpdateQueue) \<union> (\<Union>ps \<in> set (sy_batches s). pl_Message ` set ps).
        msg_ok E0 (registry_of (w_db (sy_world s))) b)"

text \<open>Redis when a call fails: the reply may be lost after the command took effect, so a failed
  \<open>RPUSH\<close> may or may not have appended and a failed \<open>BLPOP\<close> may or may not have taken the head; the
  cache commands leave the lists alone.\<close>

definition redis_errors :: "'r redis \<Rightarrow> ('r \<Rightarrow> string \<Rightarrow> string list) \<Rightarrow> bool" where
  "redis_errors R view \<longleftrightarrow>
     (\<forall>q m r e r'. RPush R q m r = (Some e, r') \<longrightarrow> view r' = view r \<or> view r' = (view r)(q := view r q @ [m])) \<and>
     (\<forall>q r e r'. BLPop R q r = (BErr e, r') \<longrightarrow> view r' = view r \<or> view r' = (view r)(q := tl (view r q))) \<and>
     (\<forall>k v r e r'. SetEx R k v r = (e, r') \<longrightarrow> view r' = view r)"

text \<open>The environment of one call of a service that was started in the good state \<open>s0\<close>: the Redis client
  and the codec are those of the service.\<close>

definition service_env ::
    "'r env \<Rightarrow> ('r \<Rightarrow> string \<Rightarrow> string list) \<Rightarrow> 'r sys \<Rightarrow> 'r env \<Rightarrow> bool" where
  "service_env E0 view s0 E \<longleftrightarrow> redis_lists (e_redis E0) view \<and> redis_errors (e_redis E0) view \<and> gob_ok E0 \<and>
     sys_inv E0 view s0 \<and> sql_order_ok E \<and> range_ok E \<and>
     e_redis E = e_redis E0 \<and> e_gob_cache E = e_gob_cache E0 \<and> e_ungob_cache E = e_ungob_cache E0"

text \<open>What the ULID generator promises: the ids it can deliver are new and not empty.\<close>

definition new_ids :: "'r env \<Rightarrow> db \<Rightarrow> bool" where
  "new_ids E d \<longleftrightarrow> fresh_ids E d \<and> (\<forall>n. e_ulid E n \<noteq> Inr [])"

inductive service_step ::
    "'r env \<Rightarrow> ('r \<Rightarrow> string \<Rightarrow> string list) \<Rightarrow> 'r sys \<Rightarrow> string \<Rightarrow> 'r sys \<Rightarrow> 'r sys \<Rightarrow> bool"
  for E0 view s0 dir where
  prepare: "service_env E0 view s0 E \<Longrightarrow> new_ids E (w_db (sy_world s)) \<Longrightarrow>
     MetadataService_PrepareFileForUpload E mreq (sy_world s) = (resp, w') \<Longrightarrow>
     service_step E0 view s0 dir s (s\<lparr>sy_world := w'\<rparr>)"
| update: "service_env E0 view s0 E \<Longrightarrow> new_ids E (w_db (sy_world s)) \<Longrightarrow>
     MetadataService_UpdateFileMetadata E ureq (sy_world s) = (resp, w') \<Longrightarrow>
     service_step E0 view s0 dir s (s\<lparr>sy_world := w'\<rparr>)"
| chunk: "service_env E0 view s0 E \<Longrightarrow> FileChunkService_Create E dir creq (sy_world s) = (cresp, w') \<Longrightarrow>
     service_step E0 view s0 dir s (s\<lparr>sy_world := w'\<rparr>)"
| eof: "service_env E0 view s0 E \<Longrightarrow> MetadataService_MarkUploadComplete E ud (sy_world s) = (eresp, w') \<Longrightarrow>
     service_step E0 view s0 dir s (s\<lparr>sy_world := w'\<rparr>)"
| produce: "service_env E0 view s0 E \<Longrightarrow> MetadataChangelog_batch (e_redis E) d (w_redis (sy_world s)) = (q, r') \<Longrightarrow>
     service_step E0 view s0 dir s
       (s\<lparr>sy_world := (sy_world s)\<lparr>w_redis := r'\<rparr>,
          sy_batches := sy_batches s @ (case q of None \<Rightarrow> [] | Some results \<Rightarrow> [results])\<rparr>)"
| execute: "service_env E0 view s0 E \<Longrightarrow> sy_batches s = payloads # rest \<Longrightarrow>
     MetadataExecutor_Execute E (map Some payloads) (sy_world s) = (x, w') \<Longrightarrow>
     service_step E0 view s0 dir s (s\<lparr>sy_world := w', sy_batches := rest\<rparr>)"
| consume: "service_env E0 view s0 E \<Longrightarrow>
     MetadataUpdateConsumer_batch (e_redis E) n u (w_redis (sy_world s)) = (q, r') \<Longrightarrow>
     service_step E0 view s0 dir s (s\<lparr>sy_world := (sy_world s)\<lparr>w_redis := r'\<rparr>\<rparr>)"
| download: "service_env E0 view s0 E \<Longrightarrow> DownloadHandler_Download E n urls (sy_world s) = (b, w') \<Longrightarrow>
     service_step E0 view s0 dir s (s\<lparr>sy_world := w'\<rparr>)"

subsection \<open>The registry under the statements\<close>

lemma find_snoc: "find P (xs @ [x]) = (case find P xs of None \<Rightarrow> if P x then Some x else None | Some y \<Rightarrow> Some y)"
  by (induction xs) auto

lemma file_row_create:
  "file_row i (sql_CreateFileMetadata m d) = (case file_row i d of None \<Rightarrow> if fm_ID m = i then Some m else None
     | Some row \<Rightarrow> Some row)"
  by (simp add: file_row_def find_snoc)

lemma registry_of_cong: "file_metadatas d' = file_metadatas d \<Longrightarrow> registry_of d' = registry_of d"
  by (rule ext) (simp add: registry_of_def file_row_def)

lemma registry_of_stored:
  assumes "stored E m t a d d'" "fresh_ids E d" "\<not> fm_CurrentFlag m" "fm_EndDate m = None"
  shows "registry_of d (fm_ID m) = None" and "registry_of d' = (registry_of d)(fm_ID m \<mapsto>
    \<lparr>en_owner = fm_UserID m, en_prev = fm_PrevID m, en_phase = Pending\<rparr>)"
proof -
  have "fm_ID m \<notin> fm_ID ` set (file_metadatas d)" using assms(1,2) by (auto simp: stored_def fresh_ids_def)
  then have n: "file_row (fm_ID m) d = None" by (simp add: file_row_None)
  then show "registry_of d (fm_ID m) = None" by (simp add: registry_of_def)
  have "registry_of d' = registry_of (sql_CreateFileMetadata m d)"
    using assms(1) by (intro registry_of_cong) (simp add: stored_def)
  also have "\<dots> = (registry_of d)(fm_ID m \<mapsto> \<lparr>en_owner = fm_UserID m, en_prev = fm_PrevID m, en_phase = Pending\<rparr>)"
    using n assms(3,4) by (auto simp: registry_of_def file_row_create row_entry_def row_phase_def split: option.split)
  finally show "registry_of d' = \<dots>" .
qed

lemma registry_of_update:
  assumes "db_wf d" "file_row i d = Some row" "fm_PrevID row = prev"
  shows "registry_of (update_effect (prev, i, st) now d) = switch i (registry_of d)"
proof -
  have ne: "prev \<noteq> Some i"
    using assms file_row_Some [of d i row] by (auto simp: db_wf_def files_wf_def)
  have i: "fm_ID row = i" using assms(2) by (rule file_row_id)
  have k: "file_row k d = Some x \<Longrightarrow> fm_ID x = k" for k x by (rule file_row_id)
  show ?thesis
  proof
    fix k
    consider "k = i" | "prev = Some k" "k \<noteq> i" | "k \<noteq> i" "prev \<noteq> Some k" by blast
    then show "registry_of (update_effect (prev, i, st) now d) k = switch i (registry_of d) k"
    proof cases
      case 1
      with assms(2,3) ne i show ?thesis
        by (cases prev) (simp_all add: switch_at registry_of_def update_effect_def file_row_update row_entry_def row_phase_def)
    next
      case 2
      with assms(2,3) ne k show ?thesis
        by (cases "file_row k d")
          (simp_all add: switch_at registry_of_def update_effect_def file_row_update row_entry_def row_phase_def)
    next
      case 3
      with assms(2,3) show ?thesis by (simp add: registry_of_def switch_at update_effect_row row_entry_def)
    qed
  qed
qed

subsection \<open>How the operations move the tables\<close>

text \<open>Well-formed tables with non-empty ids stay so, and the registry makes registry steps.\<close>

definition moves :: "db \<Rightarrow> db \<Rightarrow> bool" where
  "moves d d' \<longleftrightarrow> tables_ok d' \<and> reachable registry_step (registry_of d) (registry_of d')"

lemma moves_refl: "tables_ok d \<Longrightarrow> moves d d"
  by (simp add: moves_def reachable.start)

lemma moves_trans: "moves d1 d2 \<Longrightarrow> moves d2 d3 \<Longrightarrow> moves d1 d3"
  by (auto simp: moves_def intro: reachable_trans)

lemma moves_same_files:
  assumes "tables_ok d" "file_metadatas d' = file_metadatas d" "tokens_tbl d' = tokens_tbl d"
  shows "moves d d'"
proof -
  have "tables_ok d'" using assms by (simp add: tables_ok_def db_wf_def)
  with registry_of_cong [OF assms(2)] show ?thesis by (simp add: moves_def reachable.start)
qed

lemma moves_stored:
  assumes "tables_ok d" "stored E m t a d d'" "new_ids E d" "\<not> fm_CurrentFlag m" "fm_EndDate m = None"
    and "\<And>p. fm_PrevID m = Some p \<Longrightarrow> p \<in> fm_ID ` set (file_metadatas d)"
  shows "moves d d'"
proof -
  from assms(3) have f: "fresh_ids E d" and ne: "e_ulid E n \<noteq> Inr []" for n by (simp_all add: new_ids_def)
  have "db_wf d'" using assms(1) by (intro stored_wf [OF assms(2) _ f assms(4,6)]) (simp_all add: tables_ok_def)
  moreover from assms(2) ne have "fm_ID m \<noteq> []" "file_metadatas d' = file_metadatas d @ [m]"
    by (auto simp: stored_def)
  then have "[] \<notin> fm_ID ` set (file_metadatas d')" using assms(1) by (auto simp: tables_ok_def)
  moreover have "registry_of d p \<noteq> None" if "fm_PrevID m = Some p" for p
    using assms(6) [OF that] file_row_None [of p d] by (auto simp: registry_of_def)
  then have "registry_step (registry_of d) (registry_of d')"
    using registry_of_stored [OF assms(2) f assms(4,5)] by (metis register)
  ultimately show ?thesis by (auto simp: moves_def tables_ok_def intro: reachable.step reachable.start)
qed


lemma moves_update:
  assumes "tables_ok d" "file_row i d = Some row" "fm_PrevID row = prev" "st \<noteq> StatusUploading"
  shows "moves d (update_effect (prev, i, st) now d)"
proof -
  have wf: "db_wf d" using assms(1) by (simp add: tables_ok_def)
  have "map fm_ID (file_metadatas (update_effect (prev, i, st) now d)) = map fm_ID (file_metadatas d)"
    by (cases prev) (simp_all add: update_effect_def)
  then have "fm_ID ` set (file_metadatas (update_effect (prev, i, st) now d)) = fm_ID ` set (file_metadatas d)"
    by (metis list.set_map)
  moreover have "registry_step (registry_of d) (registry_of (update_effect (prev, i, st) now d))"
    unfolding registry_of_update [OF wf assms(2,3)] using assms(2) by (intro switch) (simp add: registry_of_def)
  ultimately show ?thesis
    using assms(1) db_wf_update_effect [OF wf assms(4)]
    by (auto simp: moves_def tables_ok_def intro: reachable.step reachable.start)
qed

lemma registry_keeps_prev:
  "reachable registry_step a b \<Longrightarrow> a i = Some en \<Longrightarrow> \<exists>en'. b i = Some en' \<and> en_prev en' = en_prev en"
proof (induction rule: reachable.induct)
  case (step b c)
  then obtain en' where en': "b i = Some en'" "en_prev en' = en_prev en" by blast
  from step(2) show ?case
  proof cases
    case (register k prev u)
    with en' show ?thesis by auto
  next
    case (switch k)
    with en' show ?thesis by (auto simp: switch_at split: option.split)
  qed
qed auto

lemma msg_ok_moves: "moves d d' \<Longrightarrow> msg_ok E (registry_of d) b \<Longrightarrow> msg_ok E (registry_of d') b"
  unfolding msg_ok_def moves_def using registry_keeps_prev by fastforce

lemma ExecuteEach_moves:
  assumes "sql_order_ok E" "range_ok E" "ExecuteEach E c w = (r, w')" "tables_ok (w_db w)"
    and "registry_of (w_db w) (cm_ID c) = Some en" "en_prev en = cm_PrevID c"
  shows "moves (w_db w) (w_db w')"
  using ExecuteEach_cases [OF assms(1-3)]
proof cases
  case 1
  with assms(4) show ?thesis by (simp add: moves_refl)
next
  case (2 ufs st w1)
  have m1: "moves (w_db w) (w_db w1)" using assms(4) by (rule moves_same_files) (simp_all add: 2(2))
  from assms(5,6) obtain row where row: "file_row (cm_ID c) (w_db w1) = Some row" "fm_PrevID row = cm_PrevID c"
    by (auto simp: registry_of_def 2(2) row_entry_def)
  have t1: "tables_ok (w_db w1)" using m1 by (simp add: moves_def)
  have "moves (w_db w1) (w_db w')"
  proof (cases "is_OK r")
    case True
    with Update_outcome [OF 2(1)] obtain n where
      "w_db w' = update_effect (cm_PrevID c, cm_ID c, st) (e_clock E n) (w_db w1)" by (auto simp: tx_outcome_def)
    with 2(6) show ?thesis by (auto intro: moves_update [OF t1 row])
  next
    case False
    with Update_outcome [OF 2(1)] t1 show ?thesis by (simp add: tx_outcome_def moves_refl)
  qed
  with m1 show ?thesis by (rule moves_trans)
qed

subsection \<open>How the operations move the update queue\<close>

text \<open>\<open>pushes q b\<close>: the list at \<open>q\<close> may have gained \<open>b\<close> and nothing else changed, whatever was replied.\<close>

lemma push_any:
  assumes "redis_lists R view" "redis_errors R view" "RPush R q m r = (e, r')"
  shows "view r' = view r \<or> view r' = (view r)(q := view r q @ [m])"
  using assms by (cases e) (auto simp: redis_lists_def redis_errors_def)

lemma pop_any:
  assumes "redis_lists R view" "redis_errors R view" "RedisQ_ReadMsg R topic p r = (x, r')"
  shows "(view r' = view r \<or> view r' = (view r)(NewTemplateString topic [p] := tl (view r (NewTemplateString topic [p])))) \<and>
    (\<forall>m. x = OK (Some m) \<longrightarrow> pl_Message m \<in> set (view r (NewTemplateString topic [p])))"
proof -
  let ?q = "NewTemplateString topic [p]"
  obtain y r1 where y: "BLPop R ?q r = (y, r1)" by (cases "BLPop R ?q r")
  show ?thesis
  proof (cases y)
    case (BReply xs)
    with redis_pop [OF assms(1)] y obtain h rest where "view r ?q = h # rest" "xs = [?q, h]" "view r1 = (view r)(?q := rest)" by blast
    with assms(3) y BReply show ?thesis by (auto simp: RedisQ_ReadMsg_def)
  next
    case BNil
    with assms(3) y redis_nil [OF assms(1)] show ?thesis by (auto simp: RedisQ_ReadMsg_def)
  next
    case (BErr e)
    with assms(2,3) y show ?thesis by (auto simp: RedisQ_ReadMsg_def redis_errors_def)
  qed
qed

text \<open>Reading moves messages from the list to the results or drops them; other lists stay.\<close>

lemma read_loop_any:
  assumes "redis_lists R view" "redis_errors R view"
  shows "read_loop (RedisQ_ReadMsg R topic p) n acc r = (res, r') \<Longrightarrow>
    (\<forall>k. k \<noteq> NewTemplateString topic [p] \<longrightarrow> view r' k = view r k) \<and>
    set (view r' (NewTemplateString topic [p])) \<subseteq> set (view r (NewTemplateString topic [p])) \<and>
    (\<forall>out. res = Some out \<longrightarrow> pl_Message ` set out \<subseteq> pl_Message ` set acc \<union> set (view r (NewTemplateString topic [p])))"
proof (induction n arbitrary: acc r)
  case (Suc n)
  let ?q = "NewTemplateString topic [p]"
  obtain x r1 where x: "RedisQ_ReadMsg R topic p r = (x, r1)" by (cases "RedisQ_ReadMsg R topic p r")
  note pop = pop_any [OF assms x]
  have sub: "set (view r1 ?q) \<subseteq> set (view r ?q)" "\<forall>k. k \<noteq> ?q \<longrightarrow> view r1 k = view r k"
    using pop list.set_sel(2) [of "view r ?q"] by (cases "view r ?q"; auto)+
  show ?case
  proof (cases x)
    case (OK q)
    show ?thesis
    proof (cases q)
      case None
      with Suc.prems x OK have "read_loop (RedisQ_ReadMsg R topic p) n acc r1 = (res, r')" by simp
      note IH = Suc.IH [OF this]
      show ?thesis
      proof (intro conjI allI impI)
        fix out
        assume "res = Some out"
        with IH sub(1) show "pl_Message ` set out \<subseteq> pl_Message ` set acc \<union> set (view r ?q)" by blast
      qed (use IH sub in auto)
    next
      case (Some m)
      with Suc.prems x OK have "read_loop (RedisQ_ReadMsg R topic p) n (acc @ [m]) r1 = (res, r')" by simp
      note IH = Suc.IH [OF this]
      from pop OK Some have "pl_Message m \<in> set (view r ?q)" by simp
      then have "pl_Message ` set (acc @ [m]) \<union> set (view r1 ?q) \<subseteq> pl_Message ` set acc \<union> set (view r ?q)"
        using sub(1) by auto
      note acc = this
      show ?thesis
      proof (intro conjI allI impI)
        fix out
        assume "res = Some out"
        with IH have "pl_Message ` set out \<subseteq> pl_Message ` set (acc @ [m]) \<union> set (view r1 ?q)" by simp
        then show "pl_Message ` set out \<subseteq> pl_Message ` set acc \<union> set (view r ?q)" using acc by (rule order_trans)
      qed (use IH sub in auto)
    qed
  qed (use Suc.prems x sub in auto)
qed auto

lemma notify_loop_any:
  "notify_loop E ps failed w = (out, w') \<Longrightarrow> redis_lists (e_redis E) view \<Longrightarrow> redis_errors (e_redis E) view \<Longrightarrow>
    w_db w' = w_db w \<and> view (w_redis w') MetadataFileUpdateQueue = view (w_redis w) MetadataFileUpdateQueue"
proof (induction E ps failed w arbitrary: out w' rule: notify_loop.induct)
  case (3 E payload userID payloads failed w)
  obtain e r where e: "RedisQ_EnqueueMsg (e_redis E) MetadataUpdateClientsNotifierQueue userID payload (w_redis w) = (e, r)"
    by (cases "RedisQ_EnqueueMsg (e_redis E) MetadataUpdateClientsNotifierQueue userID payload (w_redis w)")
  have "view r MetadataFileUpdateQueue = view (w_redis w) MetadataFileUpdateQueue"
    using push_any [OF "3.prems"(2,3)] e queues_differ [of userID]
    by (fastforce simp: RedisQ_EnqueueMsg_def Let_def)
  with "3.IH" "3.prems" e show ?case by (cases e) fastforce+
qed simp_all

lemma execute_loop_moves:
  assumes "sql_order_ok E" "range_ok E" "redis_lists (e_redis E) view" "redis_errors (e_redis E) view"
  shows "execute_loop E (map Some payloads) events w = (x, w') \<Longrightarrow> tables_ok (w_db w) \<Longrightarrow>
    (\<And>p. p \<in> set payloads \<Longrightarrow> msg_ok E (registry_of (w_db w)) (pl_Message p)) \<Longrightarrow>
    moves (w_db w) (w_db w') \<and> view (w_redis w') MetadataFileUpdateQueue = view (w_redis w) MetadataFileUpdateQueue"
proof (induction payloads arbitrary: events w)
  case Nil
  then show ?case
    using notify_loop_any [OF _ assms(3,4)] by (auto simp: Notify_def moves_refl split: prod.splits)
next
  case (Cons p payloads)
  from Cons.prems(3) [of p] obtain c en where c: "e_ungob_cache E (pl_Message p) = Inr c"
    and en: "registry_of (w_db w) (cm_ID c) = Some en" "en_prev en = cm_PrevID c"
    unfolding msg_ok_def by auto
  obtain y w1 where y: "ExecuteEach E c w = (y, w1)" by (cases "ExecuteEach E c w")
  note m1 = ExecuteEach_moves [OF assms(1,2) y Cons.prems(2) en]
  note r1 = ExecuteEach_redis [OF assms(1,2) y]
  show ?case
  proof (cases y)
    case (OK u)
    with Cons.prems(1) c y have run: "execute_loop E (map Some payloads) (events @ [success_event c]) w1 = (x, w')" by simp
    have "tables_ok (w_db w1)" using m1 by (simp add: moves_def)
    moreover have "msg_ok E (registry_of (w_db w1)) (pl_Message q)" if "q \<in> set payloads" for q
      using Cons.prems(3) [of q] that by (intro msg_ok_moves [OF m1]) simp
    ultimately have "moves (w_db w1) (w_db w')"
      "view (w_redis w') MetadataFileUpdateQueue = view (w_redis w1) MetadataFileUpdateQueue"
      using Cons.IH [OF run] by simp_all
    with m1 r1 show ?thesis by (auto intro: moves_trans)
  qed (use Cons.prems(1) c y m1 r1 in auto)
qed

lemma Create_frame:
  assumes "FileChunkService_Create E dir req w = (resp, w')"
  shows "w_redis w' = w_redis w \<and> file_metadatas (w_db w') = file_metadatas (w_db w) \<and>
    tokens_tbl (w_db w') = tokens_tbl (w_db w)"
proof (cases "store_chunk E dir req (fst (Atoi (cr_ChunkID req))) (fst (ParseInt (cr_NextChunkID req))) (tick w) = (resp, w')")
  case True
  from store_chunk_cases [OF this] show ?thesis by (cases "rs_Success resp") auto
next
  case False
  with assms have "w' = tick w" by (auto simp: Create_steps split: if_splits)
  then show ?thesis by simp
qed

lemma download_frame:
  assumes "redis_errors (e_redis E) view"
  shows "download_loop E paths buf w = (r, w') \<Longrightarrow> w_db w' = w_db w \<and> view (w_redis w') = view (w_redis w)"
proof (induction paths arbitrary: buf w)
  case (Cons p paths)
  show ?case
  proof (cases "RGet (e_redis E) p (w_redis w)")
    case None
    obtain x w1 where x: "read_path E p w = (x, w1)" by (cases "read_path E p w")
    note fr = read_path_frame [OF x]
    show ?thesis
    proof (cases x)
      case (Inl e)
      with Cons.prems None x fr show ?thesis by simp
    next
      case (Inr b)
      obtain e r1 where st: "SetEx (e_redis E) p b (w_redis w1) = (e, r1)" by (cases "SetEx (e_redis E) p b (w_redis w1)")
      with assms have "view r1 = view (w_redis w1)" by (simp add: redis_errors_def)
      with Cons.IH Cons.prems None x Inr st fr show ?thesis by fastforce
    qed
  qed (use Cons in simp)
qed simp

subsection \<open>The invariant and the simulation\<close>

lemma sys_invI:
  assumes "sys_inv E0 view s" "moves (w_db (sy_world s)) (w_db (sy_world s'))"
    and "\<And>b. b \<in> set (view (w_redis (sy_world s')) MetadataFileUpdateQueue) \<union> (\<Union>ps \<in> set (sy_batches s'). pl_Message ` set ps) \<Longrightarrow>
      b \<in> set (view (w_redis (sy_world s)) MetadataFileUpdateQueue) \<union> (\<Union>ps \<in> set (sy_batches s). pl_Message ` set ps) \<or>
      msg_ok E0 (registry_of (w_db (sy_world s'))) b"
  shows "sys_inv E0 view s'"
  unfolding sys_inv_def
proof (intro conjI ballI)
  show "tables_ok (w_db (sy_world s'))" using assms(2) by (simp add: moves_def)
next
  fix b
  assume "b \<in> set (view (w_redis (sy_world s')) MetadataFileUpdateQueue) \<union> (\<Union>ps \<in> set (sy_batches s'). pl_Message ` set ps)"
  from assms(3) [OF this] show "msg_ok E0 (registry_of (w_db (sy_world s'))) b"
  proof
    assume "b \<in> set (view (w_redis (sy_world s)) MetadataFileUpdateQueue) \<union> (\<Union>ps \<in> set (sy_batches s). pl_Message ` set ps)"
    with assms(1) have "msg_ok E0 (registry_of (w_db (sy_world s))) b" by (simp add: sys_inv_def)
    then show ?thesis by (rule msg_ok_moves [OF assms(2)])
  qed
qed

text \<open>A call that leaves the batches and the update queue alone.\<close>

lemma sys_inv_tables:
  assumes "sys_inv E0 view s" "moves (w_db (sy_world s)) (w_db w')"
    and "view (w_redis w') MetadataFileUpdateQueue = view (w_redis (sy_world s)) MetadataFileUpdateQueue"
  shows "sys_inv E0 view (s\<lparr>sy_world := w'\<rparr>)"
  by (rule sys_invI [OF assms(1)]) (use assms(2,3) in simp_all)

text \<open>The message of an ended upload is good.\<close>

lemma eof_msg_ok:
  assumes "gob_ok E0" "e_gob_cache E0 (eof_message ud row) = Inr b" "file_row (ud_FileID ud) d = Some row" "tables_ok d"
  shows "msg_ok E0 (registry_of d) b"
proof -
  have "fm_PrevID row \<noteq> Some []"
    using assms(3,4) file_row_Some [of d "ud_FileID ud" row] by (auto simp: tables_ok_def db_wf_def files_wf_def)
  then have "gob_ptr (fm_PrevID row) = fm_PrevID row" by (simp add: gob_ptr_def)
  with assms(1,2) have "e_ungob_cache E0 b = Inr (eof_message ud row)" by (auto simp: gob_ok_def eof_message_def)
  with assms(3) show ?thesis by (auto simp: msg_ok_def eof_message_def registry_of_def row_entry_def)
qed

lemma service_envD:
  assumes "service_env E0 view s0 E"
  shows "redis_lists (e_redis E) view" "redis_errors (e_redis E) view" "sql_order_ok E" "range_ok E" "gob_ok E0"
    "e_gob_cache E = e_gob_cache E0" "e_ungob_cache E = e_ungob_cache E0" "sys_inv E0 view s0"
  using assms by (simp_all add: service_env_def)

lemma msg_ok_env: "e_ungob_cache E = e_ungob_cache E0 \<Longrightarrow> msg_ok E a b = msg_ok E0 a b"
  by (simp add: msg_ok_def)

lemma registering_moves:
  assumes "tables_ok (w_db w)" "new_ids E (w_db w)"
  shows "MetadataService_PrepareFileForUpload E mreq w = (r, w') \<Longrightarrow> moves (w_db w) (w_db w') \<and> w_redis w' = w_redis w"
    and "MetadataService_UpdateFileMetadata E ureq w = (r, w') \<Longrightarrow> moves (w_db w) (w_db w') \<and> w_redis w' = w_redis w"
proof -
  assume "MetadataService_PrepareFileForUpload E mreq w = (r, w')"
  from Prepare_outcome [OF this] show "moves (w_db w) (w_db w') \<and> w_redis w' = w_redis w"
    using moves_refl [OF assms(1)] by (auto simp: first_row_def intro: moves_stored [OF assms(1) _ assms(2)])
next
  assume "MetadataService_UpdateFileMetadata E ureq w = (r, w')"
  from Update_meta_outcome [OF this] show "moves (w_db w) (w_db w') \<and> w_redis w' = w_redis w"
  proof (elim conjE disjE exE)
    fix prev m t a
    assume "prev \<in> set (file_metadatas (w_db w))" "version_row ureq prev m" "stored E m t a (w_db w) (w_db w')"
      "w_redis w' = w_redis w"
    moreover then have "fm_PrevID m = Some p \<Longrightarrow> p \<in> fm_ID ` set (file_metadatas (w_db w))" for p
      by (simp add: version_row_def) (metis imageI)
    ultimately show ?thesis by (auto simp: version_row_def intro: moves_stored [OF assms(1) _ assms(2)])
  qed (use moves_refl [OF assms(1)] in simp)
qed

lemma eof_step:
  assumes "service_env E0 view s0 E" "sys_inv E0 view s" "MetadataService_MarkUploadComplete E ud (sy_world s) = (resp, w')"
  shows "sys_inv E0 view (s\<lparr>sy_world := w'\<rparr>) \<and> moves (w_db (sy_world s)) (w_db w')"
proof -
  note env = service_envD [OF assms(1)]
  have t: "tables_ok (w_db (sy_world s))" using assms(2) by (simp add: sys_inv_def)
  then have wf: "db_wf (w_db (sy_world s))" by (simp add: tables_ok_def)
  note c = MarkUploadComplete_cases [OF wf assms(3)]
  then have m: "moves (w_db (sy_world s)) (w_db w')" using moves_refl [OF t] by simp
  have "w_redis w' = w_redis (sy_world s) \<or> (\<exists>b e. RPush (e_redis E) MetadataFileUpdateQueue b (w_redis (sy_world s)) = (e, w_redis w') \<and>
      msg_ok E0 (registry_of (w_db w')) b)"
    using c eof_msg_ok [OF env(5) _ _ t] unfolding env(6) by auto
  then have "sys_inv E0 view (s\<lparr>sy_world := w'\<rparr>)"
  proof
    assume "w_redis w' = w_redis (sy_world s)"
    then show ?thesis by (intro sys_inv_tables [OF assms(2) m]) simp
  next
    assume "\<exists>b e. RPush (e_redis E) MetadataFileUpdateQueue b (w_redis (sy_world s)) = (e, w_redis w') \<and>
      msg_ok E0 (registry_of (w_db w')) b"
    then obtain b e where b: "RPush (e_redis E) MetadataFileUpdateQueue b (w_redis (sy_world s)) = (e, w_redis w')"
      "msg_ok E0 (registry_of (w_db w')) b" by blast
    from push_any [OF env(1,2) b(1)] b(2) m show ?thesis by (intro sys_invI [OF assms(2)]) auto
  qed
  with m show ?thesis by simp
qed

lemma service_step_inv:
  assumes "service_step E0 view s0 dir s s'" "sys_inv E0 view s"
  shows "sys_inv E0 view s' \<and> moves (w_db (sy_world s)) (w_db (sy_world s'))"
proof -
  have t: "tables_ok (w_db (sy_world s))" and m: "moves (w_db (sy_world s)) (w_db (sy_world s))"
    using assms(2) by (auto simp: sys_inv_def intro: moves_refl)
  note keep = sys_invI [OF assms(2)] and tables = sys_inv_tables [OF assms(2)]
  from assms(1) show ?thesis
  proof cases
    case (prepare E mreq resp w')
    from registering_moves(1) [OF t prepare(3,4)] prepare(1) show ?thesis by (simp add: tables)
  next
    case (update E ureq resp w')
    from registering_moves(2) [OF t update(3,4)] update(1) show ?thesis by (simp add: tables)
  next
    case (chunk E creq cresp w')
    from Create_frame [OF chunk(3)] have "moves (w_db (sy_world s)) (w_db w')" by (intro moves_same_files [OF t]) simp_all
    with Create_frame [OF chunk(3)] chunk(1) show ?thesis by (simp add: tables)
  next
    case (eof E ud eresp w')
    from eof_step [OF eof(2) assms(2) eof(3)] eof(1) show ?thesis by simp
  next
    case (produce E d q r')
    note env = service_envD [OF produce(2)]
    from read_loop_any [OF env(1,2) produce(3) [unfolded MetadataChangelog_batch_def], unfolded file_queue] produce(1) m
    show ?thesis by (intro conjI keep) (auto split: option.splits)
  next
    case (execute E payloads rest x w')
    note env = service_envD [OF execute(2)]
    have "\<And>p. p \<in> set payloads \<Longrightarrow> msg_ok E (registry_of (w_db (sy_world s))) (pl_Message p)"
      using assms(2) execute(3) by (auto simp: sys_inv_def msg_ok_env [OF env(7)])
    from execute_loop_moves [OF env(3,4,1,2) execute(4) [unfolded MetadataExecutor_Execute_def] t this] execute(1,3)
    show ?thesis by (intro conjI keep) auto
  next
    case (consume E n u q r')
    note env = service_envD [OF consume(2)]
    from read_loop_any [OF env(1,2) consume(3) [unfolded MetadataUpdateConsumer_batch_def]] queues_differ [of u] consume(1) m
    show ?thesis by (intro conjI keep) auto
  next
    case (download E n urls b w')
    note env = service_envD [OF download(2)]
    have "w_db w' = w_db (sy_world s) \<and> view (w_redis w') = view (w_redis (sy_world s))"
      using download(3) download_frame [OF env(2)] by (auto simp: DownloadHandler_Download_def split: if_splits)
    with assms(2) download(1) show ?thesis
      by (auto simp: sys_inv_def intro: moves_refl)
  qed
qed

text \<open>The invariant is claimed of services whose environment keeps its laws.\<close>

definition service_inv :: "'r env \<Rightarrow> ('r \<Rightarrow> string \<Rightarrow> string list) \<Rightarrow> 'r sys \<Rightarrow> 'r sys \<Rightarrow> bool" where
  "service_inv E0 view s0 s \<longleftrightarrow> ((\<exists>E. service_env E0 view s0 E) \<longrightarrow> sys_inv E0 view s)"

lemma step_has_env: "service_step E0 view s0 dir s s' \<Longrightarrow> \<exists>E. service_env E0 view s0 E"
  by (auto elim: service_step.cases)

interpretation service: simulation "service_step E0 view s0 dir" "service_inv E0 view s0" s0
  registry_step "\<lambda>s. registry_of (w_db (sy_world s))" for E0 view s0 dir
proof
  fix s s'
  assume I: "service_inv E0 view s0 s" and step: "service_step E0 view s0 dir s s'"
  then have "sys_inv E0 view s" using step_has_env [OF step] by (simp add: service_inv_def)
  from service_step_inv [OF step this] show "service_inv E0 view s0 s'"
    and "reachable registry_step (registry_of (w_db (sy_world s))) (registry_of (w_db (sy_world s')))"
    by (simp_all add: service_inv_def moves_def)
qed (auto simp: service_inv_def service_env_def)

end
