(* ===== verification/Brokers.thy ===== *)
theory Brokers
  imports Data Machines "HOL-Library.Sublist"
begin

text \<open>
  Package \<open>brokers\<close> and its client: \<open>SSEBroker\<close> (\<open>pkg/brokers/sse_broker.go\<close>), \<open>SSEConsumer\<close>
  (\<open>pkg/brokers/metadata_sync_broker.go\<close>) and the handler \<open>EstablishConnection\<close>
  (\<open>web/routes/ssehandler.go\<close>).  The broker's loop, the connections and the senders are goroutines;
  a step is one channel operation.  A connection makes one receiver channel and calls \<open>Unsubscribe\<close>
  once, so connections, their receiver channels and their done channels share a number.  The lists
  \<open>bk_sent\<close>, \<open>bk_buffered\<close> and \<open>bk_received\<close> record what senders handed over, what the loop put on a
  receiver channel and what a connection took from it.
\<close>

subsection \<open>Messages\<close>

record Message =
  msg_UserID :: string
  msg_DeviceID :: string
  msg_Content :: bytes

definition topicName :: "string \<Rightarrow> string \<Rightarrow> string" where
  "topicName userID deviceID = Sprintf_s ''%s_%s'' [userID, deviceID]"

definition Message_Key :: "Message \<Rightarrow> string" where
  "Message_Key m = Sprintf_s ''%s_%s'' [msg_UserID m, msg_DeviceID m]"

text \<open>\<open>SSEConsumer.Execute\<close>: the messages it sends, in order, and the error it returns.\<close>

fun SSEConsumer_Execute :: "'r env \<Rightarrow> Payload list \<Rightarrow> Message list \<times> goerr option" where
  "SSEConsumer_Execute E [] = ([], None)"
| "SSEConsumer_Execute E (payload # payloads) =
     (case e_ungob_event E (pl_Message payload) of
        Inl err \<Rightarrow> ([], Some err)
      | Inr cachedData \<Rightarrow>
          (let str = ''fileID:'' @ ev_FileID cachedData;
               anotherDevice = (if ev_DeviceID cachedData = ''2'' then ''1'' else ''2'');
               own = \<lparr>msg_UserID = ev_UserID cachedData, msg_DeviceID = ev_DeviceID cachedData, msg_Content = str\<rparr>;
               other = \<lparr>msg_UserID = ev_UserID cachedData, msg_DeviceID = anotherDevice, msg_Content = str\<rparr>
           in case SSEConsumer_Execute E payloads of (msgs, err) \<Rightarrow> (own # other # msgs, err)))"

subsection \<open>States\<close>

datatype broker_pc = BSelect | BAck nat | BSend nat Message | BReturned | BPanicked

datatype conn = CIdle | CSubscribing | CServing | CDemanding | CLeaving | CAwaiting | CGone

record broker_state =
  bk_messagesCh :: "Message list"
  bk_subsciberCh :: "(nat \<times> string) list"
  bk_unsubscribeCh :: "nat list"
  bk_topics :: "nat \<rightharpoonup> string"
  bk_pc :: broker_pc
  bk_done :: bool
  bk_chan :: "nat \<Rightarrow> Message list"
  bk_closed :: "nat set"
  bk_conn :: "nat \<Rightarrow> conn"
  bk_peer :: "nat \<Rightarrow> string \<times> string"
  bk_written :: "nat \<Rightarrow> string list"
  bk_demandChan :: "(nat \<times> string) list"
  bk_sent :: "Message list"
  bk_buffered :: "(nat \<times> Message) list"
  bk_received :: "(nat \<times> Message) list"

definition NewSSEBroker :: broker_state where
  "NewSSEBroker = \<lparr>bk_messagesCh = [], bk_subsciberCh = [], bk_unsubscribeCh = [], bk_topics = Map.empty,
     bk_pc = BSelect, bk_done = False, bk_chan = (\<lambda>i. []), bk_closed = {}, bk_conn = (\<lambda>i. CIdle),
     bk_peer = (\<lambda>i. ([], [])), bk_written = (\<lambda>i. []), bk_demandChan = [], bk_sent = [], bk_buffered = [],
     bk_received = []\<rparr>"

definition peer_topic :: "broker_state \<Rightarrow> nat \<Rightarrow> string" where
  "peer_topic s i = topicName (fst (bk_peer s i)) (snd (bk_peer s i))"

subsection \<open>Steps\<close>

text \<open>What \<open>Subscribe\<close>, \<open>Unsubscribe\<close>, \<open>SendMessage\<close> and \<open>HandleDemand\<close> put on the channels, and the channels
  \<open>findTopicByName\<close> may find: it ranges over a map, so any channel with the name, or none.\<close>

definition SSEBroker_Subscribe :: "nat \<Rightarrow> string \<Rightarrow> broker_state \<Rightarrow> broker_state" where
  "SSEBroker_Subscribe receiver name s = s\<lparr>bk_subsciberCh := bk_subsciberCh s @ [(receiver, name)]\<rparr>"

definition SSEBroker_Unsubscribe :: "nat \<Rightarrow> broker_state \<Rightarrow> broker_state" where
  "SSEBroker_Unsubscribe deviceChan s = s\<lparr>bk_unsubscribeCh := bk_unsubscribeCh s @ [deviceChan]\<rparr>"

definition FileUpdateSyncBroker_HandleDemand :: "nat \<times> string \<Rightarrow> broker_state \<Rightarrow> broker_state" where
  "FileUpdateSyncBroker_HandleDemand demand s = s\<lparr>bk_demandChan := bk_demandChan s @ [demand]\<rparr>"

definition findTopicByName :: "(nat \<rightharpoonup> string) \<Rightarrow> string \<Rightarrow> nat set" where
  "findTopicByName topics name = {ch. topics ch = Some name}"

lemmas broker_ops [simp] = SSEBroker_Subscribe_def SSEBroker_Unsubscribe_def FileUpdateSyncBroker_HandleDemand_def
  findTopicByName_def

text \<open>The loop of \<open>SSEBroker.Start\<close>.  Sending on or closing a closed channel panics.\<close>

inductive SSEBroker_Start :: "broker_state \<Rightarrow> broker_state \<Rightarrow> bool" where
  ctx_done: "bk_pc s = BSelect \<Longrightarrow> bk_done s \<Longrightarrow> SSEBroker_Start s (s\<lparr>bk_pc := BReturned\<rparr>)"
| subs_known: "bk_pc s = BSelect \<Longrightarrow> bk_subsciberCh s = (ch, name) # rest \<Longrightarrow> bk_topics s ch \<noteq> None \<Longrightarrow>
     SSEBroker_Start s (s\<lparr>bk_subsciberCh := rest\<rparr>)"
| subs_new: "bk_pc s = BSelect \<Longrightarrow> bk_subsciberCh s = (ch, name) # rest \<Longrightarrow> bk_topics s ch = None \<Longrightarrow>
     SSEBroker_Start s (s\<lparr>bk_subsciberCh := rest, bk_topics := (bk_topics s)(ch \<mapsto> name)\<rparr>)"
| unsubs_unknown: "bk_pc s = BSelect \<Longrightarrow> bk_unsubscribeCh s = ch # rest \<Longrightarrow> bk_topics s ch = None \<Longrightarrow>
     SSEBroker_Start s (s\<lparr>bk_unsubscribeCh := rest\<rparr>)"
| unsubs_known: "bk_pc s = BSelect \<Longrightarrow> bk_unsubscribeCh s = ch # rest \<Longrightarrow> bk_topics s ch \<noteq> None \<Longrightarrow>
     SSEBroker_Start s (s\<lparr>bk_unsubscribeCh := rest, bk_pc := BAck ch\<rparr>)"
| ack: "bk_pc s = BAck ch \<Longrightarrow> bk_conn s ch = CAwaiting \<Longrightarrow>
     SSEBroker_Start s (s\<lparr>bk_pc := (if ch \<in> bk_closed s then BPanicked else BSelect),
       bk_conn := (bk_conn s)(ch := CGone), bk_topics := (bk_topics s)(ch := None),
       bk_closed := insert ch (bk_closed s)\<rparr>)"
| msg_no_topic: "bk_pc s = BSelect \<Longrightarrow> bk_messagesCh s = msg # rest \<Longrightarrow> findTopicByName (bk_topics s) (Message_Key msg) = {} \<Longrightarrow>
     SSEBroker_Start s (s\<lparr>bk_messagesCh := rest\<rparr>)"
| msg_found: "bk_pc s = BSelect \<Longrightarrow> bk_messagesCh s = msg # rest \<Longrightarrow> ch \<in> findTopicByName (bk_topics s) (Message_Key msg) \<Longrightarrow>
     SSEBroker_Start s (s\<lparr>bk_messagesCh := rest, bk_pc := BSend ch msg\<rparr>)"
| send_closed: "bk_pc s = BSend ch msg \<Longrightarrow> ch \<in> bk_closed s \<Longrightarrow> SSEBroker_Start s (s\<lparr>bk_pc := BPanicked\<rparr>)"
| send: "bk_pc s = BSend ch msg \<Longrightarrow> ch \<notin> bk_closed s \<Longrightarrow> length (bk_chan s ch) < 1 \<Longrightarrow>
     SSEBroker_Start s (s\<lparr>bk_pc := BSelect, bk_chan := (bk_chan s)(ch := bk_chan s ch @ [msg]),
       bk_buffered := bk_buffered s @ [(ch, msg)]\<rparr>)"
| send_timeout: "bk_pc s = BSend ch msg \<Longrightarrow> SSEBroker_Start s (s\<lparr>bk_pc := BSelect\<rparr>)"

text \<open>Connection \<open>i\<close> runs \<open>EstablishConnection\<close>: \<open>Subscribe\<close>, then the select loop over the end of the
  request, its receiver and its ticker, and the deferred \<open>Unsubscribe\<close>.\<close>

definition sse_data :: "string \<Rightarrow> string \<Rightarrow> bytes \<Rightarrow> string" where
  "sse_data userID deviceID content =
     Sprintf_s (''data: %s'' @ [char_of (10::nat), char_of (10::nat)])
       [Sprintf_s ''userID:%s,deviceID:%s,%s'' [userID, deviceID, content]]"

inductive EstablishConnection :: "nat \<Rightarrow> broker_state \<Rightarrow> broker_state \<Rightarrow> bool" for i where
  connect: "bk_conn s i = CIdle \<Longrightarrow>
     EstablishConnection i s (s\<lparr>bk_conn := (bk_conn s)(i := CSubscribing),
       bk_peer := (bk_peer s)(i := (userID, deviceID))\<rparr>)"
| Subscribe: "bk_conn s i = CSubscribing \<Longrightarrow> length (bk_subsciberCh s) < 1 \<Longrightarrow>
     EstablishConnection i s ((SSEBroker_Subscribe i (peer_topic s i) s)\<lparr>bk_conn := (bk_conn s)(i := CServing)\<rparr>)"
| receive: "bk_conn s i = CServing \<Longrightarrow> bk_chan s i = msg # rest \<Longrightarrow>
     EstablishConnection i s (s\<lparr>bk_chan := (bk_chan s)(i := rest),
       bk_written := (bk_written s)(i := bk_written s i @
         [sse_data (fst (bk_peer s i)) (snd (bk_peer s i)) (msg_Content msg)]),
       bk_received := bk_received s @ [(i, msg)]\<rparr>)"
| ticker: "bk_conn s i = CServing \<Longrightarrow> EstablishConnection i s (s\<lparr>bk_conn := (bk_conn s)(i := CDemanding)\<rparr>)"
| HandleDemand: "bk_conn s i = CDemanding \<Longrightarrow> length (bk_demandChan s) < 1 \<Longrightarrow>
     EstablishConnection i s ((FileUpdateSyncBroker_HandleDemand (1, fst (bk_peer s i)) s)\<lparr>bk_conn := (bk_conn s)(i := CServing)\<rparr>)"
| request_done: "bk_conn s i = CServing \<Longrightarrow> EstablishConnection i s (s\<lparr>bk_conn := (bk_conn s)(i := CLeaving)\<rparr>)"
| Unsubscribe: "bk_conn s i = CLeaving \<Longrightarrow> length (bk_unsubscribeCh s) < 1 \<Longrightarrow>
     EstablishConnection i s ((SSEBroker_Unsubscribe i s)\<lparr>bk_conn := (bk_conn s)(i := CAwaiting)\<rparr>)"

text \<open>\<open>SendMessage\<close> hands the message over when the channel has room (or gives up after nine seconds,
  changing nothing); the demands are taken by \<open>FileUpdateSyncBroker\<close>.\<close>

inductive SendMessage :: "broker_state \<Rightarrow> broker_state \<Rightarrow> bool" where
  handed_over: "length (bk_messagesCh s) < 1 \<Longrightarrow>
     SendMessage s (s\<lparr>bk_messagesCh := bk_messagesCh s @ [data], bk_sent := bk_sent s @ [data]\<rparr>)"

inductive broker_step :: "broker_state \<Rightarrow> broker_state \<Rightarrow> bool" where
  loop: "SSEBroker_Start s s' \<Longrightarrow> broker_step s s'"
| connection: "EstablishConnection i s s' \<Longrightarrow> broker_step s s'"
| sender: "SendMessage s s' \<Longrightarrow> broker_step s s'"
| demand_taken: "bk_demandChan s = d # rest \<Longrightarrow> broker_step s (s\<lparr>bk_demandChan := rest\<rparr>)"
| end_context: "broker_step s (s\<lparr>bk_done := True\<rparr>)"

subsection \<open>The invariant\<close>

definition pc_msgs :: "broker_state \<Rightarrow> Message list" where
  "pc_msgs s = (case bk_pc s of BSend ch msg \<Rightarrow> [msg] | _ \<Rightarrow> [])"

definition on_chan :: "nat \<Rightarrow> (nat \<times> Message) list \<Rightarrow> Message list" where
  "on_chan i xs = map snd (filter (\<lambda>p. fst p = i) xs)"

definition subscribed :: "conn set" where
  "subscribed = {CServing, CDemanding, CLeaving, CAwaiting}"

text \<open>Per connection: a registered channel is open, belongs to a connection that has not been
  acknowledged and carries its topic; a subscription or an unsubscription under way belongs to
  such a connection too; after the acknowledgement nothing refers to the channel.\<close>

definition reg_inv :: "broker_state \<Rightarrow> nat \<Rightarrow> bool" where
  "reg_inv s i \<longleftrightarrow>
     (bk_topics s i \<noteq> None \<longrightarrow> bk_topics s i = Some (peer_topic s i) \<and> bk_conn s i \<in> subscribed) \<and>
     (i \<in> fst ` set (bk_subsciberCh s) \<longrightarrow> bk_subsciberCh s = [(i, peer_topic s i)] \<and>
        bk_topics s i = None \<and> bk_conn s i \<in> subscribed) \<and>
     (i \<in> set (bk_unsubscribeCh s) \<longrightarrow> bk_unsubscribeCh s = [i] \<and> bk_conn s i = CAwaiting) \<and>
     (bk_pc s = BAck i \<longrightarrow> bk_conn s i = CAwaiting \<and> bk_topics s i \<noteq> None \<and> i \<notin> set (bk_unsubscribeCh s)) \<and>
     (i \<in> bk_closed s \<longrightarrow> bk_conn s i = CGone)"

text \<open>What was put on a channel is what the connection took and what the channel still holds; all
  of it has the connection's key, and what was taken is what was written to the response.\<close>

definition data_inv :: "broker_state \<Rightarrow> nat \<Rightarrow> bool" where
  "data_inv s i \<longleftrightarrow>
     on_chan i (bk_buffered s) = on_chan i (bk_received s) @ bk_chan s i \<and>
     (on_chan i (bk_buffered s) \<noteq> [] \<longrightarrow> bk_conn s i \<notin> {CIdle, CSubscribing}) \<and>
     (\<forall>msg \<in> set (on_chan i (bk_buffered s)). Message_Key msg = peer_topic s i) \<and>
     bk_written s i = map (\<lambda>msg. sse_data (fst (bk_peer s i)) (snd (bk_peer s i)) (msg_Content msg))
       (on_chan i (bk_received s))"

definition global_inv :: "broker_state \<Rightarrow> bool" where
  "global_inv s \<longleftrightarrow> bk_pc s \<noteq> BPanicked \<and>
     (\<forall>ch msg. bk_pc s = BSend ch msg \<longrightarrow> bk_topics s ch = Some (Message_Key msg)) \<and>
     subseq (map snd (bk_buffered s) @ pc_msgs s @ bk_messagesCh s) (bk_sent s)"

definition broker_inv :: "broker_state \<Rightarrow> bool" where
  "broker_inv s \<longleftrightarrow> global_inv s \<and> (\<forall>i. reg_inv s i \<and> data_inv s i)"

lemma on_chan_simps [simp]:
  "on_chan i [] = []" "on_chan i (xs @ [(k, m)]) = on_chan i xs @ (if k = i then [m] else [])"
  by (simp_all add: on_chan_def)

lemma broker_invD:
  assumes "broker_inv s"
  shows "global_inv s" "reg_inv s i" "data_inv s i"
  using assms by (simp_all add: broker_inv_def)

lemma subseq_drop_middle: "subseq (xs @ y # zs) ws \<Longrightarrow> subseq (xs @ zs) ws"
  by (rule subseq_order.trans [of _ "xs @ y # zs"]) (auto intro: list_emb_append_mono)

lemma loop_global:
  assumes "SSEBroker_Start s s'" "broker_inv s"
  shows "global_inv s'"
  using assms(1)
proof cases
  case (ack ch)
  with broker_invD(1) [OF assms(2)] broker_invD(2) [OF assms(2), of ch] show ?thesis
    by (auto simp: global_inv_def reg_inv_def pc_msgs_def)
next
  case (send_closed ch msg)
  with broker_invD(1) [OF assms(2)] broker_invD(2) [OF assms(2), of ch] show ?thesis
    by (auto simp: global_inv_def reg_inv_def subscribed_def)
qed (use broker_invD(1) [OF assms(2)] in \<open>auto simp: global_inv_def pc_msgs_def intro: subseq_drop_middle\<close>)

lemma connection_global:
  assumes "EstablishConnection i s s'" "broker_inv s"
  shows "global_inv s'"
  using assms(1) by cases (use broker_invD(1) [OF assms(2)] in \<open>auto simp: global_inv_def pc_msgs_def\<close>)

lemma loop_data:
  assumes "SSEBroker_Start s s'" "broker_inv s"
  shows "data_inv s' i"
  using assms(1)
proof cases
  case (send ch msg)
  with broker_invD(1) [OF assms(2)] have "bk_topics s ch = Some (Message_Key msg)" by (simp add: global_inv_def)
  with broker_invD(2) [OF assms(2), of ch] have "Message_Key msg = peer_topic s ch" "bk_conn s ch \<in> subscribed"
    by (simp_all add: reg_inv_def)
  with send broker_invD(3) [OF assms(2), of i] show ?thesis
    by (auto simp: data_inv_def subscribed_def peer_topic_def)
qed (use broker_invD(3) [OF assms(2), of i] in \<open>auto simp: data_inv_def peer_topic_def\<close>)

lemma connection_data:
  assumes "EstablishConnection k s s'" "broker_inv s"
  shows "data_inv s' i"
  using assms(1)
proof cases
  case (receive msg rest)
  with broker_invD(3) [OF assms(2), of i] show ?thesis by (auto simp: data_inv_def peer_topic_def)
qed (use broker_invD(3) [OF assms(2), of i] in \<open>auto simp: data_inv_def peer_topic_def\<close>)

lemma loop_reg:
  assumes "SSEBroker_Start s s'" "broker_inv s"
  shows "reg_inv s' i"
  using assms(1)
proof cases
  case (ack ch)
  with broker_invD(2) [OF assms(2), of i] show ?thesis
    by (cases "i = ch") (auto simp: reg_inv_def subscribed_def peer_topic_def)
next
  case (subs_new ch name rest)
  with broker_invD(2) [OF assms(2), of i] broker_invD(2) [OF assms(2), of ch] show ?thesis
    by (cases "i = ch") (auto simp: reg_inv_def peer_topic_def)
next
  case (unsubs_known ch rest)
  with broker_invD(2) [OF assms(2), of i] broker_invD(2) [OF assms(2), of ch] show ?thesis
    by (cases "i = ch") (auto simp: reg_inv_def peer_topic_def)
next
  case (subs_known ch name rest)
  with broker_invD(2) [OF assms(2), of ch] have False by (auto simp: reg_inv_def)
  then show ?thesis ..
qed (use broker_invD(2) [OF assms(2), of i] in \<open>auto simp: reg_inv_def peer_topic_def\<close>)

lemma connection_reg:
  assumes "EstablishConnection k s s'" "broker_inv s"
  shows "reg_inv s' i"
  using assms(1)
proof cases
  case Subscribe
  with broker_invD(2) [OF assms(2), of i] show ?thesis
    by (cases "i = k") (auto simp: reg_inv_def subscribed_def peer_topic_def)
next
  case Unsubscribe
  with broker_invD(2) [OF assms(2), of i] show ?thesis
    by (cases "i = k") (auto simp: reg_inv_def subscribed_def peer_topic_def)
next
  case (connect userID deviceID)
  with broker_invD(2) [OF assms(2), of i] show ?thesis
    by (cases "i = k") (auto simp: reg_inv_def subscribed_def peer_topic_def)
next
  case (receive msg rest)
  with broker_invD(2) [OF assms(2), of i] show ?thesis by (simp add: reg_inv_def peer_topic_def)
next
  case ticker
  with broker_invD(2) [OF assms(2), of i] show ?thesis
    by (cases "i = k") (auto simp: reg_inv_def subscribed_def peer_topic_def)
next
  case HandleDemand
  with broker_invD(2) [OF assms(2), of i] show ?thesis
    by (cases "i = k") (auto simp: reg_inv_def subscribed_def peer_topic_def)
next
  case request_done
  with broker_invD(2) [OF assms(2), of i] show ?thesis
    by (cases "i = k") (auto simp: reg_inv_def subscribed_def peer_topic_def)
qed

lemma subseq_snoc: "subseq (xs @ ys @ zs) ws \<Longrightarrow> subseq (xs @ ys @ zs @ [m]) (ws @ [m])"
  using subseq_append [of "xs @ ys @ zs" "[m]" ws] by simp

lemma inv_other_step:
  assumes "broker_inv s"
  shows "broker_inv (s\<lparr>bk_demandChan := d\<rparr>)" "broker_inv (s\<lparr>bk_done := b\<rparr>)"
    "broker_inv (s\<lparr>bk_messagesCh := bk_messagesCh s @ [m], bk_sent := bk_sent s @ [m]\<rparr>)"
  using assms by (simp_all add: broker_inv_def global_inv_def reg_inv_def data_inv_def peer_topic_def pc_msgs_def subseq_snoc)

interpretation broker: invariant broker_step broker_inv NewSSEBroker
proof
  fix s s'
  assume I: "broker_inv s" and "broker_step s s'"
  from this(2) show "broker_inv s'"
  proof cases
    case loop
    with I show ?thesis by (simp add: broker_inv_def loop_global loop_reg loop_data)
  next
    case (connection i)
    with I show ?thesis by (simp add: broker_inv_def connection_global connection_reg connection_data)
  next
    case sender
    then show ?thesis by cases (simp only: inv_other_step(3) [OF I])
  qed (use I in \<open>simp_all add: inv_other_step\<close>)
qed (simp add: NewSSEBroker_def broker_inv_def global_inv_def reg_inv_def data_inv_def pc_msgs_def)

subsection \<open>Properties\<close>

lemma received_subseq:
  assumes "broker_inv s"
  shows "subseq (on_chan i (bk_received s)) (filter (\<lambda>msg. Message_Key msg = peer_topic s i) (bk_sent s))"
proof -
  let ?key = "\<lambda>msg. Message_Key msg = peer_topic s i"
  note G = broker_invD(1) [OF assms, unfolded global_inv_def] and D = broker_invD(3) [OF assms, of i, unfolded data_inv_def]
  have "subseq (on_chan i (bk_received s)) (on_chan i (bk_buffered s))"
    using D by (simp add: list_emb_prefix)
  also have "subseq (on_chan i (bk_buffered s)) (map snd (bk_buffered s))"
    unfolding on_chan_def by (rule subseq_map) simp
  also have "subseq (map snd (bk_buffered s)) (bk_sent s)"
    using G by (auto intro: subseq_order.trans)
  finally have "subseq (filter ?key (on_chan i (bk_received s))) (filter ?key (bk_sent s))"
    by (rule subseq_filter)
  moreover have "filter ?key (on_chan i (bk_received s)) = on_chan i (bk_received s)"
    using D by (simp add: filter_id_conv)
  ultimately show ?thesis by simp
qed

text \<open>
  C27.  Whatever connections come and go and however the goroutines interleave, the broker never
  sends on or closes a closed channel, and what a connection writes to its response are messages
  that were sent with its user and device key, each at most as often as sent and in the order
  they were sent.
\<close>

theorem SSEBroker_delivery:
  assumes "reachable broker_step NewSSEBroker s"
  shows "bk_pc s \<noteq> BPanicked \<and>
    (\<exists>msgs. subseq msgs (filter (\<lambda>msg. Message_Key msg = peer_topic s i) (bk_sent s)) \<and>
      bk_written s i = map (\<lambda>msg. sse_data (fst (bk_peer s i)) (snd (bk_peer s i)) (msg_Content msg)) msgs)"
proof -
  note I = broker.holds [OF assms]
  from broker_invD(1) [OF I] have "bk_pc s \<noteq> BPanicked" by (simp add: global_inv_def)
  moreover from broker_invD(3) [OF I, of i] have "bk_written s i =
      map (\<lambda>msg. sse_data (fst (bk_peer s i)) (snd (bk_peer s i)) (msg_Content msg)) (on_chan i (bk_received s))"
    by (simp add: data_inv_def)
  ultimately show ?thesis using received_subseq [OF I] by blast
qed

text \<open>The race between \<open>Subscribe\<close> and \<open>Unsubscribe\<close>: the two requests are on different channels, and
  the loop's select may take the second first.\<close>

definition abandoned :: "nat \<Rightarrow> string list \<Rightarrow> broker_state \<Rightarrow> bool" where
  "abandoned i out s \<longleftrightarrow> bk_conn s i = CAwaiting \<and> i \<notin> set (bk_unsubscribeCh s) \<and> bk_pc s \<noteq> BAck i \<and>
     bk_topics s i \<noteq> None \<and> bk_written s i = out"

interpretation abandoned: stable broker_step "abandoned i out" for i out
proof
  fix s s'
  assume A: "abandoned i out s" and "broker_step s s'"
  from this(2) show "abandoned i out s'"
  proof cases
    case loop
    then show ?thesis using A by cases (auto simp: abandoned_def)
  next
    case (connection k)
    then show ?thesis using A by cases (auto simp: abandoned_def)
  next
    case sender
    then show ?thesis using A by cases (auto simp: abandoned_def)
  qed (use A in \<open>auto simp: abandoned_def\<close>)
qed

text \<open>
  C29.  When the loop takes a connection's unsubscription before its subscription, the handler waits
  for ever: in every later state it still waits for the acknowledgement, its channel is
  still registered under its topic, and nothing more is written to its response.
\<close>

theorem Unsubscribe_overtakes_Subscribe:
  assumes "bk_pc s = BSelect" "bk_conn s i = CAwaiting" "bk_unsubscribeCh s = [i]"
    and "bk_subsciberCh s = [(i, t)]" "bk_topics s i = None"
    and "reachable broker_step (s\<lparr>bk_unsubscribeCh := [], bk_subsciberCh := [], bk_topics := (bk_topics s)(i \<mapsto> t)\<rparr>) s'"
  shows "(\<exists>s1. broker_step s s1 \<and>
      broker_step s1 (s\<lparr>bk_unsubscribeCh := [], bk_subsciberCh := [], bk_topics := (bk_topics s)(i \<mapsto> t)\<rparr>)) \<and>
    bk_conn s' i = CAwaiting \<and> bk_topics s' i \<noteq> None \<and> bk_written s' i = bk_written s i"
proof -
  let ?s1 = "s\<lparr>bk_unsubscribeCh := []\<rparr>" and ?s2 = "s\<lparr>bk_unsubscribeCh := [], bk_subsciberCh := [], bk_topics := (bk_topics s)(i \<mapsto> t)\<rparr>"
  have "broker_step s ?s1" using assms by (intro loop unsubs_unknown)
  moreover have "broker_step ?s1 ?s2"
    using subs_new [of ?s1 i t "[]"] assms by (intro loop) simp
  moreover have "abandoned i (bk_written s i) s'"
    using assms by (intro abandoned.stays [OF assms(6)]) (simp add: abandoned_def)
  ultimately show ?thesis by (auto simp: abandoned_def)
qed

subsection \<open>Sample runs\<close>

text \<open>One connection of user \<open>U\<close>, device \<open>1\<close>.\<close>

definition served :: broker_state where
  "served = NewSSEBroker\<lparr>bk_conn := (\<lambda>i. CIdle)(0 := CServing), bk_peer := (\<lambda>i. ([], []))(0 := (''U'', ''1'')),
     bk_subsciberCh := [(0, ''U_1'')]\<rparr>"

definition raced :: broker_state where
  "raced = served\<lparr>bk_conn := (\<lambda>i. CIdle)(0 := CAwaiting), bk_unsubscribeCh := [0]\<rparr>"

definition hello :: Message where
  "hello = \<lparr>msg_UserID = ''U'', msg_DeviceID = ''1'', msg_Content = ''hi''\<rparr>"

definition delivered :: broker_state where
  "delivered = served\<lparr>bk_subsciberCh := [], bk_topics := [0 \<mapsto> ''U_1''], bk_sent := [hello],
     bk_buffered := [(0, hello)], bk_received := [(0, hello)],
     bk_written := (\<lambda>i. [])(0 := [sse_data ''U'' ''1'' ''hi''])\<rparr>"

lemma served_reachable: "reachable broker_step NewSSEBroker served"
proof -
  let ?R = "reachable broker_step NewSSEBroker"
  note c = reachable.step [where step = broker_step, OF _ connection [of 0]]
  have "?R (NewSSEBroker\<lparr>bk_conn := (\<lambda>i. CIdle)(0 := CSubscribing), bk_peer := (\<lambda>i. ([], []))(0 := (''U'', ''1''))\<rparr>)"
    using c [OF reachable.start connect [of NewSSEBroker 0 "''U''" "''1''"]] by (simp add: NewSSEBroker_def)
  from c [OF this Subscribe] show ?thesis
    by (simp add: NewSSEBroker_def served_def peer_topic_def topicName_def)
qed

lemma raced_reachable: "reachable broker_step NewSSEBroker raced"
proof -
  let ?R = "reachable broker_step NewSSEBroker"
  note c = reachable.step [where step = broker_step, OF _ connection [of 0]]
  have "?R (served\<lparr>bk_conn := (\<lambda>i. CIdle)(0 := CLeaving)\<rparr>)"
    using c [OF served_reachable request_done] by (simp add: served_def)
  from c [OF this Unsubscribe] show ?thesis
    by (simp add: NewSSEBroker_def served_def raced_def)
qed

lemma delivered_reachable: "reachable broker_step NewSSEBroker delivered"
proof -
  let ?R = "reachable broker_step NewSSEBroker"
  note l = reachable.step [where step = broker_step, OF _ loop] and c = reachable.step [where step = broker_step, OF _ connection [of 0]]
    and sn = reachable.step [where step = broker_step, OF _ sender]
  have K: "Message_Key hello = ''U_1''" by (simp add: Message_Key_def hello_def)
  have "?R (served\<lparr>bk_subsciberCh := [], bk_topics := [0 \<mapsto> ''U_1'']\<rparr>)"
    using l [OF served_reachable subs_new] by (simp add: served_def NewSSEBroker_def)
  from sn [OF this handed_over [of _ hello]]
  have "?R (served\<lparr>bk_subsciberCh := [], bk_topics := [0 \<mapsto> ''U_1''], bk_messagesCh := [hello], bk_sent := [hello]\<rparr>)"
    by (simp add: served_def NewSSEBroker_def)
  from l [OF this msg_found [of _ hello "[]" 0]]
  have "?R (served\<lparr>bk_subsciberCh := [], bk_topics := [0 \<mapsto> ''U_1''], bk_sent := [hello], bk_pc := BSend 0 hello\<rparr>)"
    by (simp add: served_def NewSSEBroker_def K)
  from l [OF this send [of _ 0 hello]]
  have "?R (served\<lparr>bk_subsciberCh := [], bk_topics := [0 \<mapsto> ''U_1''], bk_sent := [hello],
      bk_chan := (\<lambda>i. [])(0 := [hello]), bk_buffered := [(0, hello)]\<rparr>)"
    by (simp add: served_def NewSSEBroker_def)
  from c [OF this receive [of _ 0 hello "[]"]] show ?thesis
    by (simp add: served_def delivered_def NewSSEBroker_def hello_def fun_upd_idem)
qed

theorem SSEBroker_delivery_witness:
  "bk_pc delivered \<noteq> BPanicked \<and>
   (\<exists>msgs. subseq msgs (filter (\<lambda>msg. Message_Key msg = peer_topic delivered 0) (bk_sent delivered)) \<and>
     bk_written delivered 0 = map (\<lambda>msg. sse_data (fst (bk_peer delivered 0)) (snd (bk_peer delivered 0)) (msg_Content msg)) msgs) \<and>
   bk_written delivered 0 = [sse_data ''U'' ''1'' ''hi'']"
  using SSEBroker_delivery [OF delivered_reachable, of 0] by (simp add: delivered_def)

theorem Unsubscribe_overtakes_Subscribe_witness:
  "reachable broker_step NewSSEBroker raced \<and>
   (let s2 = raced\<lparr>bk_unsubscribeCh := [], bk_subsciberCh := [], bk_topics := (bk_topics raced)(0 \<mapsto> ''U_1'')\<rparr>
    in (\<exists>s1. broker_step raced s1 \<and> broker_step s1 s2) \<and> bk_conn s2 0 = CAwaiting \<and> bk_topics s2 0 = Some ''U_1'')"
  using Unsubscribe_overtakes_Subscribe [OF _ _ _ _ _ reachable.start, of raced 0 "''U_1''"] raced_reachable
  by (simp add: raced_def served_def NewSSEBroker_def)

end
