(* ===== verification/Pipeline.thy ===== *)
theory Pipeline
  imports System Brokers
begin

text \<open>
  The way of an upload through the components when nothing fails: the request that ends it, the
  queue, the worker, the notification queue and the consumer that sends to the user's devices.
\<close>

text \<open>Redis answers: pushing succeeds and popping never replies with an error.\<close>

definition redis_up :: "'r redis \<Rightarrow> bool" where
  "redis_up R \<longleftrightarrow> (\<forall>q m r. fst (RPush R q m r) = None) \<and> (\<forall>q r e. fst (BLPop R q r) \<noteq> BErr e)"

lemma mem_up: "redis_up mem_client"
  by (auto simp: redis_up_def mem_client_def split: list.splits)

lemma push_up:
  assumes "redis_up R" "redis_lists R view"
  obtains r' where "RPush R q m r = (None, r')" "view r' = (view r)(q := view r q @ [m])"
  using assms redis_push [OF assms(2), of q m r] by (cases "RPush R q m r") (auto simp: redis_up_def, metis fst_conv)

lemma read_one:
  assumes "redis_up R" "redis_lists R view" "view r (NewTemplateString topic [p]) = m # rest"
  obtains r' where "read_loop (RedisQ_ReadMsg R topic p) 1 [] r =
      (Some [\<lparr>pl_Message = m, pl_Key = NewTemplateString topic [p], pl_TTL = 0\<rparr>], r')"
    "view r' = (view r)(NewTemplateString topic [p] := rest)"
proof -
  let ?q = "NewTemplateString topic [p]"
  obtain y r' where y: "BLPop R ?q r = (y, r')" by (cases "BLPop R ?q r")
  show thesis
  proof (cases y)
    case BNil
    with redis_nil [OF assms(2)] y assms(3) show thesis by auto
  next
    case (BErr e)
    with assms(1) y show thesis by (metis fst_conv redis_up_def)
  next
    case (BReply xs)
    with redis_pop [OF assms(2), of ?q r xs r'] y assms(3) have "xs = [?q, m]" "view r' = (view r)(?q := rest)" by auto
    with y BReply show thesis by (intro that [of r']) (simp_all add: RedisQ_ReadMsg_def)
  qed
qed

lemma MarkUploadComplete_run:
  assumes "no_faults E" "stmts_loaded E" "db_wf (w_db w)" "redis_up (e_redis E)" "redis_lists (e_redis E) view"
    and "file_row (ud_FileID ud) (w_db w) = Some row" "fm_UploadStaus row = StatusUploading"
    and "e_gob_cache E (eof_message ud row) = Inr b"
  obtains w1 where "MetadataService_MarkUploadComplete E ud w = (BuildResponse None (Some [(''eof'', True)]), w1)"
    "w_db w1 = w_db w" "w_fs w1 = w_fs w"
    "view (w_redis w1) = (view (w_redis w))(MetadataFileUpdateQueue := view (w_redis w) MetadataFileUpdateQueue @ [b])"
proof -
  let ?cl = "[clause_eq ''id'' (ud_FileID ud), clause_eq ''upload_status'' StatusUploading]"
  have dist: "distinct (map fm_ID (file_metadatas (w_db w)))" using assms(3) by (simp add: db_wf_def files_wf_def)
  obtain q w0 where f: "MetadataRepository_FindBy E ?cl w = (q, w0)" by (cases "MetadataRepository_FindBy E ?cl w")
  have q: "q = OK [row]"
    using FindBy_run [OF assms(1,2), of ?cl w] f assms(6,7) by (simp add: where_uploading filter_row [OF dist])
  note fr = FindBy_cases [OF f]
  obtain r' where r': "RPush (e_redis E) MetadataFileUpdateQueue b (w_redis w0) = (None, r')"
    "view r' = (view (w_redis w0))(MetadataFileUpdateQueue := view (w_redis w0) MetadataFileUpdateQueue @ [b])"
    using push_up [OF assms(4,5)] .
  have "MetadataService_MarkUploadComplete E ud w = (BuildResponse None (Some [(''eof'', True)]), w0\<lparr>w_redis := r'\<rparr>)"
    using f q r'(1) assms(8)
    by (simp add: MetadataService_MarkUploadComplete_def eof_message_def RedisQ_EnqueueMsg_def file_queue)
  with fr r'(2) show thesis by (intro that [of "w0\<lparr>w_redis := r'\<rparr>"]) simp_all
qed

lemma Execute_one:
  assumes "redis_up (e_redis E)" "redis_lists (e_redis E) view"
    and "e_ungob_cache E (pl_Message m) = Inr c" "ExecuteEach E c w = (OK (), w1)" "w_redis w1 = w_redis w"
    and "e_gob_event E (success_event c) = Inr v"
  obtains w2 where "MetadataExecutor_Execute E [Some m] w = (EOk, w2)" "w_db w2 = w_db w1"
    "view (w_redis w2) = (view (w_redis w))(client_queue (cm_UserID c) := view (w_redis w) (client_queue (cm_UserID c)) @ [v])"
proof -
  obtain r' where "RPush (e_redis E) (client_queue (cm_UserID c)) v (w_redis w) = (None, r')"
    "view r' = (view (w_redis w))(client_queue (cm_UserID c) := view (w_redis w) (client_queue (cm_UserID c)) @ [v])"
    using push_up [OF assms(1,2)] .
  then show thesis
    using assms(3-6)
    by (intro that [of "w1\<lparr>w_redis := r'\<rparr>"])
      (simp_all add: MetadataExecutor_Execute_def Notify_def rho_Map_map event_payload_def RedisQ_EnqueueMsg_def
        success_event_def)
qed

text \<open>What the consumer of one event sends: one message to the device that uploaded, one to the other
  of the devices \<open>1\<close> and \<open>2\<close>.\<close>

definition device_messages :: "string \<Rightarrow> string \<Rightarrow> string \<Rightarrow> Message list" where
  "device_messages u dev i = map (\<lambda>k. \<lparr>msg_UserID = u, msg_DeviceID = k, msg_Content = ''fileID:'' @ i\<rparr>)
     [dev, if dev = ''2'' then ''1'' else ''2'']"

lemma SSEConsumer_one:
  assumes "gob_ok E" "e_gob_event E (success_event c) = Inr (pl_Message m)"
  shows "SSEConsumer_Execute E [m] = (device_messages (cm_UserID c) (cm_DeviceID c) (cm_ID c), None)"
proof -
  from assms have "e_ungob_event E (pl_Message m) =
      Inr ((success_event c)\<lparr>ev_PrevFileID := gob_ptr (ev_PrevFileID (success_event c))\<rparr>)" by (simp add: gob_ok_def)
  then show ?thesis by (simp add: device_messages_def success_event_def Let_def)
qed

lemma eof_decodes:
  assumes "gob_ok E" "e_gob_cache E (eof_message ud row) = Inr b" "file_row i d = Some row" "tables_ok d"
  shows "e_ungob_cache E b = Inr (eof_message ud row)"
proof -
  have "fm_PrevID row \<noteq> Some []"
    using assms(3,4) file_row_Some [of d i row] by (auto simp: tables_ok_def db_wf_def files_wf_def)
  then have "gob_ptr (fm_PrevID row) = fm_PrevID row" by (simp add: gob_ptr_def)
  with assms(1,2) show ?thesis by (auto simp: gob_ok_def eof_message_def)
qed

end
