(* ===== verification/Authnz.thy ===== *)
theory Authnz
  imports Uploads
begin

text \<open>
  The middlewares of \<open>web/middlewares/authnz.go\<close> and the token lookups they use.  A request is
  its header values, query parameters and the path parameter \<open>fileID\<close>; a middleware either ends
  the request with a status or passes it on with a token.
\<close>

subsection \<open>Requests\<close>

record http_request =
  rq_Header :: "string \<Rightarrow> string list"
  rq_Query :: "string \<Rightarrow> string"
  rq_Param_fileID :: string

definition header_Get :: "http_request \<Rightarrow> string \<Rightarrow> string" where
  "header_Get req key = (case rq_Header req key of [] \<Rightarrow> [] | v # vs \<Rightarrow> v)"

definition header_Add :: "string \<Rightarrow> string \<Rightarrow> http_request \<Rightarrow> http_request" where
  "header_Add key value req = req\<lparr>rq_Header := (rq_Header req)(key := rq_Header req key @ [value])\<rparr>"

definition AccessTokenHeaderKey :: string where "AccessTokenHeaderKey = ''X-Access-Token''"
definition StreamTokenHeaderKey :: string where "StreamTokenHeaderKey = ''X-Stream-Token''"
definition BearerKey :: string where "BearerKey = ''Bearer ''"

definition getBearerToken :: "string \<Rightarrow> string \<times> bool" where
  "getBearerToken token =
     (if \<not> HasPrefix token BearerKey then ([], False)
      else (TrimSpace (TrimPrefix token BearerKey), True))"

subsection \<open>Middlewares\<close>

definition StatusUnauthorized :: int where "StatusUnauthorized = 401"
definition StatusBadRequest :: int where "StatusBadRequest = 400"

definition ValidateAccessToken ::
    "'r env \<Rightarrow> (nat \<Rightarrow> gotime) \<Rightarrow> (string list \<Rightarrow> string list \<Rightarrow> goerr option) \<Rightarrow> http_request \<Rightarrow> 'r world
      \<Rightarrow> (int + Token) \<times> 'r world" where
  "ValidateAccessToken E start bind req w =
     (let accessTokenHeader = (if header_Get req AccessTokenHeaderKey = [] then rq_Query req AccessTokenHeaderKey
                               else header_Get req AccessTokenHeaderKey)
      in if accessTokenHeader = [] then (Inl StatusUnauthorized, w)
         else case getBearerToken accessTokenHeader of
           (accessToken, False) \<Rightarrow> (Inl StatusBadRequest, w)
         | (accessToken, True) \<Rightarrow>
             (case TokensRepository_FindByAccessToken E start bind
                    \<lparr>fc_AccessToken = accessToken, fc_RefreshToken = [], fc_StreamToken = [], fc_ResourceID = [],
                     fc_ResourceType = ''user'', fc_UserID = None, fc_TestMode = True\<rparr> w of
                (OK token, w1) \<Rightarrow> (Inr token, w1)
              | (_, w1) \<Rightarrow> (Inl StatusUnauthorized, w1)))"

definition AddTokenFromUrlToHeader :: "http_request \<Rightarrow> http_request res" where
  "AddTokenFromUrlToHeader req =
     (let downloadSignatureToken = rq_Query req ''X-Sig-Token''
      in case split_char (CHR '':'') downloadSignatureToken of
           streamPart # accessPart # rest \<Rightarrow>
             (if downloadSignatureToken \<noteq> []
              then OK (header_Add StreamTokenHeaderKey (''Bearer '' @ streamPart)
                     (header_Add AccessTokenHeaderKey (''Bearer '' @ accessPart) req))
              else OK req)
         | _ \<Rightarrow> Panic IndexOutOfRange)"

definition ValidateStreamToken ::
    "'r env \<Rightarrow> (nat \<Rightarrow> gotime) \<Rightarrow> http_request \<Rightarrow> 'r world \<Rightarrow> (int + Token) \<times> 'r world" where
  "ValidateStreamToken E start req w =
     (let accessTokenHeader = header_Get req AccessTokenHeaderKey;
          streamTokenHeader = header_Get req StreamTokenHeaderKey
      in if accessTokenHeader = [] \<or> streamTokenHeader = [] then (Inl StatusUnauthorized, w)
         else case getBearerToken accessTokenHeader of
           (accessToken, False) \<Rightarrow> (Inl StatusBadRequest, w)
         | (accessToken, True) \<Rightarrow>
             (case getBearerToken streamTokenHeader of
                (streamToken, False) \<Rightarrow> (Inl StatusBadRequest, w)
              | (streamToken, True) \<Rightarrow>
                  (let fileID = (if rq_Query req ''fileID'' = [] then rq_Param_fileID req else rq_Query req ''fileID'');
                       deviceID = (if accessToken = tk_AccessToken (AnotherToken start) then ''2'' else ''1'')
                   in case TokensRepository_FindByStreamToken E
                          \<lparr>fc_AccessToken = accessToken, fc_RefreshToken = [], fc_StreamToken = streamToken,
                           fc_ResourceID = fileID, fc_ResourceType = ''stream'',
                           fc_UserID = Some (tk_ResourceID (AdminToken start)), fc_TestMode = True\<rparr> w of
                        (OK token, w1) \<Rightarrow> (Inr (token\<lparr>tk_DeviceID := deviceID\<rparr>), w1)
                      | (_, w1) \<Rightarrow> (Inl StatusUnauthorized, w1))))"

subsection \<open>Token lookups\<close>

lemma FindByStreamToken_sound:
  assumes "TokensRepository_FindByStreamToken E clause w = (OK t, w')" and "\<And>n. 0 < e_clock E n"
  shows "t \<in> set (tokens_tbl (w_db w)) \<and> tk_AccessToken t = fc_StreamToken clause \<and>
    tk_ResourceID t = fc_ResourceID clause \<and> tk_UserID t = fc_UserID clause \<and> fc_UserID clause \<noteq> None \<and>
    tk_ResouceType t = ''stream'' \<and> e_clock E (w_tick w + 2) \<le> tk_AccessExpiresAt t"
proof -
  let ?ok = "\<lambda>t. tk_AccessToken t = fc_StreamToken clause \<and> tk_ResourceID t = fc_ResourceID clause \<and>
    fc_UserID clause \<noteq> None \<and> tk_UserID t = fc_UserID clause \<and> tk_ResouceType t = ''stream''"
  from assms(1) have "checked_token E (take 1 (filter ?ok (tokens_tbl (w_db w)))) (tick w) = (OK t, w')"
    by (auto simp: TokensRepository_FindByStreamToken_def ext_call_def sql_GetStreamToken_def split: option.splits)
  from checked_token_OK [OF this assms(2)] obtain rest where
    f: "filter ?ok (tokens_tbl (w_db w)) = t # rest" and live: "e_clock E (w_tick w + 2) \<le> tk_AccessExpiresAt t" by auto
  from f have "t \<in> set (filter ?ok (tokens_tbl (w_db w)))" by simp
  with live show ?thesis by auto
qed

lemma FindByStreamToken_cong:
  assumes "fc_StreamToken c = fc_StreamToken c'" "fc_ResourceID c = fc_ResourceID c'" "fc_UserID c = fc_UserID c'"
  shows "TokensRepository_FindByStreamToken E c w = TokensRepository_FindByStreamToken E c' w"
  unfolding TokensRepository_FindByStreamToken_def assms ..

definition requested_file :: "http_request \<Rightarrow> string" where
  "requested_file req = (if rq_Query req ''fileID'' = [] then rq_Param_fileID req else rq_Query req ''fileID'')"

definition stream_clause :: "(nat \<Rightarrow> gotime) \<Rightarrow> http_request \<Rightarrow> string \<Rightarrow> string \<Rightarrow> FindByClause" where
  "stream_clause start req acc s = \<lparr>fc_AccessToken = acc, fc_RefreshToken = [], fc_StreamToken = s,
     fc_ResourceID = requested_file req, fc_ResourceType = ''stream'',
     fc_UserID = Some (tk_ResourceID (AdminToken start)), fc_TestMode = True\<rparr>"

lemma ValidateStreamToken_steps:
  assumes "getBearerToken (header_Get req AccessTokenHeaderKey) = (acc, True)" "header_Get req AccessTokenHeaderKey \<noteq> []"
    and "getBearerToken (header_Get req StreamTokenHeaderKey) = (s, True)" "header_Get req StreamTokenHeaderKey \<noteq> []"
  shows "ValidateStreamToken E start req w =
    (case TokensRepository_FindByStreamToken E (stream_clause start req acc s) w of
       (OK token, w1) \<Rightarrow> (Inr (token\<lparr>tk_DeviceID :=
          (if acc = tk_AccessToken (AnotherToken start) then ''2'' else ''1'')\<rparr>), w1)
     | (_, w1) \<Rightarrow> (Inl StatusUnauthorized, w1))"
  using assms by (simp add: ValidateStreamToken_def stream_clause_def requested_file_def Let_def)

lemma ValidateStreamToken_Inr:
  assumes "ValidateStreamToken E start req w = (Inr t, w')"
  obtains acc s where "getBearerToken (header_Get req AccessTokenHeaderKey) = (acc, True)"
    "header_Get req AccessTokenHeaderKey \<noteq> []" "header_Get req StreamTokenHeaderKey \<noteq> []"
    "getBearerToken (header_Get req StreamTokenHeaderKey) = (s, True)"
  using assms by (auto simp: ValidateStreamToken_def Let_def split: if_splits prod.splits bool.splits)

lemma ValidateStreamToken_frame:
  "ValidateStreamToken E start req w = (r, w') \<Longrightarrow> w_db w' = w_db w \<and> w_redis w' = w_redis w \<and> w_fs w' = w_fs w"
  by (auto simp: ValidateStreamToken_def TokensRepository_FindByStreamToken_def go_simps
      split: if_splits prod.splits bool.splits res.splits option.splits dest: checked_token_frame)

lemma ValidateStreamToken_passes:
  assumes "ValidateStreamToken E start req w = (Inr t, w')" and "\<And>n. 0 < e_clock E n"
  shows "\<exists>k \<in> set (tokens_tbl (w_db w)). t = k\<lparr>tk_DeviceID := tk_DeviceID t\<rparr> \<and>
    getBearerToken (header_Get req StreamTokenHeaderKey) = (tk_AccessToken k, True) \<and>
    tk_ResourceID k = requested_file req \<and> tk_ResouceType k = ''stream'' \<and>
    tk_UserID k = Some (tk_ResourceID (AdminToken start)) \<and> e_clock E (w_tick w + 2) \<le> tk_AccessExpiresAt k"
proof -
  from assms(1) obtain acc s where b: "getBearerToken (header_Get req AccessTokenHeaderKey) = (acc, True)"
    "header_Get req AccessTokenHeaderKey \<noteq> []" "header_Get req StreamTokenHeaderKey \<noteq> []"
    "getBearerToken (header_Get req StreamTokenHeaderKey) = (s, True)" by (rule ValidateStreamToken_Inr)
  with assms(1) obtain k where run: "TokensRepository_FindByStreamToken E (stream_clause start req acc s) w = (OK k, w')"
    and t: "t = k\<lparr>tk_DeviceID := tk_DeviceID t\<rparr>"
    by (auto simp: ValidateStreamToken_steps split: prod.splits res.splits)
  from FindByStreamToken_sound [OF run assms(2)] b t show ?thesis by (auto simp: stream_clause_def)
qed

text \<open>
  A request that passes \<open>ValidateStreamToken\<close> carries, as its stream token, a token of the
  table that names the requested file, belongs to the built-in administrator and has not expired when the check reads the clock (after
  its query and the scan of the row).
\<close>

theorem ValidateStreamToken_sound:
  assumes "ValidateStreamToken E start req w = (Inr t, w')" and "\<And>n. 0 < e_clock E n"
  shows "\<exists>k \<in> set (tokens_tbl (w_db w)). t = k\<lparr>tk_DeviceID := tk_DeviceID t\<rparr> \<and>
    getBearerToken (header_Get req StreamTokenHeaderKey) = (tk_AccessToken k, True) \<and>
    tk_ResourceID k = requested_file req \<and> tk_ResouceType k = ''stream'' \<and>
    tk_UserID k = Some (tk_ResourceID (AdminToken start)) \<and> e_clock E (w_tick w + 2) \<le> tk_AccessExpiresAt k"
  using assms by (rule ValidateStreamToken_passes)

text \<open>
  The access token of a stream request is not validated: two requests for the same file with
  the same stream token, each with any bearer text as access token, are both refused or both pass,
  with the same token up to the device id.
\<close>

theorem ValidateStreamToken_ignores_access:
  assumes "getBearerToken (header_Get r1 AccessTokenHeaderKey) = (a1, True)" "header_Get r1 AccessTokenHeaderKey \<noteq> []"
    and "getBearerToken (header_Get r2 AccessTokenHeaderKey) = (a2, True)" "header_Get r2 AccessTokenHeaderKey \<noteq> []"
    and "header_Get r1 StreamTokenHeaderKey = header_Get r2 StreamTokenHeaderKey" "requested_file r1 = requested_file r2"
    and "ValidateStreamToken E start r1 w = (Inr t, w')"
  shows "\<exists>dev. ValidateStreamToken E start r2 w = (Inr (t\<lparr>tk_DeviceID := dev\<rparr>), w')"
proof -
  from assms(7) obtain acc s where s: "header_Get r1 StreamTokenHeaderKey \<noteq> []"
    "getBearerToken (header_Get r1 StreamTokenHeaderKey) = (s, True)" by (rule ValidateStreamToken_Inr)
  note v1 = ValidateStreamToken_steps [OF assms(1,2) s(2,1), of E start w]
  note v2 = ValidateStreamToken_steps [OF assms(3,4), of s E start w, folded assms(5), OF s(2,1)]
  have "TokensRepository_FindByStreamToken E (stream_clause start r2 a2 s) w =
      TokensRepository_FindByStreamToken E (stream_clause start r1 a1 s) w"
    by (rule FindByStreamToken_cong) (simp_all add: stream_clause_def assms(6))
  with v1 v2 assms(7) show ?thesis by (auto split: prod.splits res.splits)
qed

subsection \<open>Access tokens and urls\<close>

lemma ValidateAccessToken_cases:
  assumes "ValidateAccessToken E start bind req w = (r, w')"
  shows "w_db w' = w_db w \<and> w_redis w' = w_redis w \<and> w_fs w' = w_fs w \<and>
    (\<forall>t. r = Inr t \<longrightarrow> t \<in> {AdminToken start, AnotherToken start} \<and>
      (\<exists>h. getBearerToken h = (tk_AccessToken t, True) \<and>
         h \<in> {header_Get req AccessTokenHeaderKey, rq_Query req AccessTokenHeaderKey}) \<and>
      e_clock E (w_tick w) \<le> tk_AccessExpiresAt (AdminToken start) \<and>
      (t = AnotherToken start \<longrightarrow> e_clock E (w_tick w + 2) \<le> tk_AccessExpiresAt t)) \<and>
    (start 0 + Hour < e_clock E (w_tick w) \<longrightarrow> (\<exists>status. r = Inl status))"
  using assms
  by (auto simp: ValidateAccessToken_def Let_def TokensRepository_FindByAccessToken_def findByTestMode_def
      IsExpired_def Now_def AdminToken_def AnotherToken_def split: if_splits prod.splits bool.splits res.splits)

text \<open>
  C33.  \<open>ValidateAccessToken\<close> lets a request pass only with the text of one of the two built-in
  tokens, and only while the administrator's token has not expired: an hour after the start of the
  process every request with a bearer token is refused with 401, that of the second token too.
\<close>

theorem ValidateAccessToken_builtin:
  assumes "ValidateAccessToken E start bind req w = (r, w')"
  shows "(\<forall>t. r = Inr t \<longrightarrow> t \<in> {AdminToken start, AnotherToken start} \<and>
      (\<exists>h. getBearerToken h = (tk_AccessToken t, True) \<and>
         h \<in> {header_Get req AccessTokenHeaderKey, rq_Query req AccessTokenHeaderKey})) \<and>
    (start 0 + Hour < e_clock E (w_tick w) \<longrightarrow> (\<exists>status. r = Inl status))"
  using ValidateAccessToken_cases [OF assms] by blast

text \<open>
  \<open>AddTokenFromUrlToHeader\<close>, which precedes the access check of the download routes, splits the
  query parameter \<open>X-Sig-Token\<close> without checking it: the request panics exactly when the parameter
  has no colon, so also when it is missing; with a colon the two parts reach the headers as bearer
  texts behind any values already there.
\<close>

theorem AddTokenFromUrlToHeader_panics:
  "(CHR '':'' \<notin> set (rq_Query req ''X-Sig-Token'') \<longrightarrow> AddTokenFromUrlToHeader req = Panic IndexOutOfRange) \<and>
   (CHR '':'' \<notin> set s \<and> CHR '':'' \<notin> set a \<and> rq_Query req ''X-Sig-Token'' = s @ '':'' @ a \<longrightarrow>
      (\<exists>req'. AddTokenFromUrlToHeader req = OK req' \<and>
         rq_Header req' AccessTokenHeaderKey = rq_Header req AccessTokenHeaderKey @ [''Bearer '' @ a] \<and>
         rq_Header req' StreamTokenHeaderKey = rq_Header req StreamTokenHeaderKey @ [''Bearer '' @ s]))"
  by (auto simp: AddTokenFromUrlToHeader_def Let_def split_char_none split_char_append header_Add_def
      AccessTokenHeaderKey_def StreamTokenHeaderKey_def)

subsection \<open>Instances\<close>

definition auth_token :: Token where
  "auth_token = \<lparr>tk_ResourceID = ''B'', tk_ResouceType = ''stream'', tk_AccessToken = ''tok'', tk_RefreshToken = [],
     tk_TokenType = [], tk_UserID = Some ''U11223455'', tk_DeviceID = [], tk_AccessExpiresAt = 5000,
     tk_RefreshExpiresAt = 5000, tk_Timestamp = stamp 0\<rparr>"

definition auth_world :: "mem_redis world" where
  "auth_world = sample_world\<lparr>w_db := sample_db\<lparr>tokens_tbl := [auth_token]\<rparr>\<rparr>"

definition auth_request :: "string \<Rightarrow> http_request" where
  "auth_request acc = \<lparr>rq_Header = (\<lambda>k. if k = AccessTokenHeaderKey then [''Bearer '' @ acc]
       else if k = StreamTokenHeaderKey then [''Bearer tok''] else []),
     rq_Query = (\<lambda>k. []), rq_Param_fileID = ''B''\<rparr>"

lemma getBearer: "printable s \<Longrightarrow> getBearerToken (''Bearer '' @ s) = (s, True)"
  using TrimPrefix_append [of BearerKey s]
  by (simp add: getBearerToken_def HasPrefix_iff TrimSpace_id BearerKey_def)

lemma auth_headers:
  "header_Get (auth_request a) AccessTokenHeaderKey = ''Bearer '' @ a"
  "header_Get (auth_request a) StreamTokenHeaderKey = ''Bearer '' @ ''tok''"
  "requested_file (auth_request a) = ''B''"
  by (simp_all add: header_Get_def auth_request_def AccessTokenHeaderKey_def StreamTokenHeaderKey_def requested_file_def)

lemma auth_passes:
  "fst (ValidateStreamToken sample_env (\<lambda>n. 0) (auth_request ''any'') auth_world) =
     Inr (auth_token\<lparr>tk_DeviceID := ''1''\<rparr>)"
proof -
  have b: "getBearerToken (header_Get (auth_request ''any'') AccessTokenHeaderKey) = (''any'', True)"
    "getBearerToken (header_Get (auth_request ''any'') StreamTokenHeaderKey) = (''tok'', True)"
    unfolding auth_headers by (simp_all add: getBearer [simplified] printable_def)
  have "sql_GetStreamToken ''tok'' ''B'' (Some ''U11223455'') ''stream'' (w_db auth_world) = [auth_token]"
    by (simp add: sql_GetStreamToken_def auth_world_def auth_token_def)
  then have "fst (TokensRepository_FindByStreamToken sample_env (stream_clause (\<lambda>n. 0) (auth_request ''any'') ''any'' ''tok'')
      auth_world) = OK auth_token"
    by (simp add: TokensRepository_FindByStreamToken_def stream_clause_def auth_headers AdminToken_def
        checked_token_def ext_call_def HasAccessExpired_def Now_def sample_env_def auth_world_def sample_world_def)
      (simp add: auth_token_def)
  then show ?thesis
    using ValidateStreamToken_steps [OF b(1) _ b(2), of sample_env "\<lambda>n. 0" auth_world]
    by (auto simp: auth_headers AnotherToken_def split: prod.splits res.splits)
qed

theorem ValidateStreamToken_sound_witness:
  "\<exists>t w'. ValidateStreamToken sample_env (\<lambda>n. 0) (auth_request ''any'') auth_world = (Inr t, w') \<and>
     tk_ResourceID t = ''B'' \<and> tk_AccessToken t = ''tok''"
proof -
  obtain t w' where run: "ValidateStreamToken sample_env (\<lambda>n. 0) (auth_request ''any'') auth_world = (Inr t, w')"
    using auth_passes by (cases "ValidateStreamToken sample_env (\<lambda>n. 0) (auth_request ''any'') auth_world") simp
  from ValidateStreamToken_sound [OF run sample_clock] have t: "t = auth_token\<lparr>tk_DeviceID := tk_DeviceID t\<rparr>"
    by (simp add: auth_world_def)
  have "tk_ResourceID t = tk_ResourceID auth_token" "tk_AccessToken t = tk_AccessToken auth_token"
    using arg_cong [OF t, of tk_ResourceID] arg_cong [OF t, of tk_AccessToken] by simp_all
  with run show ?thesis by (auto simp: auth_token_def)
qed

theorem ValidateStreamToken_ignores_access_witness:
  "\<exists>t w' dev. ValidateStreamToken sample_env (\<lambda>n. 0) (auth_request ''any'') auth_world = (Inr t, w') \<and>
     ValidateStreamToken sample_env (\<lambda>n. 0) (auth_request ''forged'') auth_world = (Inr (t\<lparr>tk_DeviceID := dev\<rparr>), w')"
proof -
  obtain t w' where run: "ValidateStreamToken sample_env (\<lambda>n. 0) (auth_request ''any'') auth_world = (Inr t, w')"
    using auth_passes by (cases "ValidateStreamToken sample_env (\<lambda>n. 0) (auth_request ''any'') auth_world") simp
  have b: "getBearerToken (header_Get (auth_request ''any'') AccessTokenHeaderKey) = (''any'', True)"
    "getBearerToken (header_Get (auth_request ''forged'') AccessTokenHeaderKey) = (''forged'', True)"
    unfolding auth_headers by (simp_all add: getBearer [simplified] printable_def)
  have h: "header_Get (auth_request a) AccessTokenHeaderKey \<noteq> []"
    "header_Get (auth_request a) StreamTokenHeaderKey = header_Get (auth_request a') StreamTokenHeaderKey"
    "requested_file (auth_request a) = requested_file (auth_request a')" for a a'
    by (simp_all add: auth_headers)
  from ValidateStreamToken_ignores_access [OF b(1) h(1) b(2) h(1) h(2,3) run] run show ?thesis by blast
qed

theorem ValidateAccessToken_builtin_witness:
  "\<exists>status w'. ValidateAccessToken (sample_env\<lparr>e_clock := (\<lambda>n. 2 * Hour)\<rparr>) (\<lambda>n. 0) (\<lambda>p g. None)
     (auth_request ''trial_access_token_1'') sample_world = (Inl status, w')"
proof -
  obtain r w' where run: "ValidateAccessToken (sample_env\<lparr>e_clock := (\<lambda>n. 2 * Hour)\<rparr>) (\<lambda>n. 0) (\<lambda>p g. None)
      (auth_request ''trial_access_token_1'') sample_world = (r, w')" by fastforce
  from ValidateAccessToken_builtin [OF run] run show ?thesis by (auto simp: duration_defs)
qed

theorem AddTokenFromUrlToHeader_panics_witness:
  "AddTokenFromUrlToHeader (auth_request ''any'') = Panic IndexOutOfRange"
  using AddTokenFromUrlToHeader_panics [of "auth_request ''any''"] by (simp add: auth_request_def)

end
