(* ===== verification/Handlers.thy ===== *)
theory Handlers
  imports Authnz Download Pipeline
begin

text \<open>
  The HTTP handlers (\<open>web/routes/metadatahandler.go\<close>, \<open>chunkhandler.go\<close>, \<open>sharehandler.go\<close>, \<open>ssehandler.go\<close>) and the
  routes with their middlewares (\<open>cmd/server/main.go\<close>).  Reading a request is the web framework's:
  a call carries its headers and parameters, and what binding its body gave.  A handler gets the
  token that the middleware left in the context, if any.  A call to the event stream also carries the
  ticks of its ticker and which of their demands the producer serves while it lasts.  The framework's recovery middleware
  turns a panic into status 500, and its error handler gives an error a handler returns the status
  of that error (404 when the file to attach cannot be opened); \<open>FrameworkError\<close> are these answers.
\<close>

subsection \<open>Replies\<close>

record cookie =
  ck_Name :: string
  ck_Value :: string
  ck_MaxAge :: int

datatype body =
    BToken "MetadataTokenResponse Response"
  | BEof "(string \<times> bool) list Response"
  | BChunk "ChunkUploadResponse Response"
  | BFiles "files_Response Response"
  | BFile "FilesWithChunks Response"

datatype reply =
    NoContent int
  | JSON int body "cookie list"
  | Attachment string bytes
  | EventStream string string
  | Text int string
  | FrameworkError int

record http_call =
  hc_req :: http_request
  hc_metadata :: "goerr + MetadataRequest"
  hc_update :: "goerr + FileUpdateMetadataRequest"
  hc_chunk :: "goerr + FileChunkRequest"
  hc_data :: "goerr + goerr + bytes"
  hc_ticks :: "bool list"

text \<open>\<open>resp.Error.HttpStatus\<close> of a response that is not a success.\<close>

definition error_reply :: "(('d Response \<Rightarrow> body)) \<Rightarrow> 'd Response \<Rightarrow> reply res" where
  "error_reply wrap resp = (case rs_Error resp of None \<Rightarrow> Panic NilDeref | Some er \<Rightarrow> OK (JSON (er_HttpStatus er) (wrap resp) []))"

subsection \<open>Metadata handlers\<close>

definition MetadataHandler_MarkUploadComplete ::
    "'r env \<Rightarrow> http_call \<Rightarrow> Token option \<Rightarrow> 'r world \<Rightarrow> reply res \<times> 'r world" where
  "MetadataHandler_MarkUploadComplete E c ctx w =
     (case ctx of
        None \<Rightarrow> (OK (NoContent 401), w)
      | Some token \<Rightarrow>
          (if tk_ResourceID token \<noteq> rq_Param_fileID (hc_req c) then (OK (NoContent 400), w)
           else case MetadataService_MarkUploadComplete E
                  \<lparr>ud_UserID = [], ud_DeviceID = tk_DeviceID token, ud_FileID = tk_ResourceID token, ud_ChunkID = []\<rparr> w of
             (resp, w1) \<Rightarrow> (if \<not> rs_Success resp then error_reply BEof resp else OK (JSON 200 (BEof resp) []), w1)))"

text \<open>The end of both downloads: the buffer is written to a file under \<open>./tmp/outdir\<close> of the working
  directory \<open>cwd\<close>, sent, and removed.\<close>

definition output_elems :: "string \<Rightarrow> string \<Rightarrow> string list" where
  "output_elems cwd name = path_elems [cwd, Sprintf_s ''./tmp/outdir/%s'' [name]]"

definition os_Remove :: "'r env \<Rightarrow> string \<Rightarrow> 'r world \<Rightarrow> 'r world" where
  "os_Remove E path w =
     (case ext_call E w of (Some e, w1) \<Rightarrow> w1 | (None, w1) \<Rightarrow> w1\<lparr>w_fs := (w_fs w1)(path := None)\<rparr>)"

definition send_output :: "'r env \<Rightarrow> string \<Rightarrow> string \<Rightarrow> bytes \<Rightarrow> 'r world \<Rightarrow> reply res \<times> 'r world" where
  "send_output E cwd name buffer w =
     (let els = output_elems cwd name; outputFilePath = path_of els
      in if \<not> list_all (\<lambda>p. w_fs w p = Some FDir) (butlast (parents els)) then (OK (NoContent 500), tick w)
         else case os_Create E outputFilePath w of
           (Some e, w1) \<Rightarrow> (OK (NoContent 500), w1)
         | (None, w1) \<Rightarrow>
             (case copy_to_file E outputFilePath buffer w1 of
                (Some e, w2) \<Rightarrow> (OK (NoContent 500), os_Remove E outputFilePath w2)
              | (None, w2) \<Rightarrow>
                  (case ext_call E w2 of
                     (Some e, w3) \<Rightarrow> (OK (FrameworkError 404), os_Remove E outputFilePath w3)
                   | (None, w3) \<Rightarrow> (OK (Attachment name buffer), os_Remove E outputFilePath w3))))"

definition MetadataHandler_DownloadFileV2 ::
    "'r env \<Rightarrow> string \<Rightarrow> http_call \<Rightarrow> Token option \<Rightarrow> 'r world \<Rightarrow> reply res \<times> 'r world" where
  "MetadataHandler_DownloadFileV2 E cwd c ctx w =
     (case ctx of
        None \<Rightarrow> (OK (NoContent 401), w)
      | Some token \<Rightarrow>
          (case MetadataService_ListOrderedFileChunks E (rq_Param_fileID (hc_req c)) (tk_ResourceID token) w of
             (Err err, w1) \<Rightarrow> (error_reply BFile (BuildResponse (Some err) None), w1)
           | (Panic p, w1) \<Rightarrow> (Panic p, w1)
           | (OK (downloadUrls, infoResp), w1) \<Rightarrow>
               (case DownloadHandler_Download E (fi_Size infoResp) downloadUrls w1 of
                  (Err e, w2) \<Rightarrow> (OK (NoContent 500), w2)
                | (Panic p, w2) \<Rightarrow> (Panic p, w2)
                | (OK buffer, w2) \<Rightarrow> send_output E cwd (fi_Name infoResp) buffer w2)))"

definition MetadataHandler_DownloadFile ::
    "'r env \<Rightarrow> string \<Rightarrow> http_call \<Rightarrow> Token option \<Rightarrow> 'r world \<Rightarrow> reply res \<times> 'r world" where
  "MetadataHandler_DownloadFile E cwd c ctx w =
     (case ctx of
        None \<Rightarrow> (OK (NoContent 401), w)
      | Some token \<Rightarrow>
          (case MetadataService_ListOrderedFileChunks E (rq_Param_fileID (hc_req c)) (tk_ResourceID token) w of
             (Err err, w1) \<Rightarrow> (error_reply BFile (BuildResponse (Some err) None), w1)
           | (Panic p, w1) \<Rightarrow> (Panic p, w1)
           | (OK (downloadUrls, infoResp), w1) \<Rightarrow>
               (case DownloadFile_buffer E (fi_Size infoResp) downloadUrls w1 of
                  (Err e, w2) \<Rightarrow> (OK (NoContent 500), w2)
                | (Panic p, w2) \<Rightarrow> (Panic p, w2)
                | (OK buffer, w2) \<Rightarrow> send_output E cwd (fi_Name infoResp) buffer w2)))"

definition WriteSessionCookie :: "int \<Rightarrow> string \<Rightarrow> string \<Rightarrow> cookie" where
  "WriteSessionCookie maxAge key value = \<lparr>ck_Name = key, ck_Value = value, ck_MaxAge = maxAge\<rparr>"

definition MetadataHandler_PostFileMetadata ::
    "'r env \<Rightarrow> http_call \<Rightarrow> Token option \<Rightarrow> 'r world \<Rightarrow> reply res \<times> 'r world" where
  "MetadataHandler_PostFileMetadata E c ctx w =
     (case hc_metadata c of
        Inl err \<Rightarrow> (OK (NoContent 400), w)
      | Inr req \<Rightarrow>
          (case ctx of
             None \<Rightarrow> (OK (NoContent 401), w)
           | Some token \<Rightarrow>
               (case MetadataService_PrepareFileForUpload E
                      \<lparr>mr_UserID = tk_ResourceID token, mr_FileName = mr_FileName req, mr_FileType = mr_FileType req,
                       mr_FileSize = mr_FileSize req, mr_Digest = mr_Digest req, mr_UploadStatus = StatusUploading,
                       mr_Chunks = mr_Chunks req, mr_AccessToken = []\<rparr> w of
                  (Err e, w1) \<Rightarrow> (Err e, w1)
                | (Panic p, w1) \<Rightarrow> (Panic p, w1)
                | (OK resp, w1) \<Rightarrow>
                    (if rs_Success resp
                     then case rs_Data resp of
                            None \<Rightarrow> (Panic NilDeref, w1)
                          | Some data \<Rightarrow>
                              (OK (JSON 201 (BToken resp)
                                 [WriteSessionCookie (mt_ExpiresIn data) ''stream_token'' (mt_StreamToken data)]), w1)
                     else (error_reply BToken resp, w1)))))"

definition MetadataHandler_GetFileChunks ::
    "'r env \<Rightarrow> http_call \<Rightarrow> Token option \<Rightarrow> 'r world \<Rightarrow> reply res \<times> 'r world" where
  "MetadataHandler_GetFileChunks E c ctx w =
     (case ctx of
        None \<Rightarrow> (OK (NoContent 403), w)
      | Some token \<Rightarrow>
          (if rq_Param_fileID (hc_req c) = [] then (OK (NoContent 400), w)
           else case MetadataService_GetFileChunks E (rq_Param_fileID (hc_req c)) w of
             (Err err, w1) \<Rightarrow> (error_reply BFile (BuildResponse (Some err) None), w1)
           | (Panic p, w1) \<Rightarrow> (Panic p, w1)
           | (OK fileWithChunks, w1) \<Rightarrow> (OK (JSON 200 (BFile (BuildResponse None (Some fileWithChunks))) []), w1)))"

text \<open>A query parameter that is not a number counts as 0.\<close>

definition page_param :: "http_request \<Rightarrow> string \<Rightarrow> int" where
  "page_param req key = (case Atoi (rq_Query req key) of (n, None) \<Rightarrow> n | (n, Some e) \<Rightarrow> 0)"

definition MetadataHandler_ListFilesWithMetadata ::
    "'r env \<Rightarrow> http_call \<Rightarrow> Token option \<Rightarrow> 'r world \<Rightarrow> reply res \<times> 'r world" where
  "MetadataHandler_ListFilesWithMetadata E c ctx w =
     (case ctx of
        None \<Rightarrow> (OK (NoContent 403), w)
      | Some token \<Rightarrow>
          (case MetadataService_ListFilesForUser E (tk_ResourceID token)
                  (page_param (hc_req c) ''offset'') (page_param (hc_req c) ''limit'') w of
             (Err e, w1) \<Rightarrow> (Err e, w1)
           | (Panic p, w1) \<Rightarrow> (Panic p, w1)
           | (OK resp, w1) \<Rightarrow> (if rs_Success resp then OK (JSON 200 (BFiles resp) []) else error_reply BFiles resp, w1)))"

definition MetadataHandler_UpdateFileMetadata ::
    "'r env \<Rightarrow> http_call \<Rightarrow> Token option \<Rightarrow> 'r world \<Rightarrow> reply res \<times> 'r world" where
  "MetadataHandler_UpdateFileMetadata E c ctx w =
     (case hc_update c of
        Inl err \<Rightarrow> (OK (NoContent 400), w)
      | Inr req \<Rightarrow>
          (case ctx of
             None \<Rightarrow> (OK (NoContent 403), w)
           | Some token \<Rightarrow>
               (case MetadataService_UpdateFileMetadata E (req\<lparr>ur_UserID := tk_ResourceID token\<rparr>) w of
                  (Err e, w1) \<Rightarrow> (Err e, w1)
                | (Panic p, w1) \<Rightarrow> (Panic p, w1)
                | (OK resp, w1) \<Rightarrow>
                    (if rs_Success resp then OK (JSON 200 (BToken resp) []) else error_reply BToken resp, w1))))"

subsection \<open>Chunk and share handlers\<close>

definition ChunkHandler_UpsertChunks ::
    "'r env \<Rightarrow> string \<Rightarrow> http_call \<Rightarrow> Token option \<Rightarrow> 'r world \<Rightarrow> reply res \<times> 'r world" where
  "ChunkHandler_UpsertChunks E dir c ctx w =
     (case ctx of
        None \<Rightarrow> (OK (NoContent 403), w)
      | Some token \<Rightarrow>
          (case tk_UserID token of
             None \<Rightarrow> (OK (NoContent 403), w)
           | Some userID \<Rightarrow>
               (case hc_chunk c of
                  Inl err \<Rightarrow> (OK (NoContent 500), w)
                | Inr req \<Rightarrow>
                    (case hc_data c of
                       Inl err \<Rightarrow> (OK (NoContent 400), w)
                     | Inr (Inl err) \<Rightarrow> (OK (NoContent 500), w)
                     | Inr (Inr file) \<Rightarrow>
                         (case FileChunkService_Create E dir
                                (req\<lparr>cr_Data := file, cr_FileID := tk_ResourceID token, cr_UserID := userID\<rparr>) w of
                            (resp, w1) \<Rightarrow>
                              (if rs_Success resp then OK (JSON 201 (BChunk resp) []) else error_reply BChunk resp, w1))))))"

definition ShareHandler_ShareFile :: "reply" where
  "ShareHandler_ShareFile = NoContent 403"

subsection \<open>The event stream\<close>

text \<open>The loop of \<open>EstablishConnection\<close> as the request makes it: every tick of its ticker hands a demand for one
  message of the user to the syncer, whose producer reads it off the user's notification list.  A tick is
  \<open>True\<close> when the producer serves its demand, and \<open>False\<close> when it does not (the connection ends first or
  waits in \<open>HandleDemand\<close>, the producer has returned).  How the goroutines get there, and what the receivers
  are sent, is modelled by \<open>Brokers\<close> and \<open>Producers\<close>.\<close>

fun EstablishConnection_loop :: "'r redis \<Rightarrow> string \<Rightarrow> bool list \<Rightarrow> 'r \<Rightarrow> 'r" where
  "EstablishConnection_loop R userID [] r = r"
| "EstablishConnection_loop R userID (taken # ticks) r =
     EstablishConnection_loop R userID ticks (if taken then snd (MetadataUpdateConsumer_batch R 1 userID r) else r)"

definition SSEHandler_EstablishConnection ::
    "'r env \<Rightarrow> http_call \<Rightarrow> Token option \<Rightarrow> 'r world \<Rightarrow> reply res \<times> 'r world" where
  "SSEHandler_EstablishConnection E c ctx w =
     (case ctx of
        None \<Rightarrow> (OK (NoContent 401), w)
      | Some token \<Rightarrow>
          (let userID = tk_ResourceID token; deviceID = rq_Query (hc_req c) ''deviceID''
           in (OK (EventStream userID deviceID),
               w\<lparr>w_redis := EstablishConnection_loop (e_redis E) userID (hc_ticks c) (w_redis w)\<rparr>)))"

subsection \<open>Routes\<close>

datatype route = Ping | SubscribeDevices | GetFile | PatchFile | PostFiles | GetFiles | PutEof | PatchChunks | PutShare
  | GetDownload | GetDownloadV2

text \<open>Where the server runs: its working directory, the directory of its blobs, the start of its process
  (the clock the built-in tokens are made with) and how SQLite binds statement parameters.\<close>

record server =
  sv_cwd :: string
  sv_blobs :: string
  sv_start :: "nat \<Rightarrow> gotime"
  sv_bind :: "string list \<Rightarrow> string list \<Rightarrow> goerr option"

text \<open>A handler behind a middleware that puts a token into the context.\<close>

definition guarded ::
    "(int + Token) \<times> 'r world \<Rightarrow> (Token option \<Rightarrow> 'r world \<Rightarrow> reply res \<times> 'r world) \<Rightarrow> reply res \<times> 'r world" where
  "guarded check h = (case check of (Inl status, w1) \<Rightarrow> (OK (NoContent status), w1) | (Inr token, w1) \<Rightarrow> h (Some token) w1)"

definition access_route ::
    "'r env \<Rightarrow> server \<Rightarrow> http_call \<Rightarrow> (Token option \<Rightarrow> 'r world \<Rightarrow> reply res \<times> 'r world) \<Rightarrow> 'r world \<Rightarrow> reply res \<times> 'r world" where
  "access_route E sv c h w = guarded (ValidateAccessToken E (sv_start sv) (sv_bind sv) (hc_req c) w) h"

definition stream_route ::
    "'r env \<Rightarrow> server \<Rightarrow> http_call \<Rightarrow> (Token option \<Rightarrow> 'r world \<Rightarrow> reply res \<times> 'r world) \<Rightarrow> 'r world \<Rightarrow> reply res \<times> 'r world" where
  "stream_route E sv c h w = guarded (ValidateStreamToken E (sv_start sv) (hc_req c) w) h"

definition signed_route ::
    "'r env \<Rightarrow> server \<Rightarrow> http_call \<Rightarrow> (http_call \<Rightarrow> Token option \<Rightarrow> 'r world \<Rightarrow> reply res \<times> 'r world) \<Rightarrow> 'r world
      \<Rightarrow> reply res \<times> 'r world" where
  "signed_route E sv c h w =
     (case AddTokenFromUrlToHeader (hc_req c) of
        Err e \<Rightarrow> (Err e, w)
      | Panic p \<Rightarrow> (Panic p, w)
      | OK req \<Rightarrow> access_route E sv (c\<lparr>hc_req := req\<rparr>) (h (c\<lparr>hc_req := req\<rparr>)) w)"

definition dispatch_route :: "'r env \<Rightarrow> server \<Rightarrow> route \<Rightarrow> http_call \<Rightarrow> 'r world \<Rightarrow> reply res \<times> 'r world" where
  "dispatch_route E sv rt c w =
     (case rt of
        Ping \<Rightarrow> (OK (Text 200 ''Hello, World!''), w)
      | SubscribeDevices \<Rightarrow> access_route E sv c (SSEHandler_EstablishConnection E c) w
      | GetFile \<Rightarrow> access_route E sv c (MetadataHandler_GetFileChunks E c) w
      | PatchFile \<Rightarrow> access_route E sv c (MetadataHandler_UpdateFileMetadata E c) w
      | PostFiles \<Rightarrow> access_route E sv c (MetadataHandler_PostFileMetadata E c) w
      | GetFiles \<Rightarrow> access_route E sv c (MetadataHandler_ListFilesWithMetadata E c) w
      | PutEof \<Rightarrow> stream_route E sv c (MetadataHandler_MarkUploadComplete E c) w
      | PatchChunks \<Rightarrow> stream_route E sv c (ChunkHandler_UpsertChunks E (sv_blobs sv) c) w
      | PutShare \<Rightarrow> access_route E sv c (\<lambda>ctx w1. (OK ShareHandler_ShareFile, w1)) w
      | GetDownload \<Rightarrow> signed_route E sv c (MetadataHandler_DownloadFile E (sv_cwd sv)) w
      | GetDownloadV2 \<Rightarrow> signed_route E sv c (MetadataHandler_DownloadFileV2 E (sv_cwd sv)) w)"

text \<open>\<open>middleware.Recover\<close>.\<close>

definition serve :: "'r env \<Rightarrow> server \<Rightarrow> route \<Rightarrow> http_call \<Rightarrow> 'r world \<Rightarrow> reply \<times> 'r world" where
  "serve E sv rt c w =
     (case dispatch_route E sv rt c w of
        (OK r, w1) \<Rightarrow> (r, w1)
      | (Err e, w1) \<Rightarrow> (FrameworkError 500, w1)
      | (Panic p, w1) \<Rightarrow> (FrameworkError 500, w1))"

subsection \<open>Who may change what\<close>

definition same_state :: "'r world \<Rightarrow> 'r world \<Rightarrow> bool" where
  "same_state w w' \<longleftrightarrow> w_db w' = w_db w \<and> w_redis w' = w_redis w \<and> w_fs w' = w_fs w"

lemma same_state_refl [simp]: "same_state w w"
  by (simp add: same_state_def)

lemma same_state_trans: "same_state w1 w2 \<Longrightarrow> same_state w2 w3 \<Longrightarrow> same_state w1 w3"
  by (simp add: same_state_def)

text \<open>A request with the built-in access token \<open>t\<close>: the administrator's has not expired at the request's
  first clock reading, nor, where \<open>t\<close> is the other one, \<open>t\<close> at its third.\<close>

definition builtin_bearer :: "'r env \<Rightarrow> server \<Rightarrow> http_request \<Rightarrow> 'r world \<Rightarrow> Token \<Rightarrow> bool" where
  "builtin_bearer E sv req w t \<longleftrightarrow> t \<in> {AdminToken (sv_start sv), AnotherToken (sv_start sv)} \<and>
     (\<exists>h. getBearerToken h = (tk_AccessToken t, True) \<and>
        h \<in> {header_Get req AccessTokenHeaderKey, rq_Query req AccessTokenHeaderKey}) \<and>
     e_clock E (w_tick w) \<le> tk_AccessExpiresAt (AdminToken (sv_start sv)) \<and>
     (t = AnotherToken (sv_start sv) \<longrightarrow> e_clock E (w_tick w + 2) \<le> tk_AccessExpiresAt t)"

text \<open>A request whose stream token \<open>k\<close> is in the table, names the requested file and the
  administrator and has not expired at the request's clock reading, which the check makes right
  after querying and scanning the row.\<close>

definition stream_bearer :: "'r env \<Rightarrow> server \<Rightarrow> http_request \<Rightarrow> 'r world \<Rightarrow> bool" where
  "stream_bearer E sv req w \<longleftrightarrow> (\<exists>k \<in> set (tokens_tbl (w_db w)).
     getBearerToken (header_Get req StreamTokenHeaderKey) = (tk_AccessToken k, True) \<and>
     tk_ResourceID k = requested_file req \<and> tk_ResouceType k = ''stream'' \<and>
     tk_UserID k = Some (tk_ResourceID (AdminToken (sv_start sv))) \<and>
     e_clock E (w_tick w + 2) \<le> tk_AccessExpiresAt k)"

text \<open>Messages were taken off the front of one list, and nothing else has changed.\<close>

definition only_takes :: "'r redis \<Rightarrow> string \<Rightarrow> 'r world \<Rightarrow> 'r world \<Rightarrow> bool" where
  "only_takes R q w w' \<longleftrightarrow> w_db w' = w_db w \<and> w_fs w' = w_fs w \<and>
     (\<forall>view. redis_lists R view \<and> redis_errors R view \<longrightarrow>
        (\<exists>n. view (w_redis w') = (view (w_redis w))(q := drop n (view (w_redis w) q))))"

lemma EstablishConnection_loop_takes:
  assumes "redis_lists R view" "redis_errors R view"
  shows "\<exists>n. view (EstablishConnection_loop R u ticks r) = (view r)(client_queue u := drop n (view r (client_queue u)))"
proof (induction ticks arbitrary: r)
  case Nil
  show ?case by (rule exI [of _ 0]) simp
next
  case (Cons taken ticks)
  let ?q = "client_queue u"
  obtain x r1 where x: "RedisQ_ReadMsg R MetadataUpdateClientsNotifierQueue u r = (x, r1)"
    by (cases "RedisQ_ReadMsg R MetadataUpdateClientsNotifierQueue u r")
  then have "snd (MetadataUpdateConsumer_batch R 1 u r) = r1"
    by (auto simp: MetadataUpdateConsumer_batch_def split: res.split option.split)
  moreover have "\<exists>k. view r1 = (view r)(?q := drop k (view r ?q))"
    using pop_any [OF assms x] by (metis drop0 drop_Suc fun_upd_triv)
  moreover have "view r = (view r)(?q := drop 0 (view r ?q))" by simp
  ultimately obtain k where k: "view (if taken then snd (MetadataUpdateConsumer_batch R 1 u r) else r) =
      (view r)(?q := drop k (view r ?q))"
    by (cases taken) metis+
  from Cons.IH [of "if taken then snd (MetadataUpdateConsumer_batch R 1 u r) else r"] obtain n where
    "view (EstablishConnection_loop R u (taken # ticks) r) = (view r)(?q := drop (n + k) (view r ?q))"
    unfolding k fun_upd_upd fun_upd_same drop_drop EstablishConnection_loop.simps by blast
  then show ?case by blast
qed

lemma EstablishConnection_takes:
  assumes "SSEHandler_EstablishConnection E c (Some t) w1 = (r, w')" "same_state w w1"
  shows "only_takes (e_redis E) (client_queue (tk_ResourceID t)) w w'"
  using assms EstablishConnection_loop_takes
  by (fastforce simp: SSEHandler_EstablishConnection_def Let_def only_takes_def same_state_def)

lemma access_route_cases:
  assumes "access_route E sv c h w = (r, w')"
  shows "same_state w w' \<or> (\<exists>t w1. builtin_bearer E sv (hc_req c) w t \<and> same_state w w1 \<and> h (Some t) w1 = (r, w'))"
proof -
  obtain x w1 where x: "ValidateAccessToken E (sv_start sv) (sv_bind sv) (hc_req c) w = (x, w1)"
    by (cases "ValidateAccessToken E (sv_start sv) (sv_bind sv) (hc_req c) w")
  note v = ValidateAccessToken_cases [OF x]
  then have s: "same_state w w1" by (simp add: same_state_def)
  show ?thesis
  proof (cases x)
    case (Inl status)
    with assms x s show ?thesis by (simp add: access_route_def guarded_def)
  next
    case (Inr t)
    with v have "builtin_bearer E sv (hc_req c) w t" unfolding builtin_bearer_def by blast
    with assms x s Inr show ?thesis by (auto simp: access_route_def guarded_def)
  qed
qed

lemma stream_route_cases:
  assumes "stream_route E sv c h w = (r, w')" "\<And>n. 0 < e_clock E n"
  shows "same_state w w' \<or> stream_bearer E sv (hc_req c) w \<and>
    (\<exists>t w1. same_state w w1 \<and> h (Some t) w1 = (r, w') \<and> tk_ResourceID t = requested_file (hc_req c) \<and>
       tk_UserID t = Some (tk_ResourceID (AdminToken (sv_start sv))))"
proof -
  obtain x w1 where x: "ValidateStreamToken E (sv_start sv) (hc_req c) w = (x, w1)"
    by (cases "ValidateStreamToken E (sv_start sv) (hc_req c) w")
  have s: "same_state w w1" using ValidateStreamToken_frame [OF x] by (simp add: same_state_def)
  show ?thesis
  proof (cases x)
    case (Inl status)
    with assms x s show ?thesis by (simp add: stream_route_def guarded_def)
  next
    case (Inr t)
    with x have run: "ValidateStreamToken E (sv_start sv) (hc_req c) w = (Inr t, w1)" by simp
    from ValidateStreamToken_passes [OF run assms(2)] obtain k where k: "k \<in> set (tokens_tbl (w_db w))"
      "t = k\<lparr>tk_DeviceID := tk_DeviceID t\<rparr>" "getBearerToken (header_Get (hc_req c) StreamTokenHeaderKey) = (tk_AccessToken k, True)"
      "tk_ResourceID k = requested_file (hc_req c)" "tk_ResouceType k = ''stream''"
      "tk_UserID k = Some (tk_ResourceID (AdminToken (sv_start sv)))" "e_clock E (w_tick w + 2) \<le> tk_AccessExpiresAt k" by blast
    then have "stream_bearer E sv (hc_req c) w" unfolding stream_bearer_def by blast
    moreover have "tk_ResourceID t = requested_file (hc_req c)" "tk_UserID t = Some (tk_ResourceID (AdminToken (sv_start sv)))"
      using arg_cong [OF k(2), of tk_ResourceID] arg_cong [OF k(2), of tk_UserID] k(4,6) by simp_all
    ultimately show ?thesis using assms(1) x s Inr by (auto simp: stream_route_def guarded_def)
  qed
qed

lemma GetFileChunks_frame:
  assumes "MetadataHandler_GetFileChunks E c ctx w = (r, w')"
  shows "same_state w w'"
proof -
  obtain q w1 where q: "MetadataRepository_SelectFiles E [rq_Param_fileID (hc_req c)] w = (q, w1)"
    by (cases "MetadataRepository_SelectFiles E [rq_Param_fileID (hc_req c)] w")
  from SelectFiles_cases [OF q] have "same_state w w1" by (auto simp: same_state_def)
  with q assms show ?thesis
    by (auto simp: MetadataHandler_GetFileChunks_def MetadataService_GetFileChunks_def
        split: option.splits if_splits res.splits list.splits)
qed

lemma scan_rows_frame: "scan_rows E xs w = (b, w') \<Longrightarrow> same_state w w'"
proof (induction xs arbitrary: w)
  case (Cons x xs)
  have "same_state w (tick w)" by (simp add: same_state_def)
  with Cons show ?case by (auto simp: ext_call_def split: option.splits intro: same_state_trans)
qed simp

lemma ListByUserID_frame:
  assumes "MetadataRepository_ListByUserID E u off lim w = (r, w')"
  shows "same_state w w'"
proof -
  have t: "same_state w (tick w)" by (simp add: same_state_def)
  obtain b v where v: "scan_rows E (map scan_list (sql_page (wrap64 ((if lim = 0 then DefaultLimit else lim) + 1)) off
      (e_order E (w_tick w) (sql_join (\<lambda>fm. fm_UserID fm = u \<and> fm_CurrentFlag fm) (w_db w))))) (tick w) = (b, v)"
    by (metis surj_pair)
  then have "w' = w \<or> w' = tick w \<or> w' = v"
    using assms by (auto simp: MetadataRepository_ListByUserID_def go_simps split: option.splits bool.splits)
  with t scan_rows_frame [OF v] show ?thesis by (blast intro: same_state_trans same_state_refl)
qed

lemma ListFiles_frame:
  assumes "MetadataHandler_ListFilesWithMetadata E c ctx w = (r, w')"
  shows "same_state w w'"
proof (cases ctx)
  case (Some token)
  obtain q w1 where q: "MetadataRepository_ListByUserID E (tk_ResourceID token) (page_param (hc_req c) ''offset'')
      (page_param (hc_req c) ''limit'') w = (q, w1)"
    by (cases "MetadataRepository_ListByUserID E (tk_ResourceID token) (page_param (hc_req c) ''offset'')
      (page_param (hc_req c) ''limit'') w")
  with Some assms have "w' = w1"
    by (auto simp: MetadataHandler_ListFilesWithMetadata_def MetadataService_ListFilesForUser_def
        split: res.splits prod.splits if_splits)
  with ListByUserID_frame [OF q] show ?thesis by simp
qed (use assms in \<open>simp add: MetadataHandler_ListFilesWithMetadata_def\<close>)

text \<open>
  C10.  Nothing changes without a token: a request to any route that changes a table, a list or a file
  carries either, for the routes that end an upload or store a chunk, a stream token of the table for
  the requested file that has not expired at the clock reading of the request's check, or, for the
  routes that register files and versions and for the downloads (whose signature may put it into the
  headers first), one of the two built-in access tokens, unexpired at the readings of its check.  An
  event stream also needs such a token, and all it changes is that messages are taken off the front of
  the notification list of that token's user.  Every other route leaves everything as it is.
\<close>

theorem serve_requires_token:
  assumes "serve E sv rt c w = (r, w')" "\<And>n. 0 < e_clock E n" "\<not> same_state w w'"
  shows "rt \<in> {PutEof, PatchChunks} \<and> stream_bearer E sv (hc_req c) w \<or>
    rt \<in> {PatchFile, PostFiles} \<and> (\<exists>t. builtin_bearer E sv (hc_req c) w t) \<or>
    rt \<in> {GetDownload, GetDownloadV2} \<and> (\<exists>req t. AddTokenFromUrlToHeader (hc_req c) = OK req \<and> builtin_bearer E sv req w t) \<or>
    rt = SubscribeDevices \<and> (\<exists>t. builtin_bearer E sv (hc_req c) w t \<and>
      only_takes (e_redis E) (client_queue (tk_ResourceID t)) w w')"
proof -
  obtain x where x: "dispatch_route E sv rt c w = (x, w')" using assms(1)
    by (auto simp: serve_def split: prod.splits res.splits)
  have access: "\<exists>t w1. builtin_bearer E sv (hc_req c') w t \<and> same_state w w1 \<and> \<not> same_state w1 w' \<and> h (Some t) w1 = (x, w')"
    if "access_route E sv c' h w = (x, w')" for c' h
    using access_route_cases [OF that] assms(3) same_state_trans by blast
  have signed: "\<exists>req t. AddTokenFromUrlToHeader (hc_req c) = OK req \<and> builtin_bearer E sv req w t"
    if "signed_route E sv c h w = (x, w')" for h
  proof (cases "AddTokenFromUrlToHeader (hc_req c)")
    case (OK req)
    with that have "access_route E sv (c\<lparr>hc_req := req\<rparr>) (h (c\<lparr>hc_req := req\<rparr>)) w = (x, w')" by (simp add: signed_route_def)
    from access [OF this] OK show ?thesis by auto
  qed (use that assms(3) in \<open>auto simp: signed_route_def\<close>)
  have stream: "stream_bearer E sv (hc_req c) w" if "stream_route E sv c h w = (x, w')" for h
    using stream_route_cases [OF that assms(2)] assms(3) by blast
  show ?thesis
  proof (cases rt)
    case GetFile
    with x access [of c "MetadataHandler_GetFileChunks E c"] show ?thesis
      by (auto simp: dispatch_route_def dest: GetFileChunks_frame)
  next
    case GetFiles
    with x access [of c "MetadataHandler_ListFilesWithMetadata E c"] show ?thesis
      by (auto simp: dispatch_route_def dest: ListFiles_frame)
  next
    case SubscribeDevices
    with x access [of c "SSEHandler_EstablishConnection E c"] show ?thesis
      by (auto simp: dispatch_route_def dest: EstablishConnection_takes)
  next
    case PutShare
    with x access [of c] show ?thesis by (fastforce simp: dispatch_route_def)
  next
    case PatchFile
    with x access [of c] show ?thesis by (auto simp: dispatch_route_def)
  next
    case PostFiles
    with x access [of c] show ?thesis by (auto simp: dispatch_route_def)
  qed (use x assms(3) signed stream in \<open>auto simp: dispatch_route_def\<close>)
qed

subsection \<open>Instances\<close>

definition sample_server :: server where
  "sample_server = \<lparr>sv_cwd = ''/srv'', sv_blobs = ''/srv/tmp/arbokdata'', sv_start = (\<lambda>n. 0), sv_bind = (\<lambda>p g. None)\<rparr>"

definition plain_call :: "http_request \<Rightarrow> http_call" where
  "plain_call req = \<lparr>hc_req = req, hc_metadata = Inl ''no body'', hc_update = Inl ''no body'', hc_chunk = Inl ''no form'',
     hc_data = Inl ''no form'', hc_ticks = []\<rparr>"

lemma eof_call_run:
  "\<exists>r w'. serve sample_env sample_server PutEof (plain_call (auth_request ''any'')) auth_world = (r, w') \<and>
     fst (w_redis w') MetadataFileUpdateQueue = [''m'']"
proof -
  let ?c = "plain_call (auth_request ''any'')"
  let ?t = "auth_token\<lparr>tk_DeviceID := ''1''\<rparr>"
  obtain w1 where v: "ValidateStreamToken sample_env (\<lambda>n. 0) (auth_request ''any'') auth_world = (Inr ?t, w1)"
    using auth_passes by (cases "ValidateStreamToken sample_env (\<lambda>n. 0) (auth_request ''any'') auth_world") simp
  note f = ValidateStreamToken_frame [OF v]
  have db: "db_wf (w_db w1)" "file_row ''B'' (w_db w1) = Some row_B" using f sample_db_wf
    by (auto simp: auth_world_def db_wf_def file_row_def auth_token_def sample_db_def row_A_def row_B_def)
  let ?ud = "\<lparr>ud_UserID = [], ud_DeviceID = ''1'', ud_FileID = ''B'', ud_ChunkID = []\<rparr>"
  obtain w2 where w2: "MetadataService_MarkUploadComplete sample_env ?ud w1 = (BuildResponse None (Some [(''eof'', True)]), w2)"
    "fst (w_redis w2) = (fst (w_redis w1))(MetadataFileUpdateQueue := fst (w_redis w1) MetadataFileUpdateQueue @ [''m''])"
    by (rule MarkUploadComplete_run [of sample_env w1 fst ?ud row_B "''m''"])
      (use db sample_ok in \<open>simp_all add: sample_env_def row_B_def eof_message_def mem_lists mem_up sample_cache_def\<close>)
  have "MetadataHandler_MarkUploadComplete sample_env ?c (Some ?t) w1 =
      (OK (JSON 200 (BEof (BuildResponse None (Some [(''eof'', True)]))) []), w2)"
    using w2(1) by (simp add: MetadataHandler_MarkUploadComplete_def plain_call_def auth_token_def auth_request_def BuildResponse_def)
  then show ?thesis
    using v w2(2) f by (simp add: serve_def dispatch_route_def stream_route_def guarded_def sample_server_def plain_call_def
        auth_world_def sample_world_def)
qed

theorem serve_requires_token_witness:
  "stream_bearer sample_env sample_server (auth_request ''any'') auth_world"
proof -
  obtain r w' where run: "serve sample_env sample_server PutEof (plain_call (auth_request ''any'')) auth_world = (r, w')"
    and q: "fst (w_redis w') MetadataFileUpdateQueue = [''m'']" using eof_call_run by blast
  have "\<not> same_state auth_world w'" using q by (auto simp: same_state_def auth_world_def sample_world_def)
  from serve_requires_token [OF run sample_clock this] show ?thesis by (simp add: plain_call_def)
qed

end
