(* ===== verification/Threads.thy ===== *)
theory Threads
  imports Machines
begin

text \<open>
  Goroutines over shared state.  A thread is a resumption: it has returned, or it makes one call, which
  changes the shared state in one go, and continues with what the call gave.  Threads arrive at any
  time and their calls interleave in any order.  \<open>safe\<close> is the proof rule of rely and guarantee: what
  a thread knows between two of its calls must be stable under what the others may do, and from what
  it knows each call must do no more than is guaranteed.  The locale \<open>thread_system\<close> proves once that
  threads which are safe keep the invariant together.
\<close>

datatype ('s, 'a) prog = Return 'a | Call "'s \<Rightarrow> 's" "'s \<Rightarrow> ('s, 'a) prog"

text \<open>A call with a result, and a thread that runs without being interrupted.\<close>

definition call :: "('s \<Rightarrow> 'b \<times> 's) \<Rightarrow> ('b \<Rightarrow> ('s, 'a) prog) \<Rightarrow> ('s, 'a) prog" where
  "call g k = Call (\<lambda>s. snd (g s)) (\<lambda>s. k (fst (g s)))"

primrec run :: "('s, 'a) prog \<Rightarrow> 's \<Rightarrow> 'a \<times> 's" where
  "run (Return a) = (\<lambda>s. (a, s))"
| "run (Call f k) = (\<lambda>s. run (k s) (f s))"

lemma run_call [simp]: "run (call g k) s = (case g s of (b, s') \<Rightarrow> run (k b) s')"
  by (simp add: call_def case_prod_beta)

lemma map_prog_call [simp]: "map_prog f (call g k) = call g (\<lambda>b. map_prog f (k b))"
  by (simp add: call_def comp_def)

text \<open>The promise that the outside makes to a thread holds at each of its calls, when it runs alone.\<close>

primrec alone :: "('s \<Rightarrow> bool) \<Rightarrow> ('s, 'a) prog \<Rightarrow> 's \<Rightarrow> bool" where
  "alone P (Return a) = (\<lambda>s. True)"
| "alone P (Call f k) = (\<lambda>s. P s \<and> alone P (k s) (f s))"

lemma alone_call [simp]: "alone P (call g k) s \<longleftrightarrow> P s \<and> (case g s of (b, s') \<Rightarrow> alone P (k b) s')"
  by (simp add: call_def case_prod_beta)

lemma alone_True [simp]: "alone (\<lambda>s. True) p s"
  by (induction p arbitrary: s) auto

subsection \<open>Interleaving\<close>

text \<open>A thread comes with the promise that the outside makes to it.\<close>

type_synonym ('s, 'a) thread = "('s \<Rightarrow> bool) \<times> ('s, 'a) prog"

inductive threads_step :: "(('s, 'a) thread \<Rightarrow> bool) \<Rightarrow> 's \<times> ('s, 'a) thread list \<Rightarrow> 's \<times> ('s, 'a) thread list \<Rightarrow> bool"
  for arrives where
  arrive: "arrives t \<Longrightarrow> threads_step arrives (s, ts) (s, ts @ [t])"
| go: "i < length ts \<Longrightarrow> ts ! i = (P, Call f k) \<Longrightarrow> P s \<Longrightarrow> threads_step arrives (s, ts) (f s, ts[i := (P, k s)])"

lemma go_call:
  assumes "i < length ts" "ts ! i = (P, call g k)" "P s" "g s = (b, s')"
  shows "threads_step arrives (s, ts) (s', ts[i := (P, k b)])"
  using threads_step.go [OF assms(1) assms(2) [unfolded call_def] assms(3), of arrives] assms(4) by simp

text \<open>A thread at any place may go on alone until it returns.\<close>

lemma run_alone:
  "alone P p s \<Longrightarrow> reachable (threads_step arrives) c (s, ts) \<Longrightarrow> i < length ts \<Longrightarrow> ts ! i = (P, p) \<Longrightarrow>
     reachable (threads_step arrives) c (snd (run p s), ts[i := (P, Return (fst (run p s)))])"
proof (induction p arbitrary: s ts)
  case (Return a)
  then show ?case by (metis fst_conv list_update_id run.simps(1) snd_conv)
next
  case (Call f k)
  from Call.prems(1) have P: "P s" "alone P (k s) (f s)" by simp_all
  from threads_step.go [OF Call.prems(3,4) P(1)] Call.prems(2)
  have "reachable (threads_step arrives) c (f s, ts[i := (P, k s)])" by (rule reachable.step [rotated])
  from Call.IH [OF _ P(2) this] Call.prems(3) show ?case by simp
qed

lemma arrive_run:
  assumes "reachable (threads_step arrives) c (s, ts)" "arrives (P, p)" "alone P p s" "run p s = (a, s')"
  shows "reachable (threads_step arrives) c (s', ts @ [(P, Return a)])"
proof -
  have "threads_step arrives (s, ts) (s, ts @ [(P, p)])" using assms(2) by (rule threads_step.arrive)
  with assms(1) have "reachable (threads_step arrives) c (s, ts @ [(P, p)])" by (rule reachable.step)
  from run_alone [OF assms(3) this, of "length ts"] assms(4) show ?thesis by simp
qed

subsection \<open>Rely and guarantee\<close>

definition stable_under :: "('s \<Rightarrow> 's \<Rightarrow> bool) \<Rightarrow> ('s \<Rightarrow> bool) \<Rightarrow> bool" where
  "stable_under G K \<longleftrightarrow> (\<forall>s s'. K s \<longrightarrow> G s s' \<longrightarrow> K s')"

inductive safe :: "('s \<Rightarrow> bool) \<Rightarrow> ('s \<Rightarrow> 's \<Rightarrow> bool) \<Rightarrow> ('s \<Rightarrow> bool) \<Rightarrow> ('s \<Rightarrow> bool) \<Rightarrow> ('s, 'a) prog \<Rightarrow> bool"
  for I G P where
  Return: "safe I G P K (Return a)"
| Call: "(\<And>s. I s \<Longrightarrow> P s \<Longrightarrow> K s \<Longrightarrow> G s (f s) \<and> (\<exists>K'. stable_under G K' \<and> K' (f s) \<and> safe I G P K' (k s))) \<Longrightarrow>
     safe I G P K (Call f k)"

inductive_cases safe_CallE: "safe I G P K (Call f k)"

text \<open>The rule for a call with a result: what is known afterwards may depend on the result.\<close>

lemma safe_call:
  assumes "\<And>s b s'. I s \<Longrightarrow> P s \<Longrightarrow> K s \<Longrightarrow> g s = (b, s') \<Longrightarrow>
    G s s' \<and> (\<exists>K'. stable_under G K' \<and> K' s' \<and> safe I G P K' (k b))"
  shows "safe I G P K (call g k)"
  unfolding call_def by (rule safe.Call) (use assms in \<open>metis surjective_pairing\<close>)

lemma safe_weaken: "safe I G P K p \<Longrightarrow> (\<And>s. K' s \<Longrightarrow> K s) \<Longrightarrow> safe I G P K' p"
proof (cases p)
  case (Call f k)
  assume "safe I G P K p" and weak: "\<And>s. K' s \<Longrightarrow> K s"
  then have "safe I G P K (Call f k)" using Call by simp
  then show ?thesis unfolding Call by (rule safe_CallE) (rule safe.Call, simp add: weak)
qed (simp add: safe.Return)

lemma safe_map_prog: "safe I G P K p \<Longrightarrow> safe I G P K (map_prog f p)"
proof (induction rule: safe.induct)
  case (Call K g k)
  show ?case unfolding prog.map(2) by (rule safe.Call) (use Call in auto)
qed (simp add: safe.Return)

text \<open>A call after which the thread knows what it knew before, and perhaps a fact \<open>F b\<close> about the result
  alone.\<close>

lemma safe_call_keep:
  assumes "stable_under G K" "\<And>s b s'. I s \<Longrightarrow> P s \<Longrightarrow> K s \<Longrightarrow> g s = (b, s') \<Longrightarrow> G s s' \<and> F b"
    and "\<And>b. F b \<Longrightarrow> safe I G P K (k b)"
  shows "safe I G P K (call g k)"
proof (rule safe_call)
  fix s b s'
  assume s: "I s" "P s" "K s" "g s = (b, s')"
  from assms(2) [OF s] have "G s s'" "F b" by simp_all
  with assms(1) s(3) have "K s'" by (auto simp: stable_under_def)
  with assms(1) assms(3) [OF \<open>F b\<close>] \<open>G s s'\<close> show "G s s' \<and> (\<exists>K'. stable_under G K' \<and> K' s' \<and> safe I G P K' (k b))" by blast
qed

locale thread_system =
  fixes I :: "'s \<Rightarrow> bool" and G :: "'s \<Rightarrow> 's \<Rightarrow> bool" and arrives :: "('s, 'a) thread \<Rightarrow> bool"
  assumes keeps: "I s \<Longrightarrow> G s s' \<Longrightarrow> I s'"
    and arrives_safe: "arrives (P, p) \<Longrightarrow> safe I G P (\<lambda>s. True) p"
begin

text \<open>The invariant holds, and every thread knows something true and stable from which it is safe.\<close>

definition together :: "'s \<times> ('s, 'a) thread list \<Rightarrow> bool" where
  "together = (\<lambda>(s, ts). I s \<and> (\<forall>(P, p) \<in> set ts. \<exists>K. stable_under G K \<and> K s \<and> safe I G P K p))"

lemma step_guarantees:
  assumes "together (s, ts)" "threads_step arrives (s, ts) (s', ts')"
  shows "together (s', ts') \<and> (s' = s \<or> G s s')"
  using assms(2)
proof cases
  case (arrive t)
  obtain P p where t: "t = (P, p)" by (cases t)
  with arrive arrives_safe have "safe I G P (\<lambda>s. True) p" by simp
  then have "\<exists>K. stable_under G K \<and> K s \<and> safe I G P K p" by (intro exI [of _ "\<lambda>s. True"]) (simp add: stable_under_def)
  with assms(1) arrive t show ?thesis by (auto simp: together_def)
next
  case (go i P f k)
  from go(3,4) nth_mem [OF go(3)] assms(1) obtain K where K: "I s" "stable_under G K" "K s" "safe I G P K (Call f k)"
    by (auto simp: together_def)
  from K(4) go(5) K(1,3) obtain K' where K': "G s (f s)" "stable_under G K'" "K' (f s)" "safe I G P K' (k s)"
    by (blast elim: safe_CallE)
  have "\<exists>K. stable_under G K \<and> K (f s) \<and> safe I G Q K q" if "(Q, q) \<in> set (ts[i := (P, k s)])" for Q q
  proof (cases "(Q, q) = (P, k s)")
    case True
    with K' show ?thesis by auto
  next
    case False
    with that have "(Q, q) \<in> set ts" using set_update_subset_insert [of ts i "(P, k s)"] by blast
    with assms(1) obtain K where "stable_under G K" "K s" "safe I G Q K q" by (auto simp: together_def)
    with K'(1) show ?thesis by (auto simp: stable_under_def)
  qed
  with go K' keeps [OF K(1) K'(1)] show ?thesis by (auto simp: together_def)
qed

lemma stays_together: "reachable (threads_step arrives) (s0, []) (s, ts) \<Longrightarrow> I s0 \<Longrightarrow> together (s, ts) \<and> G\<^sup>*\<^sup>* s0 s"
proof (induction "(s, ts)" arbitrary: s ts rule: reachable.induct)
  case start
  then show ?case by (simp add: together_def)
next
  case (step m)
  obtain t us where m: "m = (t, us)" by (cases m)
  from step m have "together (t, us)" "G\<^sup>*\<^sup>* s0 t" by simp_all
  with step_guarantees [of t us s ts] step(3) m show ?case by (auto intro: rtranclp.rtrancl_into_rtrancl)
qed

lemma invariant_holds: "reachable (threads_step arrives) (s0, []) (s, ts) \<Longrightarrow> I s0 \<Longrightarrow> I s"
  using stays_together [of s0 s ts] by (simp add: together_def)

lemma only_guaranteed: "reachable (threads_step arrives) (s0, []) (s, ts) \<Longrightarrow> I s0 \<Longrightarrow> G\<^sup>*\<^sup>* s0 s"
  using stays_together by blast

end

end
