(* ===== verification/Goroutines.thy ===== *)
theory Goroutines
  imports System Threads
begin

text \<open>
  The operations of the service at the granularity of their calls: each operation is a thread whose
  steps are the calls it makes to a repository, the blob store, Redis, the clock and the generators.
  A repository call is one statement or one transaction, which SQLite serialises, so one step.  Between
  two calls of an operation other goroutines may do anything.  Run without interruption, a thread is
  the operation of \<open>MetadataService\<close>, \<open>Blobstore\<close>, \<open>Supervisor\<close> or \<open>Download\<close>; the lemmas below say so.
\<close>

subsection \<open>Calls\<close>

definition on_world :: "('r world \<Rightarrow> 'b \<times> 'r world) \<Rightarrow> 'r sys \<Rightarrow> 'b \<times> 'r sys" where
  "on_world f s = (case f (sy_world s) of (b, w) \<Rightarrow> (b, s\<lparr>sy_world := w\<rparr>))"

definition on_redis :: "('r \<Rightarrow> 'b \<times> 'r) \<Rightarrow> 'r world \<Rightarrow> 'b \<times> 'r world" where
  "on_redis f w = (case f (w_redis w) of (b, r) \<Rightarrow> (b, w\<lparr>w_redis := r\<rparr>))"

abbreviation wcall :: "('r world \<Rightarrow> 'b \<times> 'r world) \<Rightarrow> ('b \<Rightarrow> ('r sys, 'a) prog) \<Rightarrow> ('r sys, 'a) prog" where
  "wcall f \<equiv> call (on_world f)"

subsection \<open>Requests\<close>

definition issue_token_go :: "'r env \<Rightarrow> FileMetadata \<Rightarrow> goerr \<Rightarrow> goerr \<Rightarrow> (Token \<Rightarrow> MetadataTokenResponse) \<Rightarrow>
    ('r sys, MetadataTokenResponse Response res) prog" where
  "issue_token_go E metadata tokenErr storeErr answer =
     wcall (NewToken E (fm_ID metadata) ResourceTypeStream [WithDefaultExpiry, WithUserID (Some (fm_UserID metadata))])
       (\<lambda>x. case x of
          Err e \<Rightarrow> Return (OK (BuildResponse (Some tokenErr) None))
        | Panic p \<Rightarrow> Return (Panic p)
        | OK token \<Rightarrow>
            wcall (MetadataTokenRepository_CreateMetadataToken E metadata token)
              (\<lambda>y. Return (case y of
                 Err e \<Rightarrow> OK (BuildResponse (Some storeErr) None)
               | Panic p \<Rightarrow> Panic p
               | OK u \<Rightarrow> OK (BuildResponse None (Some (answer token))))))"

text \<open>Registering a file, once no other file has its digest.\<close>

definition new_file_go :: "'r env \<Rightarrow> MetadataRequest \<Rightarrow> ('r sys, MetadataTokenResponse Response res) prog" where
  "new_file_go E req =
     wcall (NewID E)
       (\<lambda>x. case x of
          Err e \<Rightarrow> Return (OK (BuildResponse (Some ''id_gen_failed:2002:500'') None))
        | Panic p \<Rightarrow> Return (Panic p)
        | OK fid \<Rightarrow>
            (if CalculateChunks (mr_FileSize req) \<noteq> mr_Chunks req
             then Return (OK (BuildResponse (Some ''chunks_size_invalid:2005:422'') None))
             else wcall (NewTimestamp E)
               (\<lambda>stamp. issue_token_go E (prep_row req fid stamp) ''internal_server_error:2010:500''
                  ''internal_server_error:2011:500'' (prep_answer req fid))))"

definition PrepareFileForUpload_go :: "'r env \<Rightarrow> MetadataRequest \<Rightarrow> ('r sys, MetadataTokenResponse Response res) prog" where
  "PrepareFileForUpload_go E req =
     wcall (MetadataRepository_FindByHash E (mr_Digest req))
       (\<lambda>(found, err). case err of
          Some e \<Rightarrow> Return (OK (BuildResponse (Some ''duplicate:2014:422'') None))
        | None \<Rightarrow> new_file_go E req)"

text \<open>Registering a version, once the previous one is found; and telling the queue that an upload ended.\<close>

definition new_version_go :: "'r env \<Rightarrow> FileUpdateMetadataRequest \<Rightarrow> FileMetadata \<Rightarrow> ('r sys, MetadataTokenResponse Response res) prog" where
  "new_version_go E req prevMetadata =
     wcall (NewID E)
       (\<lambda>y. case y of
          Err e \<Rightarrow> Return (OK (BuildResponse (Some ''id_gen_failed:2002:500'') None))
        | Panic p \<Rightarrow> Return (Panic p)
        | OK fid \<Rightarrow>
            (if fm_FileHash prevMetadata = ur_Digest req
             then Return (OK (BuildResponse (Some ''duplicate:2014:422'') None))
             else wcall (NewTimestamp E)
               (\<lambda>stamp. issue_token_go E (upd_row req prevMetadata fid stamp) ''internal_server_error:2011:500''
                  ''internal_server_error:2011:500'' (upd_answer req fid))))"

definition UpdateFileMetadata_go :: "'r env \<Rightarrow> FileUpdateMetadataRequest \<Rightarrow> ('r sys, MetadataTokenResponse Response res) prog" where
  "UpdateFileMetadata_go E req =
     (if CalculateChunks (ur_FileSize req) \<noteq> ur_Chunks req
      then Return (OK (BuildResponse (Some ''invalid_file_data:2006:422'') None))
      else wcall (MetadataRepository_FindBy E [clause_eq ''id'' (ur_FileID req)])
        (\<lambda>x. case x of
           Err e \<Rightarrow> Return (OK (BuildResponse (Some ''file_not_found:2022:422'') None))
         | Panic p \<Rightarrow> Return (Panic p)
         | OK [] \<Rightarrow> Return (OK (BuildResponse (Some ''file_not_found:2023:404'') None))
         | OK (prevMetadata # rest) \<Rightarrow> new_version_go E req prevMetadata))"

definition enqueue_eof_go :: "'r env \<Rightarrow> UserFileDevice \<Rightarrow> FileMetadata \<Rightarrow> ('r sys, (string \<times> bool) list Response) prog" where
  "enqueue_eof_go E ud metadata =
     (case e_gob_cache E (eof_message ud metadata) of
        Inl e \<Rightarrow> Return (BuildResponse (Some ''internal_error:2021:500'') None)
      | Inr b \<Rightarrow>
          wcall (on_redis (RedisQ_EnqueueMsg (e_redis E) MetadataFileUpdateQueue [] \<lparr>pl_Message = b, pl_Key = [], pl_TTL = 0\<rparr>))
            (\<lambda>err. Return (if err = None then BuildResponse None (Some [(''eof'', True)])
               else BuildResponse (Some ''internal_error:2021:500'') None)))"

definition MarkUploadComplete_go :: "'r env \<Rightarrow> UserFileDevice \<Rightarrow> ('r sys, (string \<times> bool) list Response) prog" where
  "MarkUploadComplete_go E ud =
     wcall (MetadataRepository_FindBy E [clause_eq ''id'' (ud_FileID ud), clause_eq ''upload_status'' StatusUploading])
       (\<lambda>x. case x of
          OK (metadata # rest) \<Rightarrow> enqueue_eof_go E ud metadata
        | _ \<Rightarrow> Return (BuildResponse (Some ''file_not_found:2019:404'') None))"

definition FileChunkService_Create_go :: "'r env \<Rightarrow> string \<Rightarrow> FileChunkRequest \<Rightarrow> ('r sys, ChunkUploadResponse Response) prog" where
  "FileChunkService_Create_go E dirPath req =
     wcall (ValidateHash E req)
       (\<lambda>err. if err \<noteq> None then Return (BuildResponse (Some ''corrupted_file:5001:422'') None)
        else case Atoi (cr_ChunkID req) of
          (_, Some e) \<Rightarrow> Return (BuildResponse (Some ''invalid_file_chunk:5002:422'') None)
        | (chunkIDInt, None) \<Rightarrow>
            (case ParseInt (cr_NextChunkID req) of
               (_, Some e) \<Rightarrow> Return (BuildResponse (Some ''invalid_file_chunk:5004:422'') None)
             | (nextChunkIDInt, None) \<Rightarrow>
                 wcall (LocalFS_UpdateChunk E dirPath (cr_FileID req) (cr_Data req) chunkIDInt)
                   (\<lambda>x. case x of
                      Inl e \<Rightarrow> Return (BuildResponse (Some ''internal_server_error:5003:500'') None)
                    | Inr storedPath \<Rightarrow>
                        wcall (NewTimestamp E)
                          (\<lambda>stamp. let model = chunk_record req chunkIDInt nextChunkIDInt storedPath stamp
                             in wcall (UserFileRepository_Create E model)
                                  (\<lambda>y. Return (if is_OK y then BuildResponse None (Some (chunk_answer model nextChunkIDInt))
                                     else BuildResponse (Some ''save_chunk_failed:5005:500'') None))))))"

fun download_go :: "'r env \<Rightarrow> string list \<Rightarrow> bytes \<Rightarrow> ('r sys, bytes res) prog" where
  "download_go E [] buffer = Return (OK buffer)"
| "download_go E (filePath # filePaths) buffer =
     wcall (\<lambda>w. (RGet (e_redis E) filePath (w_redis w), w))
       (\<lambda>cached. case cached of
          Some data \<Rightarrow> download_go E filePaths (buffer @ data)
        | None \<Rightarrow>
            wcall (read_path E filePath)
              (\<lambda>x. case x of
                 Inl e \<Rightarrow> Return (Err e)
               | Inr data \<Rightarrow> wcall (on_redis (SetEx (e_redis E) filePath data))
                   (\<lambda>err. download_go E filePaths (buffer @ data))))"

definition Download_go :: "'r env \<Rightarrow> int \<Rightarrow> string list \<Rightarrow> ('r sys, bytes res) prog" where
  "Download_go E fileSize filePaths = (if fileSize < 0 then Return (Panic NegativeLen) else download_go E filePaths [])"

subsection \<open>Producers and worker\<close>

text \<open>Reading on a demand; \<open>finish\<close> is what becomes of the results.\<close>

primrec read_go :: "('r \<Rightarrow> Payload option res \<times> 'r) \<Rightarrow> (Payload list \<Rightarrow> ('r sys, unit) prog) \<Rightarrow> nat \<Rightarrow> Payload list \<Rightarrow>
    ('r sys, unit) prog" where
  "read_go rd finish 0 results = finish results"
| "read_go rd finish (Suc i) results =
     wcall (on_redis rd)
       (\<lambda>x. case x of
          OK (Some payload) \<Rightarrow> read_go rd finish i (results @ [payload])
        | OK None \<Rightarrow> read_go rd finish i results
        | Err e \<Rightarrow> Return ()
        | Panic p \<Rightarrow> Return ())"

definition MetadataChangelog_go :: "'r redis \<Rightarrow> int \<Rightarrow> ('r sys, unit) prog" where
  "MetadataChangelog_go R d = read_go (RedisQ_ReadMsg R MetadataFileUpdateQueue [])
     (\<lambda>results. call (\<lambda>s. ((), s\<lparr>sy_batches := sy_batches s @ [results]\<rparr>)) Return) (nat d) []"

definition MetadataUpdateConsumer_go :: "'r redis \<Rightarrow> int \<Rightarrow> string \<Rightarrow> ('r sys, unit) prog" where
  "MetadataUpdateConsumer_go R n userID =
     read_go (RedisQ_ReadMsg R MetadataUpdateClientsNotifierQueue userID) (\<lambda>results. Return ()) (nat n) []"

text \<open>\<open>ExecuteEach\<close> with what follows it.\<close>

definition reconcile_chunks_go :: "'r env \<Rightarrow> FileInfoResponse \<Rightarrow> FileInfoResponse \<Rightarrow>
    (string \<Rightarrow> 'r world \<Rightarrow> unit res \<times> 'r world) \<Rightarrow> (unit res \<Rightarrow> ('r sys, 'a) prog) \<Rightarrow> ('r sys, 'a) prog" where
  "reconcile_chunks_go E thisFile prevFile upd k =
     (let fillerChunks = (if fi_NChunks thisFile = fi_NChunks prevFile then RestOfChunks thisFile prevFile else [])
      in if fillerChunks = [] then wcall (upd StatusCompleted) k
         else wcall (\<lambda>w. filler_rows E thisFile (e_range E (w_tick w) fillerChunks) w)
           (\<lambda>chunks. wcall (UserFileRepository_CreateBatch E chunks)
              (\<lambda>x. case x of
                 OK u \<Rightarrow> wcall (upd StatusCompleted) k
               | Err e \<Rightarrow> wcall (upd StatusFailed) k
               | Panic p \<Rightarrow> k (Panic p))))"

definition reconcile_go :: "'r env \<Rightarrow> string \<Rightarrow> string \<Rightarrow> (string \<Rightarrow> 'r world \<Rightarrow> unit res \<times> 'r world) \<Rightarrow>
    (unit res \<Rightarrow> ('r sys, 'a) prog) \<Rightarrow> ('r sys, 'a) prog" where
  "reconcile_go E thisID prevID upd k =
     wcall (MetadataRepository_SelectFiles E [thisID, prevID])
       (\<lambda>x. case x of
          Err e \<Rightarrow> k (Err e)
        | Panic p \<Rightarrow> k (Panic p)
        | OK filesWithChunks \<Rightarrow>
            (case BuildFilesInfoResponse (map Some filesWithChunks) of
               Err e \<Rightarrow> k (Err e)
             | Panic p \<Rightarrow> k (Panic p)
             | OK resps \<Rightarrow>
                 (if length resps < 2 then k (Err ''file_merge_conflict'')
                  else let (thisFile, prevFile) =
                         (if fi_ID (resps ! 0) = thisID then (resps ! 0, resps ! 1) else (resps ! 1, resps ! 0))
                       in reconcile_chunks_go E thisFile prevFile upd k)))"

definition ExecuteEach_go :: "'r env \<Rightarrow> CacheMetadata \<Rightarrow> (unit res \<Rightarrow> ('r sys, 'a) prog) \<Rightarrow> ('r sys, 'a) prog" where
  "ExecuteEach_go E cachedData k =
     (case cm_PrevID cachedData of
        None \<Rightarrow> wcall (MetadataRepository_Update E None (cm_ID cachedData) StatusCompleted) k
      | Some prevID \<Rightarrow>
          reconcile_go E (cm_ID cachedData) prevID (MetadataRepository_Update E (Some prevID) (cm_ID cachedData)) k)"

fun notify_go :: "'r env \<Rightarrow> (Payload \<times> string) option list \<Rightarrow> Payload list \<Rightarrow> ('r sys, exec_result) prog" where
  "notify_go E [] failed = Return (if failed = [] then EOk else EPartial failed)"
| "notify_go E (None # payloads) failed = notify_go E payloads failed"
| "notify_go E (Some (payload, userID) # payloads) failed =
     wcall (on_redis (RedisQ_EnqueueMsg (e_redis E) MetadataUpdateClientsNotifierQueue userID payload))
       (\<lambda>err. notify_go E payloads (if err = None then failed else failed @ [payload]))"

fun execute_go :: "'r env \<Rightarrow> Payload option list \<Rightarrow> MetadataUpdateStatusEvent list \<Rightarrow> ('r sys, exec_result) prog" where
  "execute_go E [] events = notify_go E (rho_Map events (\<lambda>data _. event_payload E data)) []"
| "execute_go E (None # payloads) events = execute_go E payloads events"
| "execute_go E (Some payload # payloads) events =
     (case e_ungob_cache E (pl_Message payload) of
        Inl e \<Rightarrow> Return (EErr e)
      | Inr cachedData \<Rightarrow>
          ExecuteEach_go E cachedData
            (\<lambda>x. case x of
               Err e \<Rightarrow> Return (EErr e)
             | Panic p \<Rightarrow> Return (EPanic p)
             | OK u \<Rightarrow> execute_go E payloads (events @ [success_event cachedData])))"

text \<open>A worker takes the next batch, if there is one, and executes it.\<close>

definition take_batch :: "'r sys \<Rightarrow> Payload list option \<times> 'r sys" where
  "take_batch s = (case sy_batches s of [] \<Rightarrow> (None, s) | payloads # rest \<Rightarrow> (Some payloads, s\<lparr>sy_batches := rest\<rparr>))"

definition Execute_go :: "'r env \<Rightarrow> ('r sys, exec_result option) prog" where
  "Execute_go E = call take_batch
     (\<lambda>x. case x of None \<Rightarrow> Return None | Some payloads \<Rightarrow> map_prog Some (execute_go E (map Some payloads) []))"

subsection \<open>Without interruption\<close>

lemma run_map_prog [simp]: "run (map_prog f p) s = map_prod f id (run p s)"
  by (induction p arbitrary: s) simp_all

lemma alone_map_prog [simp]: "alone P (map_prog f p) s = alone P p s"
  by (induction p arbitrary: s) simp_all

lemma run_wcall: "run (wcall f k) s = (case f (sy_world s) of (b, w) \<Rightarrow> run (k b) (s\<lparr>sy_world := w\<rparr>))"
  by (simp add: on_world_def case_prod_beta)

lemmas run_simps = run_wcall on_world_def on_redis_def

lemma run_issue_token: "run (issue_token_go E m e1 e2 answer) s = on_world (issue_token E m e1 e2 answer) s"
  by (simp add: issue_token_go_def issue_token_def run_simps split: prod.split res.split del: run_call)

lemma run_Prepare: "run (PrepareFileForUpload_go E req) s = on_world (MetadataService_PrepareFileForUpload E req) s"
  by (simp add: PrepareFileForUpload_go_def new_file_go_def MetadataService_PrepareFileForUpload_def run_wcall on_world_def run_issue_token
      Let_def prep_row_def prep_answer_def [abs_def] split: prod.split res.split option.split del: run_call)

lemma run_Update: "run (UpdateFileMetadata_go E req) s = on_world (MetadataService_UpdateFileMetadata E req) s"
  by (simp add: UpdateFileMetadata_go_def new_version_go_def MetadataService_UpdateFileMetadata_def run_wcall on_world_def run_issue_token
      Let_def upd_row_def upd_answer_def [abs_def] split: prod.split res.split list.split del: run_call)

lemma run_MarkUploadComplete: "run (MarkUploadComplete_go E ud) s = on_world (MetadataService_MarkUploadComplete E ud) s"
  by (simp add: MarkUploadComplete_go_def enqueue_eof_go_def MetadataService_MarkUploadComplete_def run_simps eof_message_def Let_def
      split: prod.split res.split list.split sum.split option.split del: run_call)

lemma run_Create: "run (FileChunkService_Create_go E d req) s = on_world (FileChunkService_Create E d req) s"
  by (simp add: FileChunkService_Create_go_def FileChunkService_Create_def run_simps chunk_record_def chunk_answer_def Let_def
      split: prod.split res.split sum.split option.split del: run_call)

lemma run_download: "run (download_go E paths buffer) s = on_world (download_loop E paths buffer) s"
  by (induction paths arbitrary: buffer s) (auto simp: run_simps split: prod.split sum.split option.split simp del: run_call)

lemma run_Download: "run (Download_go E n paths) s = on_world (DownloadHandler_Download E n paths) s"
  by (simp add: Download_go_def DownloadHandler_Download_def run_download on_world_def)

lemma run_read: "run (read_go rd finish n acc) s =
    (case read_loop rd n acc (w_redis (sy_world s)) of (q, r) \<Rightarrow>
       let s' = s\<lparr>sy_world := (sy_world s)\<lparr>w_redis := r\<rparr>\<rparr> in case q of None \<Rightarrow> ((), s') | Some results \<Rightarrow> run (finish results) s')"
  by (induction n arbitrary: acc s) (auto simp: run_simps Let_def split: prod.split res.split option.split simp del: run_call)

lemma run_reconcile_chunks: "run (reconcile_chunks_go E f1 f2 upd k) s =
    (case on_world (reconcile_chunks E f1 f2 upd) s of (x, s') \<Rightarrow> run (k x) s')"
  by (auto simp: reconcile_chunks_go_def reconcile_chunks_def run_simps Let_def split: prod.split res.split simp del: run_call)

lemma run_reconcile: "run (reconcile_go E i p upd k) s = (case on_world (reconcile E i p upd) s of (x, s') \<Rightarrow> run (k x) s')"
  by (auto simp: reconcile_go_def reconcile_def run_wcall run_reconcile_chunks on_world_def Let_def
      split: prod.split res.split simp del: run_call)

lemma run_ExecuteEach: "run (ExecuteEach_go E c k) s = (case on_world (ExecuteEach E c) s of (x, s') \<Rightarrow> run (k x) s')"
  by (auto simp: ExecuteEach_go_def ExecuteEach_def run_wcall run_reconcile on_world_def split: prod.split option.split simp del: run_call)

lemma run_notify: "run (notify_go E ps failed) s =
    on_world (\<lambda>w. case notify_loop E ps failed w of (out, w1) \<Rightarrow> (if out = [] then EOk else EPartial out, w1)) s"
  by (induction E ps failed arbitrary: s rule: notify_go.induct)
    (auto simp: run_simps split: prod.split option.split simp del: run_call)

lemma run_execute: "run (execute_go E ps events) s = on_world (execute_loop E ps events) s"
proof (induction E ps events arbitrary: s rule: execute_go.induct)
  case (3 E payload payloads events)
  then show ?case by (auto simp: run_ExecuteEach on_world_def split: prod.split sum.split res.split)
qed (simp_all add: run_notify Notify_def on_world_def)

lemma run_Execute:
  assumes "sy_batches s = payloads # rest" "MetadataExecutor_Execute E (map Some payloads) (sy_world s) = (x, w)"
  shows "run (Execute_go E) s = (Some x, s\<lparr>sy_world := w, sy_batches := rest\<rparr>)"
  using assms by (simp add: Execute_go_def take_batch_def run_execute on_world_def MetadataExecutor_Execute_def)

lemma run_worker:
  "run (Execute_go E) s = (case sy_batches s of [] \<Rightarrow> (None, s) | payloads # rest \<Rightarrow>
     (case MetadataExecutor_Execute E (map Some payloads) (sy_world s) of (x, w) \<Rightarrow> (Some x, s\<lparr>sy_world := w, sy_batches := rest\<rparr>)))"
proof (cases "sy_batches s")
  case Nil
  then show ?thesis by (simp add: Execute_go_def take_batch_def)
next
  case (Cons payloads rest)
  then show ?thesis using run_Execute [OF Cons] by (simp split: prod.split)
qed

lemma run_Changelog:
  "run (MetadataChangelog_go R d) s = (case MetadataChangelog_batch R d (w_redis (sy_world s)) of (q, r) \<Rightarrow>
     ((), s\<lparr>sy_world := (sy_world s)\<lparr>w_redis := r\<rparr>, sy_batches := sy_batches s @ (case q of None \<Rightarrow> [] | Some results \<Rightarrow> [results])\<rparr>))"
  by (auto simp: MetadataChangelog_go_def MetadataChangelog_batch_def run_read Let_def split: prod.split option.split)

lemma run_Consumer:
  "run (MetadataUpdateConsumer_go R n u) s = (case MetadataUpdateConsumer_batch R n u (w_redis (sy_world s)) of (q, r) \<Rightarrow>
     ((), s\<lparr>sy_world := (sy_world s)\<lparr>w_redis := r\<rparr>\<rparr>))"
  by (auto simp: MetadataUpdateConsumer_go_def MetadataUpdateConsumer_batch_def run_read Let_def split: prod.split option.split)

end
