(* ===== verification/Concurrent.thy ===== *)
theory Concurrent
  imports Goroutines
begin

text \<open>
  The service with its goroutines interleaved at every call: any number of requests, producers and
  workers run at the same time.  What each thread may do to the others is \<open>guarantee\<close>: the invariant of
  \<open>System\<close> is kept and the registry of files makes its own steps.  Every thread is safe under it, so
  the service as a whole keeps the invariant and refines the registry, whatever the interleaving.
\<close>

subsection \<open>What is guaranteed\<close>

definition guarantee :: "'r env \<Rightarrow> ('r \<Rightarrow> string \<Rightarrow> string list) \<Rightarrow> 'r sys \<Rightarrow> 'r sys \<Rightarrow> bool" where
  "guarantee E0 view s s' \<longleftrightarrow> sys_inv E0 view s' \<and> moves (w_db (sy_world s)) (w_db (sy_world s'))"

abbreviation thread_safe :: "'r env \<Rightarrow> ('r \<Rightarrow> string \<Rightarrow> string list) \<Rightarrow> ('r sys \<Rightarrow> bool) \<Rightarrow> ('r sys \<Rightarrow> bool) \<Rightarrow>
    ('r sys, 'a) prog \<Rightarrow> bool" where
  "thread_safe E0 view \<equiv> safe (sys_inv E0 view) (guarantee E0 view)"

text \<open>A call that leaves the files, the tokens and the update queue alone.\<close>

definition quiet :: "('r \<Rightarrow> string \<Rightarrow> string list) \<Rightarrow> ('r world \<Rightarrow> 'b \<times> 'r world) \<Rightarrow> bool" where
  "quiet view f \<longleftrightarrow> (\<forall>w b w'. f w = (b, w') \<longrightarrow>
     file_metadatas (w_db w') = file_metadatas (w_db w) \<and> tokens_tbl (w_db w') = tokens_tbl (w_db w) \<and>
     view (w_redis w') MetadataFileUpdateQueue = view (w_redis w) MetadataFileUpdateQueue)"

lemma on_world_cases:
  assumes "on_world f s = (b, s')"
  obtains w' where "f (sy_world s) = (b, w')" "s' = s\<lparr>sy_world := w'\<rparr>"
  using assms by (auto simp: on_world_def split: prod.splits)

lemma sys_inv_ok: "sys_inv E0 view s \<Longrightarrow> tables_ok (w_db (sy_world s))"
  by (simp add: sys_inv_def)

lemma quiet_guarantee:
  assumes "sys_inv E0 view s" "quiet view f" "on_world f s = (b, s')"
  shows "guarantee E0 view s s'"
  using assms(3)
proof (rule on_world_cases)
  fix w'
  assume w': "f (sy_world s) = (b, w')" "s' = s\<lparr>sy_world := w'\<rparr>"
  with assms(2) have q: "file_metadatas (w_db w') = file_metadatas (w_db (sy_world s))"
    "tokens_tbl (w_db w') = tokens_tbl (w_db (sy_world s))"
    "view (w_redis w') MetadataFileUpdateQueue = view (w_redis (sy_world s)) MetadataFileUpdateQueue"
    unfolding quiet_def by blast+
  have "moves (w_db (sy_world s)) (w_db w')" using sys_inv_ok [OF assms(1)] q(1,2) by (rule moves_same_files)
  with sys_inv_tables [OF assms(1) this q(3)] w' show ?thesis by (simp add: guarantee_def)
qed

lemma safe_quiet:
  assumes "stable_under (guarantee E0 view) K" "quiet view f"
    and "\<And>w b w'. f w = (b, w') \<Longrightarrow> thread_safe E0 view P K (k b)"
  shows "thread_safe E0 view P K (wcall f k)"
proof (rule safe_call_keep [where F = "\<lambda>b. \<exists>w w'. f w = (b, w')", OF assms(1)])
  fix s b s'
  assume "sys_inv E0 view s" "on_world f s = (b, s')"
  with quiet_guarantee [OF _ assms(2)] show "guarantee E0 view s s' \<and> (\<exists>w w'. f w = (b, w'))"
    by (metis on_world_cases)
qed (use assms(3) in blast)

subsection \<open>What a thread may know\<close>

abbreviation known_as :: "string \<Rightarrow> string option \<Rightarrow> 'r sys \<Rightarrow> bool" where
  "known_as i p s \<equiv> \<exists>en. registry_of (w_db (sy_world s)) i = Some en \<and> en_prev en = p"

abbreviation good_msg :: "'r env \<Rightarrow> bytes \<Rightarrow> 'r sys \<Rightarrow> bool" where
  "good_msg E0 b s \<equiv> msg_ok E0 (registry_of (w_db (sy_world s))) b"

lemma stable_True: "stable_under G (\<lambda>s. True)"
  by (simp add: stable_under_def)

lemma stable_known: "stable_under (guarantee E0 view) (known_as i p)"
  unfolding stable_under_def guarantee_def moves_def using registry_keeps_prev by metis

lemma stable_msgs: "stable_under (guarantee E0 view) (\<lambda>s. \<forall>b \<in> B. good_msg E0 b s)"
  unfolding stable_under_def guarantee_def using msg_ok_moves by blast

lemma stable_exists: "stable_under (guarantee E0 view) (\<lambda>s. \<exists>p. known_as i p s)"
  using stable_known [of E0 view i] unfolding stable_under_def by blast

subsection \<open>Quiet calls\<close>

lemma quiet_frame:
  assumes "\<And>w b w'. f w = (b, w') \<Longrightarrow> file_metadatas (w_db w') = file_metadatas (w_db w) \<and>
    tokens_tbl (w_db w') = tokens_tbl (w_db w) \<and> w_redis w' = w_redis w"
  shows "quiet view f"
  using assms unfolding quiet_def by metis

lemma quiet_CreateBatch: "quiet view (UserFileRepository_CreateBatch E chunks)"
proof (rule quiet_frame)
  fix w b w'
  assume "UserFileRepository_CreateBatch E chunks w = (b, w')"
  from CreateBatch_outcome [OF this] show "file_metadatas (w_db w') = file_metadatas (w_db w) \<and>
      tokens_tbl (w_db w') = tokens_tbl (w_db w) \<and> w_redis w' = w_redis w"
    by (auto simp: tx_outcome_def batch_effect_sel)
qed

lemma quiet_calls:
  "quiet view (MetadataRepository_FindByHash E h)" "quiet view (MetadataRepository_FindBy E cl)"
  "quiet view (NewID E)" "quiet view (NewTimestamp E)" "quiet view (MetadataRepository_SelectFiles E ids)"
  "quiet view (NewToken E fid ResourceTypeStream [WithDefaultExpiry, WithUserID u])"
  "quiet view (\<lambda>w. filler_rows E f (e_range E (w_tick w) m) w)"
  "quiet view (ValidateHash E req)" "quiet view (LocalFS_UpdateChunk E d fid data c)"
  "quiet view (UserFileRepository_Create E uf)" "quiet view (read_path E p)" "quiet view (\<lambda>w. (g w, w))"
  by (rule quiet_frame; auto dest: FindByHash_cases FindBy_cases NewID_cases NewTimestamp_frame SelectFiles_cases NewToken_stream
      filler_rows_frame UpdateChunk_cases UserFile_Create_cases read_path_frame
      simp: ValidateHash_def go_simps split: option.splits if_splits)+

lemma quiet_redis:
  assumes "redis_lists R view" "redis_errors R view"
  shows "quiet view (on_redis (SetEx R k v))"
    and "quiet view (on_redis (RedisQ_EnqueueMsg R MetadataUpdateClientsNotifierQueue u m))"
    and "quiet view (on_redis (RedisQ_ReadMsg R MetadataUpdateClientsNotifierQueue u))"
  using assms(2) push_any [OF assms] pop_any [OF assms] queues_differ [of u]
  by (fastforce simp: quiet_def on_redis_def redis_errors_def RedisQ_EnqueueMsg_def Let_def split: prod.splits)+

subsection \<open>Requests are safe\<close>

abbreviation ids_promise :: "'r env \<Rightarrow> 'r sys \<Rightarrow> bool" where
  "ids_promise E s \<equiv> new_ids E (w_db (sy_world s))"

lemma guarantee_tables:
  assumes "sys_inv E0 view s" "moves (w_db (sy_world s)) (w_db w')" "w_redis w' = w_redis (sy_world s)"
  shows "guarantee E0 view s (s\<lparr>sy_world := w'\<rparr>)"
  using sys_inv_tables [OF assms(1,2)] assms(2,3) by (simp add: guarantee_def)

lemma CreateMetadataToken_guarantee:
  assumes "sys_inv E0 view s" "ids_promise E s" "\<And>p. fm_PrevID m = Some p \<Longrightarrow> \<exists>q. known_as p q s"
    and "e_ulid E n = Inr (fm_ID m)" "names_stored m answer" "stream_token_for E m t" "\<not> fm_CurrentFlag m" "fm_EndDate m = None"
    and "on_world (MetadataTokenRepository_CreateMetadataToken E m t) s = (b, s')"
  shows "guarantee E0 view s s'"
  using assms(9)
proof (rule on_world_cases)
  fix w'
  let ?d = "w_db (sy_world s)"
  assume w': "MetadataTokenRepository_CreateMetadataToken E m t (sy_world s) = (b, w')" "s' = s\<lparr>sy_world := w'\<rparr>"
  note out = CreateMetadataToken_outcome [OF w'(1)]
  have ok: "tables_ok ?d" using assms(1) by (rule sys_inv_ok)
  have "p \<in> fm_ID ` set (file_metadatas ?d)" if "fm_PrevID m = Some p" for p
    using assms(3) [OF that] file_row_None [of p ?d] by (auto simp: registry_of_def)
  then have "moves ?d (w_db w')" if "stored E m t (answer t) ?d (w_db w')"
    by (rule moves_stored [OF ok that assms(2,7,8)])
  moreover have "stored E m t (answer t) ?d (w_db w')" if "w_db w' \<noteq> ?d"
    using out that assms(4-6) by (auto simp: tx_outcome_def stored_def names_stored_def)
  ultimately have "moves ?d (w_db w')" using moves_refl [OF ok] by fastforce
  with guarantee_tables [OF assms(1) this] out w'(2) show ?thesis by (simp add: tx_outcome_def)
qed

lemma safe_last:
  assumes "\<And>s b s'. sys_inv E0 view s \<Longrightarrow> P s \<Longrightarrow> K s \<Longrightarrow> g s = (b, s') \<Longrightarrow> guarantee E0 view s s'"
  shows "thread_safe E0 view P K (call g (\<lambda>b. Return (h b)))"
proof (rule safe_call)
  fix s b s'
  assume "sys_inv E0 view s" "P s" "K s" "g s = (b, s')"
  from assms [OF this] show "guarantee E0 view s s' \<and>
      (\<exists>K'. stable_under (guarantee E0 view) K' \<and> K' s' \<and> thread_safe E0 view P K' (Return (h b)))"
    by (intro conjI exI [of _ "\<lambda>s. True"]) (simp_all add: stable_True safe.Return)
qed

lemma safe_issue_token:
  assumes "stable_under (guarantee E0 view) K" "\<And>s p. K s \<Longrightarrow> fm_PrevID m = Some p \<Longrightarrow> \<exists>q. known_as p q s"
    and "e_ulid E n = Inr (fm_ID m)" "names_stored m answer" "\<not> fm_CurrentFlag m" "fm_EndDate m = None"
  shows "thread_safe E0 view (ids_promise E) K (issue_token_go E m e1 e2 answer)"
  unfolding issue_token_go_def
proof (rule safe_quiet [OF assms(1) quiet_calls(6)])
  fix w x w'
  assume x: "NewToken E (fm_ID m) ResourceTypeStream [WithDefaultExpiry, WithUserID (Some (fm_UserID m))] w = (x, w')"
  show "thread_safe E0 view (ids_promise E) K (case x of
      OK token \<Rightarrow> wcall (MetadataTokenRepository_CreateMetadataToken E m token)
        (\<lambda>y. Return (case y of OK u \<Rightarrow> OK (BuildResponse None (Some (answer token)))
           | Err e \<Rightarrow> OK (BuildResponse (Some e2) None) | Panic p \<Rightarrow> Panic p))
    | Err e \<Rightarrow> Return (OK (BuildResponse (Some e1) None)) | Panic p \<Rightarrow> Return (Panic p))"
  proof (cases x)
    case (OK token)
    with NewToken_stream [OF x] have "stream_token_for E m token" by (simp add: stream_token_for_def)
    note go = CreateMetadataToken_guarantee [OF _ _ _ assms(3,4) this assms(5,6)]
    show ?thesis unfolding OK res.case by (rule safe_last) (use go assms(2) in blast)
  qed (simp_all add: safe.Return)
qed

text \<open>Both registrations stamp the row and issue its token.\<close>

lemma safe_stamped:
  assumes "stable_under (guarantee E0 view) K" "NewID E w = (OK fid, w')"
    and "\<And>s stamp p. K s \<Longrightarrow> fm_PrevID (row stamp) = Some p \<Longrightarrow> \<exists>q. known_as p q s"
    and "\<And>stamp. fm_ID (row stamp) = fid \<and> names_stored (row stamp) answer \<and> \<not> fm_CurrentFlag (row stamp) \<and> fm_EndDate (row stamp) = None"
  shows "thread_safe E0 view (ids_promise E) K (wcall (NewTimestamp E) (\<lambda>stamp. issue_token_go E (row stamp) e1 e2 answer))"
proof (rule safe_quiet [OF assms(1) quiet_calls(4)])
  fix stamp
  have u: "e_ulid E (w_tick w) = Inr (fm_ID (row stamp))" using NewID_cases [OF assms(2)] assms(4) by auto
  show "thread_safe E0 view (ids_promise E) K (issue_token_go E (row stamp) e1 e2 answer)"
    by (rule safe_issue_token [OF assms(1) assms(3) u]) (simp_all add: assms(4))
qed

lemma safe_Prepare: "thread_safe E0 view (ids_promise E) (\<lambda>s. True) (PrepareFileForUpload_go E req)"
proof -
  have "thread_safe E0 view (ids_promise E) (\<lambda>s. True) (wcall (NewTimestamp E)
      (\<lambda>stamp. issue_token_go E (prep_row req fid stamp) e1 e2 (prep_answer req fid)))" if "NewID E w = (OK fid, w')" for w fid w' e1 e2
    by (rule safe_stamped [OF stable_True that]) (simp_all add: prep_row_ok, simp_all add: prep_row_def)
  then show ?thesis
    unfolding PrepareFileForUpload_go_def new_file_go_def
    by (intro safe_quiet [OF stable_True quiet_calls(1)])
      (auto intro!: safe_quiet [OF stable_True quiet_calls(3)] safe.Return split: option.split res.split)
qed

text \<open>A quiet first call from whose result the thread learns something.\<close>

lemma safe_learn:
  assumes "quiet view f" "\<And>s b s'. sys_inv E0 view s \<Longrightarrow> on_world f s = (b, s') \<Longrightarrow> guarantee E0 view s s' \<Longrightarrow>
    \<exists>K. stable_under (guarantee E0 view) K \<and> K s' \<and> thread_safe E0 view P K (k b)"
  shows "thread_safe E0 view P (\<lambda>s. True) (wcall f k)"
  by (rule safe_call) (use assms(2) quiet_guarantee [OF _ assms(1)] in blast)

lemma safe_returned: "\<exists>K. stable_under G K \<and> K s \<and> safe I G P K (Return a)"
  by (intro exI [of _ "\<lambda>s. True"]) (simp add: stable_True safe.Return)

lemma FindBy_row:
  assumes "on_world (MetadataRepository_FindBy E cl) s = (OK (row # rest), s')"
  shows "row \<in> set (file_metadatas (w_db (sy_world s))) \<and> where_holds cl row \<and> w_db (sy_world s') = w_db (sy_world s)"
  using assms
proof (rule on_world_cases)
  fix w'
  assume w': "MetadataRepository_FindBy E cl (sy_world s) = (OK (row # rest), w')" "s' = s\<lparr>sy_world := w'\<rparr>"
  from FindBy_cases [OF w'(1)] have "row # rest = filter (where_holds cl) (file_metadatas (w_db (sy_world s)))" "w_db w' = w_db (sy_world s)"
    by auto
  then have "row \<in> set (filter (where_holds cl) (file_metadatas (w_db (sy_world s))))" by (metis list.set_intros(1))
  with w'(2) \<open>w_db w' = w_db (sy_world s)\<close> show ?thesis by simp
qed

lemma safe_new_version:
  "thread_safe E0 view (ids_promise E) (\<lambda>s. \<exists>p. known_as (ur_FileID req) p s) (new_version_go E req prev)"
proof -
  have "thread_safe E0 view (ids_promise E) (\<lambda>s. \<exists>p. known_as (ur_FileID req) p s) (wcall (NewTimestamp E)
      (\<lambda>stamp. issue_token_go E (upd_row req prev fid stamp) e1 e2 (upd_answer req fid)))"
    if "NewID E w = (OK fid, w')" for w fid w' e1 e2
    by (rule safe_stamped [OF stable_exists that]) (auto simp: upd_row_ok upd_row_def names_stored_def upd_answer_def)
  then show ?thesis
    unfolding new_version_go_def
    by (intro safe_quiet [OF stable_exists quiet_calls(3)]) (auto intro!: safe.Return split: res.split)
qed

lemma safe_Update: "thread_safe E0 view (ids_promise E) (\<lambda>s. True) (UpdateFileMetadata_go E req)"
proof (cases "CalculateChunks (ur_FileSize req) = ur_Chunks req")
  case True
  have "\<exists>K. stable_under (guarantee E0 view) K \<and> K s' \<and> thread_safe E0 view (ids_promise E) K (new_version_go E req prev)"
    if "on_world (MetadataRepository_FindBy E [clause_eq ''id'' (ur_FileID req)]) s = (OK (prev # rest), s')" for s s' prev rest
  proof -
    from FindBy_row [OF that] have "ur_FileID req \<in> fm_ID ` set (file_metadatas (w_db (sy_world s')))"
      unfolding where_id by (metis imageI)
    with file_row_None [of "ur_FileID req" "w_db (sy_world s')"] have "\<exists>p. known_as (ur_FileID req) p s'"
      by (auto simp: registry_of_def)
    then show ?thesis
      by (intro exI [of _ "\<lambda>s. \<exists>p. known_as (ur_FileID req) p s"] conjI stable_exists safe_new_version)
  qed
  with True show ?thesis
    unfolding UpdateFileMetadata_go_def
    by (simp, intro safe_learn [OF quiet_calls(2)]) (auto intro: safe_returned split: res.split list.split)
qed (simp add: UpdateFileMetadata_go_def safe.Return)

lemma enqueue_guarantee:
  assumes "sys_inv E0 view s" "good_msg E0 b s" "redis_lists R view" "redis_errors R view"
    and "on_world (on_redis (RedisQ_EnqueueMsg R MetadataFileUpdateQueue [] \<lparr>pl_Message = b, pl_Key = [], pl_TTL = 0\<rparr>)) s = (e, s')"
  shows "guarantee E0 view s s'"
proof -
  obtain r where r: "RPush R MetadataFileUpdateQueue b (w_redis (sy_world s)) = (e, r)"
    "s' = s\<lparr>sy_world := (sy_world s)\<lparr>w_redis := r\<rparr>\<rparr>"
    using assms(5) by (auto simp: on_world_def on_redis_def RedisQ_EnqueueMsg_def file_queue split: prod.splits)
  have m: "moves (w_db (sy_world s)) (w_db (sy_world s'))" using moves_refl [OF sys_inv_ok [OF assms(1)]] r(2) by simp
  have "sys_inv E0 view s'"
    using push_any [OF assms(3,4) r(1)] assms(2) r(2) by (intro sys_invI [OF assms(1) m]) auto
  with m show ?thesis by (simp add: guarantee_def)
qed

lemma safe_enqueue_eof:
  assumes "service_env E0 view s0 E" "\<And>b. e_gob_cache E (eof_message ud row) = Inr b \<Longrightarrow> good_msg E0 b s"
  shows "\<exists>K. stable_under (guarantee E0 view) K \<and> K s \<and> thread_safe E0 view P K (enqueue_eof_go E ud row)"
proof (cases "e_gob_cache E (eof_message ud row)")
  case (Inr b)
  note env = service_envD [OF assms(1)]
  have "thread_safe E0 view P (\<lambda>s. \<forall>b \<in> {b}. good_msg E0 b s) (enqueue_eof_go E ud row)"
    unfolding enqueue_eof_go_def Inr sum.case by (rule safe_last) (use enqueue_guarantee [OF _ _ env(1,2)] in blast)
  with stable_msgs assms(2) [OF Inr] show ?thesis by blast
qed (simp add: enqueue_eof_go_def safe_returned)

lemma safe_MarkUploadComplete:
  assumes "service_env E0 view s0 E"
  shows "thread_safe E0 view P (\<lambda>s. True) (MarkUploadComplete_go E ud)"
proof -
  note env = service_envD [OF assms]
  let ?cl = "[clause_eq ''id'' (ud_FileID ud), clause_eq ''upload_status'' StatusUploading]"
  have "\<exists>K. stable_under (guarantee E0 view) K \<and> K s' \<and> thread_safe E0 view P K (enqueue_eof_go E ud row)"
    if "sys_inv E0 view s" "on_world (MetadataRepository_FindBy E ?cl) s = (OK (row # rest), s')" for s s' row rest
  proof (rule safe_enqueue_eof [OF assms])
    fix b
    assume b: "e_gob_cache E (eof_message ud row) = Inr b"
    let ?d = "w_db (sy_world s)"
    from FindBy_row [OF that(2)] have row: "row \<in> set (file_metadatas ?d)" "fm_ID row = ud_FileID ud" and d: "w_db (sy_world s') = ?d"
      unfolding where_uploading by auto
    have t: "tables_ok ?d" using that(1) by (rule sys_inv_ok)
    have "file_row (ud_FileID ud) ?d = Some row"
      using t row(1) find_distinct [of fm_ID "file_metadatas ?d" row]
      unfolding file_row_def row(2) [symmetric] by (simp add: tables_ok_def db_wf_def files_wf_def)
    from eof_msg_ok [OF env(5) b [unfolded env(6)] this t] show "good_msg E0 b s'" by (simp add: d)
  qed
  then show ?thesis
    unfolding MarkUploadComplete_go_def
    by (intro safe_learn [OF quiet_calls(2)]) (auto intro: safe_returned split: res.split list.split)
qed

lemma safe_Create: "thread_safe E0 view P (\<lambda>s. True) (FileChunkService_Create_go E d req)"
  unfolding FileChunkService_Create_go_def Let_def
  by (intro safe_quiet [OF stable_True quiet_calls(8)])
    (auto intro!: safe.Return safe_quiet [OF stable_True quiet_calls(9)] safe_quiet [OF stable_True quiet_calls(4)]
      safe_quiet [OF stable_True quiet_calls(10)] split: prod.split option.split sum.split)

lemma safe_download:
  assumes "redis_lists (e_redis E) view" "redis_errors (e_redis E) view"
  shows "thread_safe E0 view P (\<lambda>s. True) (download_go E paths buffer)"
proof (induction paths arbitrary: buffer)
  case (Cons p paths)
  then show ?case
    by (auto intro!: safe.Return safe_quiet [OF stable_True quiet_calls(12)] safe_quiet [OF stable_True quiet_calls(11)]
        safe_quiet [OF stable_True quiet_redis(1) [OF assms]] split: option.split sum.split)
qed (simp add: safe.Return)

lemma safe_Download:
  assumes "service_env E0 view s0 E"
  shows "thread_safe E0 view P (\<lambda>s. True) (Download_go E n paths)"
  using safe_download [OF service_envD(1,2) [OF assms]] by (simp add: Download_go_def safe.Return)

subsection \<open>Producers and workers are safe\<close>

lemma safe_consumer:
  assumes "redis_lists R view" "redis_errors R view"
  shows "thread_safe E0 view P (\<lambda>s. True) (MetadataUpdateConsumer_go R n u)"
proof -
  have "thread_safe E0 view P (\<lambda>s. True) (read_go (RedisQ_ReadMsg R MetadataUpdateClientsNotifierQueue u) (\<lambda>results. Return ()) m acc)" for m acc
  proof (induction m arbitrary: acc)
    case (Suc m)
    then show ?case
      by (auto intro!: safe.Return safe_quiet [OF stable_True quiet_redis(3) [OF assms]] split: res.split option.split)
  qed (simp add: safe.Return)
  then show ?thesis by (simp add: MetadataUpdateConsumer_go_def)
qed

text \<open>Reading a message of the update queue: it was on the queue, so it is good, and stays so.\<close>

lemma read_guarantee:
  assumes "sys_inv E0 view s" "redis_lists R view" "redis_errors R view"
    and "on_world (on_redis (RedisQ_ReadMsg R MetadataFileUpdateQueue [])) s = (x, s')"
  shows "guarantee E0 view s s' \<and> (\<forall>m. x = OK (Some m) \<longrightarrow> good_msg E0 (pl_Message m) s')"
proof -
  let ?Q = MetadataFileUpdateQueue
  obtain r where r: "RedisQ_ReadMsg R ?Q [] (w_redis (sy_world s)) = (x, r)" "s' = s\<lparr>sy_world := (sy_world s)\<lparr>w_redis := r\<rparr>\<rparr>"
    using assms(4) by (auto simp: on_world_def on_redis_def split: prod.splits)
  note pop = pop_any [OF assms(2,3) r(1), unfolded file_queue]
  have m: "moves (w_db (sy_world s)) (w_db (sy_world s'))" using moves_refl [OF sys_inv_ok [OF assms(1)]] r(2) by simp
  have "set (view r ?Q) \<subseteq> set (view (w_redis (sy_world s)) ?Q)"
    using pop by (cases "view (w_redis (sy_world s)) ?Q") auto
  then have "sys_inv E0 view s'" using r(2) by (intro sys_invI [OF assms(1) m]) auto
  moreover have "good_msg E0 (pl_Message m) s'" if "x = OK (Some m)" for m
    using pop that assms(1) r(2) by (auto simp: sys_inv_def)
  ultimately show ?thesis using m by (simp add: guarantee_def)
qed

lemma batch_guarantee:
  assumes "sys_inv E0 view s" "\<forall>b \<in> pl_Message ` set results. good_msg E0 b s"
  shows "guarantee E0 view s (s\<lparr>sy_batches := sy_batches s @ [results]\<rparr>)"
proof -
  have m: "moves (w_db (sy_world s)) (w_db (sy_world (s\<lparr>sy_batches := sy_batches s @ [results]\<rparr>)))"
    using moves_refl [OF sys_inv_ok [OF assms(1)]] by simp
  have "sys_inv E0 view (s\<lparr>sy_batches := sy_batches s @ [results]\<rparr>)"
    by (rule sys_invI [OF assms(1) m]) (use assms(2) in auto)
  with m show ?thesis by (simp add: guarantee_def)
qed

lemma safe_changelog:
  assumes "redis_lists R view" "redis_errors R view"
  shows "thread_safe E0 view P (\<lambda>s. True) (MetadataChangelog_go R d)"
proof -
  let ?finish = "\<lambda>results. call (\<lambda>s. ((), s\<lparr>sy_batches := sy_batches s @ [results]\<rparr>)) Return"
  let ?K = "\<lambda>acc s. \<forall>b \<in> pl_Message ` set acc. good_msg E0 b s"
  have "thread_safe E0 view P (?K acc) (read_go (RedisQ_ReadMsg R MetadataFileUpdateQueue []) ?finish n acc)" for n acc
  proof (induction n arbitrary: acc)
    case 0
    show ?case unfolding read_go.simps by (rule safe_last) (use batch_guarantee in auto)
  next
    case (Suc n)
    show ?case
      unfolding read_go.simps
    proof (rule safe_call)
      fix s x s'
      assume s: "sys_inv E0 view s" "?K acc s" "on_world (on_redis (RedisQ_ReadMsg R MetadataFileUpdateQueue [])) s = (x, s')"
      note g = read_guarantee [OF s(1) assms s(3)]
      have K: "?K acc s'" using stable_msgs [of E0 view "pl_Message ` set acc"] g s(2) unfolding stable_under_def by blast
      have "?K (acc @ [m]) s'" if "x = OK (Some m)" for m using K g that by auto
      moreover have "\<exists>K'. stable_under (guarantee E0 view) K' \<and> K' s' \<and>
          thread_safe E0 view P K' (read_go (RedisQ_ReadMsg R MetadataFileUpdateQueue []) ?finish n acc')" if "?K acc' s'" for acc'
        using that by (intro exI [of _ "?K acc'"] conjI stable_msgs Suc.IH)
      ultimately show "guarantee E0 view s s' \<and> (\<exists>K'. stable_under (guarantee E0 view) K' \<and> K' s' \<and> thread_safe E0 view P K'
          (case x of OK None \<Rightarrow> read_go (RedisQ_ReadMsg R MetadataFileUpdateQueue []) ?finish n acc
           | OK (Some payload) \<Rightarrow> read_go (RedisQ_ReadMsg R MetadataFileUpdateQueue []) ?finish n (acc @ [payload])
           | Err e \<Rightarrow> Return () | Panic p \<Rightarrow> Return ()))"
        using K g by (auto split: option.split res.split intro: safe_returned simp del: set_append)
    qed
  qed
  from this [of "[]" "nat d"] show ?thesis by (simp add: MetadataChangelog_go_def)
qed

lemma Update_guarantee:
  assumes "sys_inv E0 view s" "known_as i prev s" "st \<noteq> StatusUploading"
    and "on_world (MetadataRepository_Update E prev i st) s = (b, s')"
  shows "guarantee E0 view s s'"
  using assms(4)
proof (rule on_world_cases)
  fix w'
  let ?d = "w_db (sy_world s)"
  assume w': "MetadataRepository_Update E prev i st (sy_world s) = (b, w')" "s' = s\<lparr>sy_world := w'\<rparr>"
  have ok: "tables_ok ?d" using assms(1) by (rule sys_inv_ok)
  from assms(2) obtain row where row: "file_row i ?d = Some row" "fm_PrevID row = prev"
    by (auto simp: registry_of_def row_entry_def)
  note out = Update_outcome [OF w'(1)]
  have "moves ?d (w_db w')"
  proof (cases "is_OK b")
    case True
    with out obtain n where "w_db w' = update_effect (prev, i, st) (e_clock E n) ?d" by (auto simp: tx_outcome_def)
    with moves_update [OF ok row assms(3)] show ?thesis by simp
  next
    case False
    with out moves_refl [OF ok] show ?thesis by (simp add: tx_outcome_def)
  qed
  with guarantee_tables [OF assms(1) this] out w'(2) show ?thesis by (simp add: tx_outcome_def)
qed

lemma safe_updating:
  assumes "stable_under (guarantee E0 view) K" "\<And>s. K s \<Longrightarrow> known_as i prev s" "st \<noteq> StatusUploading"
    and "\<And>x. thread_safe E0 view P K (k x)"
  shows "thread_safe E0 view P K (wcall (MetadataRepository_Update E prev i st) k)"
proof (rule safe_call_keep [where F = "\<lambda>b. True", OF assms(1)])
  fix s b s'
  assume "sys_inv E0 view s" "K s" "on_world (MetadataRepository_Update E prev i st) s = (b, s')"
  with Update_guarantee [OF _ assms(2) assms(3)] show "guarantee E0 view s s' \<and> True" by simp
qed (rule assms(4))

lemma safe_ExecuteEach:
  assumes "stable_under (guarantee E0 view) K" "\<And>s. K s \<Longrightarrow> known_as (cm_ID c) (cm_PrevID c) s"
    and k: "\<And>x. thread_safe E0 view P K (k x)"
  shows "thread_safe E0 view P K (ExecuteEach_go E c k)"
proof (cases "cm_PrevID c")
  case None
  from safe_updating [OF assms(1,2) _ k] show ?thesis by (simp add: ExecuteEach_go_def None)
next
  case (Some p)
  let ?upd = "MetadataRepository_Update E (Some p) (cm_ID c)"
  have upd: "thread_safe E0 view P K (wcall (?upd st) k)" if "st \<noteq> StatusUploading" for st
    using safe_updating [OF assms(1,2) that k] by (simp add: Some)
  have "thread_safe E0 view P K (reconcile_chunks_go E f1 f2 ?upd k)" for f1 f2
    unfolding reconcile_chunks_go_def Let_def
    by (auto intro!: safe_quiet [OF assms(1) quiet_calls(7)] safe_quiet [OF assms(1) quiet_CreateBatch] upd k split: res.split)
  then show ?thesis
    unfolding ExecuteEach_go_def Some option.case reconcile_go_def
    by (intro safe_quiet [OF assms(1) quiet_calls(5)]) (auto intro!: k split: res.split simp: Let_def)
qed

lemma safe_notify:
  assumes "redis_lists (e_redis E) view" "redis_errors (e_redis E) view" "stable_under (guarantee E0 view) K"
  shows "thread_safe E0 view P K (notify_go E ps failed)"
  using assms(1,2)
proof (induction E ps failed rule: notify_go.induct)
  case (3 E payload userID payloads failed)
  then show ?case unfolding notify_go.simps by (intro safe_quiet [OF assms(3) quiet_redis(2)]) auto
qed (simp_all add: safe.Return)

lemma safe_execute:
  assumes "service_env E0 view s0 E"
  shows "thread_safe E0 view P (\<lambda>s. \<forall>b \<in> pl_Message ` set ps. good_msg E0 b s) (execute_go E (map Some ps) events)"
proof (induction ps arbitrary: events)
  case Nil
  show ?case using safe_notify [OF service_envD(1,2) [OF assms] stable_True] by simp
next
  case (Cons p ps)
  let ?K = "\<lambda>ps s. \<forall>b \<in> pl_Message ` set ps. good_msg E0 b s"
  note env = service_envD [OF assms]
  show ?case
  proof (cases "e_ungob_cache E (pl_Message p)")
    case (Inr c)
    have "thread_safe E0 view P (?K (p # ps)) (execute_go E (map Some ps) evs)" for evs
      by (rule safe_weaken [OF Cons.IH]) simp
    then have "thread_safe E0 view P (?K (p # ps)) (ExecuteEach_go E c (\<lambda>x. case x of OK u \<Rightarrow> execute_go E (map Some ps) (events @ [success_event c])
        | Err e \<Rightarrow> Return (EErr e) | Panic q \<Rightarrow> Return (EPanic q)))"
      using Inr env(7) by (intro safe_ExecuteEach stable_msgs) (auto simp: msg_ok_def safe.Return split: res.split)
    with Inr show ?thesis by simp
  qed (simp add: safe.Return)
qed

lemma take_batch_guarantee:
  assumes "sys_inv E0 view s" "take_batch s = (x, s')"
  shows "guarantee E0 view s s' \<and> (\<forall>ps. x = Some ps \<longrightarrow> (\<forall>b \<in> pl_Message ` set ps. good_msg E0 b s'))"
proof -
  have w: "sy_world s' = sy_world s" using assms(2) by (auto simp: take_batch_def split: list.splits)
  have m: "moves (w_db (sy_world s)) (w_db (sy_world s'))" using moves_refl [OF sys_inv_ok [OF assms(1)]] w by simp
  have "sys_inv E0 view s'"
    by (rule sys_invI [OF assms(1) m]) (use assms(2) in \<open>auto simp: take_batch_def split: list.splits\<close>)
  with m show ?thesis using assms by (auto simp: guarantee_def take_batch_def sys_inv_def split: list.splits)
qed

lemma safe_Execute:
  assumes "service_env E0 view s0 E"
  shows "thread_safe E0 view P (\<lambda>s. True) (Execute_go E)"
  unfolding Execute_go_def
proof (rule safe_call)
  fix s x s'
  assume "sys_inv E0 view s" "take_batch s = (x, s')"
  note g = take_batch_guarantee [OF this]
  have "\<exists>K. stable_under (guarantee E0 view) K \<and> K s' \<and> thread_safe E0 view P K (map_prog Some (execute_go E (map Some ps) []))" if "x = Some ps" for ps
    using g that by (intro exI [of _ "\<lambda>s. \<forall>b \<in> pl_Message ` set ps. good_msg E0 b s"] conjI stable_msgs
        safe_map_prog [OF safe_execute [OF assms]]) blast
  with g show "guarantee E0 view s s' \<and> (\<exists>K. stable_under (guarantee E0 view) K \<and> K s' \<and> thread_safe E0 view P K
      (case x of None \<Rightarrow> Return None | Some payloads \<Rightarrow> map_prog Some (execute_go E (map Some payloads) [])))"
    by (cases x) (auto intro: safe_returned)
qed

subsection \<open>The service\<close>

text \<open>What may arrive, at any time and in any number: the requests that write tables, chunk files, queues or
  the cache, demands on the two producers, and a worker looking for a batch.  The other routes only
  read.  A request that makes an id is promised that ids are new.  The \<open>reconcile\<close> command is not a part of
  the service: it switches versions the wrong way round (\<open>Executor\<close>).\<close>

abbreviation forget :: "('s, 'a) prog \<Rightarrow> ('s, unit) prog" where
  "forget \<equiv> map_prog (\<lambda>x. ())"

inductive service_arrives :: "'r env \<Rightarrow> ('r \<Rightarrow> string \<Rightarrow> string list) \<Rightarrow> 'r sys \<Rightarrow> string \<Rightarrow> ('r sys, unit) thread \<Rightarrow> bool"
  for E0 view s0 dir where
  prepares: "service_env E0 view s0 E \<Longrightarrow> service_arrives E0 view s0 dir (ids_promise E, forget (PrepareFileForUpload_go E mreq))"
| updates: "service_env E0 view s0 E \<Longrightarrow> service_arrives E0 view s0 dir (ids_promise E, forget (UpdateFileMetadata_go E ureq))"
| uploads: "service_env E0 view s0 E \<Longrightarrow> service_arrives E0 view s0 dir (\<lambda>s. True, forget (FileChunkService_Create_go E dir creq))"
| ends: "service_env E0 view s0 E \<Longrightarrow> service_arrives E0 view s0 dir (\<lambda>s. True, forget (MarkUploadComplete_go E ud))"
| downloads: "service_env E0 view s0 E \<Longrightarrow> service_arrives E0 view s0 dir (\<lambda>s. True, forget (Download_go E n urls))"
| demands: "service_env E0 view s0 E \<Longrightarrow> service_arrives E0 view s0 dir (\<lambda>s. True, MetadataChangelog_go (e_redis E) d)"
| notices: "service_env E0 view s0 E \<Longrightarrow> service_arrives E0 view s0 dir (\<lambda>s. True, MetadataUpdateConsumer_go (e_redis E) n u)"
| works: "service_env E0 view s0 E \<Longrightarrow> service_arrives E0 view s0 dir (\<lambda>s. True, forget (Execute_go E))"

abbreviation service_threads :: "'r env \<Rightarrow> ('r \<Rightarrow> string \<Rightarrow> string list) \<Rightarrow> 'r sys \<Rightarrow> string \<Rightarrow>
    'r sys \<times> ('r sys, unit) thread list \<Rightarrow> 'r sys \<times> ('r sys, unit) thread list \<Rightarrow> bool" where
  "service_threads E0 view s0 dir \<equiv> threads_step (service_arrives E0 view s0 dir)"

interpretation conc: thread_system "sys_inv E0 view" "guarantee E0 view" "service_arrives E0 view s0 dir"
  for E0 :: "'r env" and view s0 dir
proof
  fix s s' :: "'r sys"
  show "guarantee E0 view s s' \<Longrightarrow> sys_inv E0 view s'" by (simp add: guarantee_def)
next
  fix P and p :: "('r sys, unit) prog"
  assume "service_arrives E0 view s0 dir (P, p)"
  then show "thread_safe E0 view P (\<lambda>s. True) p"
    by cases (auto intro!: safe_map_prog safe_Prepare safe_Update safe_Create safe_MarkUploadComplete safe_Download
        safe_changelog safe_consumer safe_Execute dest: service_envD(1,2))
qed

lemma guarantees_move:
  assumes "(guarantee E0 view)\<^sup>*\<^sup>* s s'" "sys_inv E0 view s"
  shows "moves (w_db (sy_world s)) (w_db (sy_world s'))"
  using assms(1)
proof (induction rule: rtranclp_induct)
  case base
  show ?case using moves_refl [OF sys_inv_ok [OF assms(2)]] .
next
  case (step t u)
  then show ?case by (auto simp: guarantee_def intro: moves_trans)
qed

lemma threads_keep:
  assumes "reachable (service_threads E0 view s0 dir) (s0, []) (s, ts)" "sys_inv E0 view s0"
  shows "sys_inv E0 view s" "moves (w_db (sy_world s0)) (w_db (sy_world s))"
  using conc.invariant_holds [OF assms] guarantees_move [OF conc.only_guaranteed [OF assms] assms(2)] by simp_all

subsection \<open>A step of the service is a run of a thread\<close>

lemma alone_quiet:
  assumes "quiet view f" "ids_promise E s" "\<And>b s'. on_world f s = (b, s') \<Longrightarrow> ids_promise E s' \<Longrightarrow> alone (ids_promise E) (k b) s'"
  shows "alone (ids_promise E) (wcall f k) s"
proof -
  obtain b s' where o: "on_world f s = (b, s')" by (cases "on_world f s")
  from o have "file_metadatas (w_db (sy_world s')) = file_metadatas (w_db (sy_world s))"
    using assms(1) by (auto simp: quiet_def elim: on_world_cases)
  with assms(2) have "ids_promise E s'" by (simp add: new_ids_def fresh_ids_def)
  with assms(2,3) o show ?thesis by simp
qed

lemma alone_issue: "ids_promise E s \<Longrightarrow> alone (ids_promise E) (issue_token_go E m e1 e2 answer) s"
  unfolding issue_token_go_def by (rule alone_quiet [OF quiet_calls(6)]) (auto split: res.split)

lemma alone_new_file: "ids_promise E s \<Longrightarrow> alone (ids_promise E) (new_file_go E req) s"
  unfolding new_file_go_def
  by (rule alone_quiet [OF quiet_calls(3)])
    (auto intro!: alone_quiet [OF quiet_calls(4)] alone_issue split: res.split simp del: alone_call)

lemma alone_Prepare: "ids_promise E s \<Longrightarrow> alone (ids_promise E) (PrepareFileForUpload_go E req) s"
  unfolding PrepareFileForUpload_go_def
  by (rule alone_quiet [OF quiet_calls(1)]) (auto intro!: alone_new_file split: option.split)

lemma alone_Update: "ids_promise E s \<Longrightarrow> alone (ids_promise E) (UpdateFileMetadata_go E req) s"
  unfolding UpdateFileMetadata_go_def new_version_go_def
  by (auto intro!: alone_quiet [OF quiet_calls(2)] alone_quiet [OF quiet_calls(3)] alone_quiet [OF quiet_calls(4)] alone_issue
      split: list.split res.split simp del: alone_call)

text \<open>
  The steps of the service that \<open>System\<close> takes whole are threads that nobody interrupted: whatever a
  step of the service does from a state, a thread does that arrives in this state and makes all its
  calls at once.  So every run of the service is a run of its threads.
\<close>

lemma step_is_thread:
  assumes "service_step E0 view s0 dir s s'"
  shows "\<exists>P p a. service_arrives E0 view s0 dir (P, p) \<and> alone P p s \<and> run p s = (a, s')"
  using assms
proof cases
  case (prepare E mreq resp w')
  then show ?thesis
    using service_arrives.prepares [OF prepare(2), of dir mreq] alone_Prepare [OF prepare(3), of mreq]
    by (intro exI [of _ "ids_promise E"] exI [of _ "forget (PrepareFileForUpload_go E mreq)"]) (simp add: run_Prepare on_world_def)
next
  case (update E ureq resp w')
  then show ?thesis
    using service_arrives.updates [OF update(2), of dir ureq] alone_Update [OF update(3), of ureq]
    by (intro exI [of _ "ids_promise E"] exI [of _ "forget (UpdateFileMetadata_go E ureq)"]) (simp add: run_Update on_world_def)
next
  case (chunk E creq cresp w')
  then show ?thesis using service_arrives.uploads [OF chunk(2), of dir creq]
    by (intro exI [of _ "\<lambda>s. True"] exI [of _ "forget (FileChunkService_Create_go E dir creq)"]) (simp add: run_Create on_world_def)
next
  case (eof E ud eresp w')
  then show ?thesis using service_arrives.ends [OF eof(2), of dir ud]
    by (intro exI [of _ "\<lambda>s. True"] exI [of _ "forget (MarkUploadComplete_go E ud)"]) (simp add: run_MarkUploadComplete on_world_def)
next
  case (produce E d q r')
  then show ?thesis using service_arrives.demands [OF produce(2), of dir d]
    by (intro exI [of _ "\<lambda>s. True"] exI [of _ "MetadataChangelog_go (e_redis E) d"]) (simp add: run_Changelog)
next
  case (execute E payloads rest x w')
  then show ?thesis using service_arrives.works [OF execute(2), of dir] run_Execute [OF execute(3,4)]
    by (intro exI [of _ "\<lambda>s. True"] exI [of _ "forget (Execute_go E)"]) simp
next
  case (consume E n u q r')
  then show ?thesis using service_arrives.notices [OF consume(2), of dir n u]
    by (intro exI [of _ "\<lambda>s. True"] exI [of _ "MetadataUpdateConsumer_go (e_redis E) n u"]) (simp add: run_Consumer)
next
  case (download E n urls b w')
  then show ?thesis using service_arrives.downloads [OF download(2), of dir n urls]
    by (intro exI [of _ "\<lambda>s. True"] exI [of _ "forget (Download_go E n urls)"]) (simp add: run_Download on_world_def)
qed

lemma service_is_threads:
  "reachable (service_step E0 view s0 dir) s0 s \<Longrightarrow>
     \<exists>ts. reachable (service_threads E0 view s0 dir) (s0, []) (s, ts) \<and> (\<forall>t \<in> set ts. snd t = Return ())"
proof (induction rule: reachable.induct)
  case start
  show ?case by (rule exI [of _ "[]"]) (simp add: reachable.start)
next
  case (step s s')
  then obtain ts where "reachable (service_threads E0 view s0 dir) (s0, []) (s, ts)" and ts: "\<forall>t \<in> set ts. snd t = Return ()"
    by blast
  note this(1)
  moreover from step_is_thread [OF step(2)] obtain P p a
    where "service_arrives E0 view s0 dir (P, p)" "alone P p s" "run p s = (a, s')" by blast
  ultimately have "reachable (service_threads E0 view s0 dir) (s0, []) (s', ts @ [(P, Return a)])" by (rule arrive_run)
  with ts show ?case by (intro exI [of _ "ts @ [(P, Return a)]"]) simp
qed

end
