(* ===== verification/Races.thy ===== *)
theory Races
  imports Concurrent Sample
begin

text \<open>
  What the check of duplicates in \<open>PrepareFileForUpload\<close> is worth when requests run at the same time.  The
  check and the insertion are two calls, with nothing in the schema to make digests unique, so two
  requests that both look before either stores are both answered with a new file.
\<close>

lemma unknown_hash:
  assumes "no_faults E" "stmts_loaded E" "h \<notin> fm_FileHash ` set (file_metadatas (w_db (sy_world s)))"
  shows "\<exists>s1. on_world (MetadataRepository_FindByHash E h) s = ((False, None), s1) \<and> w_db (sy_world s1) = w_db (sy_world s)"
proof -
  obtain x w1 where x: "MetadataRepository_FindByHash E h (sy_world s) = (x, w1)" by fastforce
  have "\<not> 0 < sql_FindByHash h (w_db (sy_world s))" using assms(3) by (auto simp: sql_FindByHash_def filter_empty_conv)
  with FindByHash_run [OF assms(1,2), of h "sy_world s"] x have "x = (False, None)" by simp
  with x FindByHash_cases [OF x [unfolded \<open>x = (False, None)\<close>]] show ?thesis by (simp add: on_world_def)
qed

lemma new_file_run:
  assumes "no_faults E" "stmts_loaded E" "sources_ok E" "mr_Chunks req = CalculateChunks (mr_FileSize req)"
  shows "\<exists>m t a s'. run (new_file_go E req) s = (OK (BuildResponse None (Some a)), s') \<and> first_row req m \<and>
    stored E m t a (w_db (sy_world s)) (w_db (sy_world s'))"
proof -
  let ?w = "sy_world s"
  obtain i where i: "NewID E ?w = (OK i, tick ?w)" "e_ulid E (w_tick ?w) = Inr i"
    using assms(3) by (auto simp: NewID_def sources_ok_def) (metis sum.simps(6))
  obtain st w3 where st: "NewTimestamp E (tick ?w) = (st, w3)" by (cases "NewTimestamp E (tick ?w)")
  have "e_ulid E (w_tick ?w) = Inr (fm_ID (prep_row req i st))" using i(2) by (simp add: prep_row_ok)
  from issue_stored_run [OF assms(1-3) this prep_row_ok(2)] obtain t a w' where
    "issue_token E (prep_row req i st) ''internal_server_error:2010:500'' ''internal_server_error:2011:500'' (prep_answer req i) w3 =
       (OK (BuildResponse None (Some a)), w')" "stored E (prep_row req i st) t a (w_db w3) (w_db w')" by metis
  moreover have "w_db w3 = w_db ?w" using NewTimestamp_frame [OF st] by simp
  ultimately show ?thesis using i(1) st assms(4)
    by (intro exI [of _ "prep_row req i st"] exI [of _ t] exI [of _ a] exI [of _ "s\<lparr>sy_world := w'\<rparr>"])
      (simp add: new_file_go_def run_wcall run_issue_token on_world_def prep_row_ok del: run_call)
qed

text \<open>The second request runs between the check of the first one and its insertion.\<close>

abbreviation registering :: "'r env \<Rightarrow> MetadataRequest \<Rightarrow> ('r sys, unit) thread" where
  "registering E req \<equiv> (ids_promise E, forget (PrepareFileForUpload_go E req))"

lemma checked:
  assumes "service_env E0 view s0 E1" "service_env E0 view s0 E2" "no_faults E1" "stmts_loaded E1"
    and "ids_promise E1 s0" "mr_Digest req \<notin> fm_FileHash ` set (file_metadatas (w_db (sy_world s0)))"
  shows "\<exists>s1. w_db (sy_world s1) = w_db (sy_world s0) \<and> reachable (service_threads E0 view s0 dir) (s0, [])
    (s1, [(ids_promise E1, forget (new_file_go E1 req)), registering E2 req])"
proof -
  let ?T = "service_threads E0 view s0 dir"
  from unknown_hash [OF assms(3,4,6)] obtain s1 where
    s1: "on_world (MetadataRepository_FindByHash E1 (mr_Digest req)) s0 = ((False, None), s1)" "w_db (sy_world s1) = w_db (sy_world s0)"
    by blast
  have a: "?T (s0, []) (s0, [] @ [registering E1 req])" "?T (s0, [registering E1 req]) (s0, [registering E1 req] @ [registering E2 req])"
    by (rule threads_step.arrive, rule service_arrives.prepares, fact)+
  have "reachable ?T (s0, []) (s0, [registering E1 req, registering E2 req])"
    using reachable.step [where step = ?T, OF reachable.step [where step = ?T, OF reachable.start a(1) [simplified]] a(2)] by simp
  moreover obtain k where k: "forget (PrepareFileForUpload_go E1 req) = wcall (MetadataRepository_FindByHash E1 (mr_Digest req)) k"
      "k (False, None) = forget (new_file_go E1 req)"
    by (simp add: PrepareFileForUpload_go_def)
  from go_call [of 0 "[registering E1 req, registering E2 req]" "ids_promise E1"
      "on_world (MetadataRepository_FindByHash E1 (mr_Digest req))" k s0 "(False, None)" s1] k s1(1) assms(5)
  have "?T (s0, [registering E1 req, registering E2 req]) (s1, [(ids_promise E1, forget (new_file_go E1 req)), registering E2 req])" by simp
  ultimately show ?thesis using s1(2) by (auto intro: reachable.step [where step = ?T])
qed


lemma stored_files: "stored E m t a d d' \<Longrightarrow> file_metadatas d' = file_metadatas d @ [m]"
  by (simp add: stored_def)

lemma other_ids:
  assumes "stored E m t a d d'" "new_ids E' d" "\<And>n n'. e_ulid E n \<noteq> e_ulid E' n'"
  shows "new_ids E' d'"
proof -
  from assms(1) obtain n where "e_ulid E n = Inr (fm_ID m)" by (auto simp: stored_def)
  with assms(3) have "e_ulid E' n' \<noteq> Inr (fm_ID m)" for n' by metis
  with assms(1,2) show ?thesis by (auto simp: stored_def new_ids_def fresh_ids_def)
qed

text \<open>
  C28.  Two requests can register the same file twice: from every state in which nothing has the digest, two
  threads of \<open>PrepareFileForUpload\<close> for it, with ids that differ and no call failing, can interleave so that both
  return and the table has two new files with that digest.  Run one after the other, the second request is
  refused as a duplicate.
\<close>

theorem PrepareFileForUpload_race:
  assumes "service_env E0 view s0 E1" "no_faults E1" "stmts_loaded E1" "sources_ok E1" "new_ids E1 (w_db (sy_world s0))"
    and "service_env E0 view s0 E2" "no_faults E2" "stmts_loaded E2" "sources_ok E2" "new_ids E2 (w_db (sy_world s0))"
    and differ: "\<And>n n'. e_ulid E1 n \<noteq> e_ulid E2 n'"
    and "mr_Digest req \<notin> fm_FileHash ` set (file_metadatas (w_db (sy_world s0)))" "mr_Chunks req = CalculateChunks (mr_FileSize req)"
  shows "\<exists>s m1 m2. reachable (service_threads E0 view s0 dir) (s0, []) (s, [(ids_promise E1, Return ()), (ids_promise E2, Return ())]) \<and>
    file_metadatas (w_db (sy_world s)) = file_metadatas (w_db (sy_world s0)) @ [m2, m1] \<and>
    first_row req m1 \<and> first_row req m2 \<and> fm_FileHash m1 = fm_FileHash m2 \<and> fm_ID m1 \<noteq> fm_ID m2"
proof -
  let ?T = "service_threads E0 view s0 dir"
  obtain s1 where s1: "w_db (sy_world s1) = w_db (sy_world s0)"
    "reachable ?T (s0, []) (s1, [(ids_promise E1, forget (new_file_go E1 req)), registering E2 req])"
    using checked [OF assms(1,6,2,3,5,12)] by blast
  obtain s2 where s2: "on_world (MetadataRepository_FindByHash E2 (mr_Digest req)) s1 = ((False, None), s2)"
    "w_db (sy_world s2) = w_db (sy_world s0)"
    using unknown_hash [OF assms(7,8), of "mr_Digest req" s1] assms(12) s1(1) by auto
  obtain m2 t2 a2 s3 where s3: "run (new_file_go E2 req) s2 = (OK (BuildResponse None (Some a2)), s3)" "first_row req m2"
    "stored E2 m2 t2 a2 (w_db (sy_world s0)) (w_db (sy_world s3))"
    using new_file_run [OF assms(7-9,13), of s2] unfolding s2(2) by blast
  have r2: "run (PrepareFileForUpload_go E2 req) s1 = (OK (BuildResponse None (Some a2)), s3)"
    using s2 s3 by (simp add: PrepareFileForUpload_go_def)
  have "alone (ids_promise E2) (forget (PrepareFileForUpload_go E2 req)) s1" using alone_Prepare [of E2 s1] assms(10) s1(1) by simp
  from run_alone [OF this s1(2), of 1] r2
  have at3: "reachable ?T (s0, []) (s3, [(ids_promise E1, forget (new_file_go E1 req)), (ids_promise E2, Return ())])" by simp
  have p3: "ids_promise E1 s3" using other_ids [OF s3(3) assms(5)] differ by metis
  obtain m1 t1 a1 s4 where s4: "run (new_file_go E1 req) s3 = (OK (BuildResponse None (Some a1)), s4)" "first_row req m1"
    "stored E1 m1 t1 a1 (w_db (sy_world s3)) (w_db (sy_world s4))"
    using new_file_run [OF assms(2-4,13), of s3] by blast
  have "alone (ids_promise E1) (forget (new_file_go E1 req)) s3" using alone_new_file [OF p3] by simp
  from run_alone [OF this at3, of 0] s4(1)
  have at4: "reachable ?T (s0, []) (s4, [(ids_promise E1, Return ()), (ids_promise E2, Return ())])" by simp
  have "fm_ID m1 \<noteq> fm_ID m2" using differ s3(3) s4(3) by (metis stored_def)
  with at4 s3(2) s4(2) stored_files [OF s3(3)] stored_files [OF s4(3)] show ?thesis
    by (intro exI [of _ s4] exI [of _ m1] exI [of _ m2]) (simp add: first_row_def)
qed

subsection \<open>A sample service\<close>

definition demo0 :: "mem_redis sys" where
  "demo0 = \<lparr>sy_world = sample_world, sy_batches = []\<rparr>"

lemma mem_errors: "redis_errors mem_client fst"
  by (auto simp: redis_errors_def mem_client_def split: list.splits)

lemma demo0_inv: "sys_inv sample_env fst demo0"
  by (simp add: sys_inv_def demo0_def sample_world_def tables_ok_def sample_db_wf)
    (simp add: sample_db_def row_A_def row_B_def)

lemma demo_env: "service_env sample_env fst demo0 sample_env"
  using sample_ok mem_lists mem_errors demo0_inv by (simp add: service_env_def sample_env_def)

text \<open>Another request of the sample service draws its ids from another series.\<close>

definition other_env :: "mem_redis env" where
  "other_env = sample_env\<lparr>e_ulid := (\<lambda>n. Inr (''ULIE'' @ fmt_d (int n)))\<rparr>"

lemma other_ok: "no_faults other_env" "stmts_loaded other_env" "sources_ok other_env" "service_env sample_env fst demo0 other_env"
  using demo_env by (simp_all add: other_env_def sample_env_def no_faults_def stmts_loaded_def sources_ok_def service_env_def
      sql_order_ok_def range_ok_def)

lemma demo_ids: "new_ids sample_env (w_db (sy_world demo0))" "new_ids other_env (w_db (sy_world demo0))"
  by (auto simp: new_ids_def fresh_ids_def other_env_def sample_env_def demo0_def sample_defs)

theorem PrepareFileForUpload_race_witness:
  "\<exists>s m1 m2. reachable (service_threads sample_env fst demo0 ''/data'') (demo0, [])
      (s, [(ids_promise sample_env, Return ()), (ids_promise other_env, Return ())]) \<and>
    file_metadatas (w_db (sy_world s)) = [row_A, row_B, m2, m1] \<and> fm_FileHash m1 = ''hg'' \<and> fm_FileHash m2 = ''hg'' \<and> fm_ID m1 \<noteq> fm_ID m2"
proof -
  have differ: "e_ulid sample_env n \<noteq> e_ulid other_env n'" for n n' by (simp add: sample_env_def other_env_def)
  have c: "mr_Chunks sample_request = CalculateChunks (mr_FileSize sample_request)"
    by (simp add: sample_request_def CalculateChunks_exact FrontendChunkSize_def)
  have d: "mr_Digest sample_request \<notin> fm_FileHash ` set (file_metadatas (w_db (sy_world demo0)))"
    by (simp add: sample_request_def demo0_def sample_defs)
  have f: "file_metadatas (w_db (sy_world demo0)) = [row_A, row_B]" by (simp add: demo0_def sample_world_def sample_db_def)
  have h: "first_row sample_request m \<Longrightarrow> fm_FileHash m = ''hg''" for m by (simp add: first_row_def sample_request_def)
  show ?thesis
    using PrepareFileForUpload_race [OF demo_env sample_no_faults sample_stmts sample_sources demo_ids(1) other_ok(4,1-3) demo_ids(2)
        differ d c, where dir = "''/data''"] h unfolding f by (simp, blast)
qed

end
