(* ===== verification/Squirtle.thy ===== *)
theory Squirtle
  imports Sample
begin

text \<open>
  The query store (\<open>pkg/squirtle/querystore.go\<close>): the named SQL statements of a table are read from a
  file whose parts begin with \<open>--sql:<name>\<close>.  The regular expression of the code,
  \<open>(?m)sql:([P<QueryName>\w]+)$\<close>, is written out as a matcher: the class is the word characters with
  \<open><\<close> and \<open>>\<close>, so a match takes the whole run of them and must end its line.  Reading a file and
  decoding the YAML list of tables is outside; both are arguments.
\<close>

subsection \<open>The matcher\<close>

definition newline :: char where "newline = CHR 0x0A"

definition name_char :: "char \<Rightarrow> bool" where
  "name_char c = (let n = (of_char c :: nat)
     in 48 \<le> n \<and> n \<le> 57 \<or> 65 \<le> n \<and> n \<le> 90 \<or> 97 \<le> n \<and> n \<le> 122 \<or> n \<in> {95, 60, 62})"

text \<open>The match at the head of a text: the name and what is behind the match.\<close>

definition rx_match :: "string \<Rightarrow> (string \<times> string) option" where
  "rx_match s =
     (if HasPrefix s ''sql:''
      then let name = takeWhile name_char (drop 4 s); after = dropWhile name_char (drop 4 s)
           in if name \<noteq> [] \<and> (after = [] \<or> hd after = newline) then Some (name, after) else None
      else None)"

fun rx_FindStringSubmatch :: "string \<Rightarrow> string option" where
  "rx_FindStringSubmatch [] = None"
| "rx_FindStringSubmatch (c # cs) =
     (case rx_match (c # cs) of Some (name, after) \<Rightarrow> Some name | None \<Rightarrow> rx_FindStringSubmatch cs)"

lemma rx_match_shorter: "rx_match s = Some (name, after) \<Longrightarrow> length after < length s"
  by (auto simp: rx_match_def HasPrefix_iff Let_def length_dropWhile_le le_imp_less_Suc less_SucI split: if_splits)

function rx_ReplaceAllString :: "string \<Rightarrow> string" where
  "rx_ReplaceAllString [] = []"
| "rx_ReplaceAllString (c # cs) =
     (case rx_match (c # cs) of
        Some (name, after) \<Rightarrow> rx_ReplaceAllString after
      | None \<Rightarrow> c # rx_ReplaceAllString cs)"
  by pat_completeness auto
termination
  by (relation "measure length") (auto dest: rx_match_shorter)

subsection \<open>The store\<close>

record QueryConfig =
  qc_Table :: string
  qc_QueryFilePaths :: "string list"

type_synonym QueryMapper = "string gomap"

fun hydrate_loop :: "string list \<Rightarrow> QueryMapper \<Rightarrow> QueryMapper" where
  "hydrate_loop [] store = store"
| "hydrate_loop (queryConfig # rest) store =
     (case rx_FindStringSubmatch queryConfig of
        None \<Rightarrow> hydrate_loop rest store
      | Some match \<Rightarrow> hydrate_loop rest (AList.update match (TrimSpace (rx_ReplaceAllString queryConfig)) store))"

definition HydrateQueryStore :: "(string \<Rightarrow> goerr + string) \<Rightarrow> QueryConfig list \<Rightarrow> string \<Rightarrow> QueryMapper \<times> goerr option" where
  "HydrateQueryStore ReadFile qs tableName =
     (case find (\<lambda>record. qc_Table record = tableName) qs of
        None \<Rightarrow> ([], Some ''config for table not found'')
      | Some config \<Rightarrow>
          (case qc_QueryFilePaths config of
             [] \<Rightarrow> ([], Some ''missing query file. don't fool me'')
           | path # others \<Rightarrow>
               (case ReadFile path of
                  Inl err \<Rightarrow> ([], Some err)
                | Inr queries \<Rightarrow> (hydrate_loop (strings_Split ''--'' queries) [], None))))"

definition GetQuery :: "QueryMapper \<Rightarrow> string \<Rightarrow> string option" where
  "GetQuery qmap queryName = map_of qmap queryName"

subsection \<open>Query files\<close>

text \<open>A part of a query file: the name, the statement, and comments behind it, each with the text up to
  the next \<open>--\<close>.\<close>

type_synonym query_part = "string \<times> string \<times> string list"

abbreviation dash_free :: "string \<Rightarrow> bool" where
  "dash_free \<equiv> run_free 2 CHR ''-''"

lemma dashes: "''--'' = replicate 2 CHR ''-''"
  by (simp add: numeral_2_eq_2)

definition plain_sql :: "string \<Rightarrow> bool" where
  "plain_sql s \<longleftrightarrow> dash_free s \<and> rx_FindStringSubmatch s = None"

definition part_ok :: "query_part \<Rightarrow> bool" where
  "part_ok q = (case q of (name, stmt, comments) \<Rightarrow>
     name \<noteq> [] \<and> list_all name_char name \<and> plain_sql stmt \<and> list_all plain_sql comments)"

definition heading :: "string \<Rightarrow> string \<Rightarrow> string" where
  "heading name stmt = ''sql:'' @ name @ [newline] @ stmt"

definition pieces :: "query_part list \<Rightarrow> string list" where
  "pieces qs = concat (map (\<lambda>(name, stmt, comments). heading name stmt # comments) qs)"

definition query_file :: "query_part list \<Rightarrow> string" where
  "query_file qs = concat (map (\<lambda>p. ''--'' @ p) (pieces qs))"

lemma name_char_facts: "\<not> name_char newline" "\<not> name_char CHR ''-''"
  by (simp_all add: name_char_def newline_def)

lemma heading_match:
  assumes "name \<noteq> []" "list_all name_char name"
  shows "rx_match (heading name stmt) = Some (name, newline # stmt)"
proof -
  have "takeWhile name_char (name @ newline # stmt) = name" "dropWhile name_char (name @ newline # stmt) = newline # stmt"
    using assms(2) name_char_facts(1) by (simp_all add: list_all_iff takeWhile_append2 dropWhile_append2)
  with assms(1) show ?thesis by (simp add: rx_match_def heading_def Let_def HasPrefix_iff)
qed

lemma replace_none: "rx_FindStringSubmatch s = None \<Longrightarrow> rx_ReplaceAllString s = s"
  by (induction s) (auto split: option.splits prod.splits)

lemma TrimSpace_newline: "TrimSpace (newline # s) = TrimSpace s"
proof -
  have "char_of (9 :: nat) = CHR 0x09" "char_of (10 :: nat) = newline" "newline \<noteq> CHR 0x09" by code_simp+
  then have "find (\<lambda>p. p \<noteq> [] \<and> HasPrefix (newline # s) p) space_seqs = Some [newline]" by (simp add: space_seqs_def)
  then have "strip_seqs space_seqs (newline # s) = strip_seqs space_seqs s" by (subst strip_seqs.simps) simp
  then show ?thesis by (simp add: TrimSpace_def)
qed

lemma heading_hydrates:
  assumes "name \<noteq> []" "list_all name_char name" "plain_sql stmt"
  shows "rx_FindStringSubmatch (heading name stmt) = Some name"
    and "TrimSpace (rx_ReplaceAllString (heading name stmt)) = TrimSpace stmt"
    and "dash_free (heading name stmt)"
proof -
  obtain c cs where h: "heading name stmt = c # cs" by (simp add: heading_def)
  note m = heading_match [OF assms(1,2), of stmt, unfolded h]
  from h m show "rx_FindStringSubmatch (heading name stmt) = Some name" by simp
  have "rx_match (newline # stmt) = None" by (simp add: rx_match_def HasPrefix_iff newline_def)
  with h m replace_none [of stmt] assms(3) show "TrimSpace (rx_ReplaceAllString (heading name stmt)) = TrimSpace stmt"
    by (simp add: plain_sql_def TrimSpace_newline)
  have "CHR ''-'' \<notin> set (''sql:'' @ name @ [newline])"
    using assms(2) name_char_facts(2) by (auto simp: list_all_iff newline_def)
  moreover have "strings_Split (replicate 2 CHR ''-'') stmt = [stmt]" "stmt = [] \<or> last stmt \<noteq> CHR ''-''"
    using assms(3) by (simp_all add: plain_sql_def run_free_def)
  ultimately show "dash_free (heading name stmt)"
    using strings_Split_plain [of "CHR ''-''" "''sql:'' @ name @ [newline]" 2 stmt]
    unfolding run_free_def heading_def by (auto simp only: append_assoc last_append split: if_splits) (simp_all add: newline_def)
qed

lemma hydrate_comments: "list_all plain_sql cs \<Longrightarrow> hydrate_loop (cs @ rest) store = hydrate_loop rest store"
  by (induction cs) (auto simp: plain_sql_def)

lemma hydrate_pieces:
  "list_all part_ok qs \<Longrightarrow> map_of (hydrate_loop (pieces qs) store) n =
     (case map_of (rev (map (\<lambda>(name, stmt, comments). (name, TrimSpace stmt)) qs)) n of
        Some stmt \<Rightarrow> Some stmt | None \<Rightarrow> map_of store n)"
proof (induction qs arbitrary: store)
  case (Cons q qs)
  obtain name stmt cs where q: "q = (name, stmt, cs)" by (cases q)
  with Cons.prems have ok: "name \<noteq> []" "list_all name_char name" "plain_sql stmt" "list_all plain_sql cs"
    by (auto simp: part_ok_def)
  have "hydrate_loop (pieces (q # qs)) store = hydrate_loop (pieces qs) (AList.update name (TrimSpace stmt) store)"
    using heading_hydrates [OF ok(1-3)] hydrate_comments [OF ok(4)] by (simp add: pieces_def q)
  with Cons show ?case by (auto simp: q update_conv map_add_def split: option.splits)
qed (simp add: pieces_def)

lemma hydrated_parts:
  assumes "find (\<lambda>record. qc_Table record = tableName) cfg = Some config" "qc_QueryFilePaths config = path # others"
    and "ReadFile path = Inr (query_file qs)" "list_all part_ok qs"
  shows "\<exists>store. HydrateQueryStore ReadFile cfg tableName = (store, None) \<and>
    (\<forall>n. GetQuery store n = map_of (rev (map (\<lambda>(name, stmt, comments). (name, TrimSpace stmt)) qs)) n)"
proof -
  have "list_all dash_free (pieces qs)"
    using assms(4) heading_hydrates(3) by (fastforce simp: pieces_def list_all_iff part_ok_def plain_sql_def)
  then have "strings_Split ''--'' (query_file qs) = [] # pieces qs"
    unfolding query_file_def dashes by (intro strings_Split_pieces) simp_all
  with assms hydrate_pieces [OF assms(4), of "[]"] show ?thesis
    by (auto simp: HydrateQueryStore_def GetQuery_def split: option.splits)
qed

text \<open>
  C25.  Every statement of a query file reaches the store under its name: hydrating a table whose file is
  made of parts \<open>--sql:<name>\<close>, a statement and comments gives, for every name, the statement of its
  last part without the white space around it, and nothing for other names.  A comment ends its
  statement: what follows \<open>--\<close> up to the next heading is dropped, not only its line.
\<close>

theorem HydrateQueryStore_roundtrip:
  assumes "find (\<lambda>record. qc_Table record = tableName) cfg = Some config" "qc_QueryFilePaths config = path # others"
    and "ReadFile path = Inr (query_file qs)" "list_all part_ok qs"
  shows "\<exists>store. HydrateQueryStore ReadFile cfg tableName = (store, None) \<and>
    (\<forall>n. GetQuery store n = map_of (rev (map (\<lambda>(name, stmt, comments). (name, TrimSpace stmt)) qs)) n)"
  using assms by (rule hydrated_parts)

subsection \<open>The statements of the repositories\<close>

text \<open>The stores that the server loads before it starts (\<open>cmd/server/main.go\<close>); a missing one ends the
  process.\<close>

definition load_stores :: "(string \<Rightarrow> goerr + string) \<Rightarrow> QueryConfig list \<Rightarrow> (QueryMapper \<times> QueryMapper \<times> QueryMapper) option" where
  "load_stores ReadFile qs =
     (case HydrateQueryStore ReadFile qs ''tokens'' of
        (_, Some err) \<Rightarrow> None
      | (tokensQs, None) \<Rightarrow>
          (case HydrateQueryStore ReadFile qs ''file_metadatas'' of
             (_, Some err) \<Rightarrow> None
           | (metadataQueryStore, None) \<Rightarrow>
               (case HydrateQueryStore ReadFile qs ''user_files'' of
                  (_, Some err) \<Rightarrow> None
                | (chunkQs, None) \<Rightarrow> Some (tokensQs, metadataQueryStore, chunkQs))))"

text \<open>The tables of \<open>config/querystore.yaml\<close> and the names in the three query files.\<close>

definition query_tables :: "QueryConfig list" where
  "query_tables =
     [\<lparr>qc_Table = ''users'', qc_QueryFilePaths = [''./core/users/queries.sql'']\<rparr>,
      \<lparr>qc_Table = ''file_metadatas'', qc_QueryFilePaths = [''./core/files/queries.metadata.sql'']\<rparr>,
      \<lparr>qc_Table = ''user_files'', qc_QueryFilePaths = [''./core/files/user_files.queries.sql'']\<rparr>,
      \<lparr>qc_Table = ''tokens'', qc_QueryFilePaths = [''./core/tokens/queries.sql'']\<rparr>]"

definition metadata_names :: "string list" where
  "metadata_names = [''CreateFileMetadata'', ''GetMetadataForUser'', ''GetFilesForUser'', ''UpdateCurrentFlag'',
     ''FindByHash'', ''FindBy'', ''SelectFilesForUser'']"

definition chunk_names :: "string list" where
  "chunk_names = [''CreateFileChunk'', ''GetChunkForFile'', ''GetFileChunks'', ''GetFilesChunks'']"

definition token_names :: "string list" where
  "token_names = [''CreateToken'', ''GetAccessToken'', ''GetStreamToken'']"

definition query_files :: "(string \<Rightarrow> goerr + string) \<Rightarrow> query_part list \<Rightarrow> query_part list \<Rightarrow> query_part list \<Rightarrow> bool" where
  "query_files ReadFile mq cq tq \<longleftrightarrow>
     ReadFile ''./core/files/queries.metadata.sql'' = Inr (query_file mq) \<and>
     ReadFile ''./core/files/user_files.queries.sql'' = Inr (query_file cq) \<and>
     ReadFile ''./core/tokens/queries.sql'' = Inr (query_file tq) \<and>
     map fst mq = metadata_names \<and> map fst cq = chunk_names \<and> map fst tq = token_names \<and>
     list_all part_ok (mq @ cq @ tq)"

lemma rev_parts_dom:
  "n \<in> fst ` set qs \<Longrightarrow> map_of (rev (map (\<lambda>(name, stmt, comments). (name, TrimSpace stmt)) qs)) n \<noteq> None"
  unfolding map_of_eq_None_iff by (simp add: image_image case_prod_beta)

lemma hydrate_names:
  assumes "find (\<lambda>record. qc_Table record = tableName) cfg = Some \<lparr>qc_Table = tableName, qc_QueryFilePaths = [path]\<rparr>"
    and "ReadFile path = Inr (query_file qs)" "list_all part_ok qs"
  shows "\<exists>store. HydrateQueryStore ReadFile cfg tableName = (store, None) \<and> (\<forall>n \<in> fst ` set qs. GetQuery store n \<noteq> None)"
  using hydrated_parts [where ReadFile = ReadFile, OF assms(1) _ assms(2,3), of "[]"] rev_parts_dom [where qs = qs] by auto

lemma stores_loaded:
  assumes "query_files ReadFile mq cq tq"
  shows "\<exists>ts ms cs. load_stores ReadFile query_tables = Some (ts, ms, cs) \<and>
    stmts_loaded (E\<lparr>e_metaQ := GetQuery ms, e_chunkQ := GetQuery cs, e_tokenQ := GetQuery ts\<rparr>)"
proof -
  note files = assms [unfolded query_files_def]
  have mq: "\<exists>ms. HydrateQueryStore ReadFile query_tables ''file_metadatas'' = (ms, None) \<and> (\<forall>n \<in> fst ` set mq. GetQuery ms n \<noteq> None)"
    by (rule hydrate_names [where path = "''./core/files/queries.metadata.sql''"]) (use files in \<open>simp_all add: query_tables_def\<close>)
  have cq: "\<exists>cs. HydrateQueryStore ReadFile query_tables ''user_files'' = (cs, None) \<and> (\<forall>n \<in> fst ` set cq. GetQuery cs n \<noteq> None)"
    by (rule hydrate_names [where path = "''./core/files/user_files.queries.sql''"]) (use files in \<open>simp_all add: query_tables_def\<close>)
  have tq: "\<exists>ts. HydrateQueryStore ReadFile query_tables ''tokens'' = (ts, None) \<and> (\<forall>n \<in> fst ` set tq. GetQuery ts n \<noteq> None)"
    by (rule hydrate_names [where path = "''./core/tokens/queries.sql''"]) (use files in \<open>simp_all add: query_tables_def\<close>)
  have names: "fst ` set mq = set metadata_names" "fst ` set cq = set chunk_names" "fst ` set tq = set token_names"
    using assms unfolding query_files_def by (metis list.set_map)+
  from mq cq tq obtain ms cs ts where h:
    "HydrateQueryStore ReadFile query_tables ''file_metadatas'' = (ms, None)"
    "HydrateQueryStore ReadFile query_tables ''user_files'' = (cs, None)"
    "HydrateQueryStore ReadFile query_tables ''tokens'' = (ts, None)"
    and g: "\<forall>n \<in> set metadata_names. GetQuery ms n \<noteq> None" "\<forall>n \<in> set chunk_names. GetQuery cs n \<noteq> None"
      "\<forall>n \<in> set token_names. GetQuery ts n \<noteq> None" unfolding names by blast
  have "load_stores ReadFile query_tables = Some (ts, ms, cs)" by (simp add: load_stores_def h)
  moreover have "stmts_loaded (E\<lparr>e_metaQ := GetQuery ms, e_chunkQ := GetQuery cs, e_tokenQ := GetQuery ts\<rparr>)"
    using g by (simp add: stmts_loaded_def metadata_names_def chunk_names_def token_names_def CreateFileMetadataStmt_def
        GetFilesForUserStmt_def UpdateCurrentFlagStmt_def FindByHashStmt_def SelectFilesForUserStmt_def CreateFileChunkStmt_def
        CreateTokenStmt_def)
  ultimately show ?thesis by blast
qed

text \<open>
  The server finds all its statements: with the query files as they are laid out, under the tables
  of the configuration, the three stores load, and each statement that a repository asks for by name is
  in the store it is asked from, which is what the properties of the repositories assume.
\<close>

theorem load_stores_loaded:
  assumes "query_files ReadFile mq cq tq"
  shows "\<exists>ts ms cs. load_stores ReadFile query_tables = Some (ts, ms, cs) \<and>
    stmts_loaded (E\<lparr>e_metaQ := GetQuery ms, e_chunkQ := GetQuery cs, e_tokenQ := GetQuery ts\<rparr>)"
  using assms by (rule stores_loaded)

subsection \<open>Instances\<close>

definition part_of :: "string \<Rightarrow> query_part" where
  "part_of name = (name, ''SELECT 1;'', [])"

definition sample_files :: "string \<Rightarrow> goerr + string" where
  "sample_files path =
     (if path = ''./core/files/queries.metadata.sql'' then Inr (query_file (map part_of metadata_names))
      else if path = ''./core/files/user_files.queries.sql'' then Inr (query_file (map part_of chunk_names))
      else if path = ''./core/tokens/queries.sql'' then Inr (query_file (map part_of token_names))
      else Inl ''no such file'')"

lemma sample_query_files:
  "query_files sample_files (map part_of metadata_names) (map part_of chunk_names) (map part_of token_names)"
proof -
  have "list_all part_ok (map part_of metadata_names @ map part_of chunk_names @ map part_of token_names)" by code_simp
  then show ?thesis by (simp add: query_files_def sample_files_def o_def part_of_def)
qed

theorem load_stores_loaded_witness:
  "\<exists>ts ms cs. load_stores sample_files query_tables = Some (ts, ms, cs) \<and>
    stmts_loaded (sample_env\<lparr>e_metaQ := GetQuery ms, e_chunkQ := GetQuery cs, e_tokenQ := GetQuery ts\<rparr>)"
  by (rule load_stores_loaded [OF sample_query_files])

definition commented :: query_part where
  "commented = (''Q'', ''SELECT 1'', ['' one'' @ [newline] @ ''FROM t;''])"

theorem HydrateQueryStore_roundtrip_witness:
  "\<exists>store. HydrateQueryStore (\<lambda>path. Inr (query_file [commented])) [\<lparr>qc_Table = ''t'', qc_QueryFilePaths = [''f'']\<rparr>] ''t'' = (store, None) \<and>
     GetQuery store ''Q'' = Some (TrimSpace ''SELECT 1'')"
proof -
  have "list_all part_ok [commented]" by code_simp
  from HydrateQueryStore_roundtrip [OF _ _ _ this, of "''t''" "[\<lparr>qc_Table = ''t'', qc_QueryFilePaths = [''f'']\<rparr>]" _ "''f''" "[]"
      "\<lambda>path. Inr (query_file [commented])"] show ?thesis by (auto simp: commented_def)
qed

end
