(* ===== verification/Migrations.thy ===== *)
theory Migrations
  imports Api
begin

text \<open>
  The schema of the database (\<open>core/database/connect.go\<close>) and the command that applies it
  (\<open>cmd/cli/main.go\<close>).  What SQLite does with a statement is a parameter: a statement fails or gives
  the next contents, and a transaction that is not committed leaves the contents as they were.
\<close>

subsection \<open>The connection\<close>

record 'd sqlite_driver =
  dr_Open :: "string \<Rightarrow> goerr + 'd"
  dr_Ping :: "'d \<Rightarrow> goerr option"
  dr_Begin :: "'d \<Rightarrow> goerr option"
  dr_Exec :: "string \<Rightarrow> 'd \<Rightarrow> goerr + 'd"
  dr_Commit :: "'d \<Rightarrow> goerr option"

text \<open>The handle; an open connection is the contents of the database behind it.\<close>

record 'd Sqlite =
  sq_dbName :: string
  sq_dsn :: string
  sq_conn :: "'d option"

definition ConnectSqlite :: "string \<Rightarrow> 'd Sqlite" where
  "ConnectSqlite dbName = \<lparr>sq_dbName = dbName, sq_dsn = ''sqlite3'', sq_conn = None\<rparr>"

text \<open>\<open>log.Fatal\<close> ends the process: \<^const>\<open>None\<close>.\<close>

definition Sqlite_Connect :: "'d sqlite_driver \<Rightarrow> 'd Sqlite \<Rightarrow> 'd Sqlite option" where
  "Sqlite_Connect D sqlite =
     (case dr_Open D (sq_dbName sqlite) of
        Inl err \<Rightarrow> None
      | Inr db \<Rightarrow>
          (let sqlite' = sqlite\<lparr>sq_conn := Some db\<rparr>
           in case dr_Ping D db of Some err \<Rightarrow> None | None \<Rightarrow> Some sqlite'))"

definition Sqlite_GetConn :: "'d Sqlite \<Rightarrow> 'd res" where
  "Sqlite_GetConn sqlite = (case sq_conn sqlite of None \<Rightarrow> Err ''uninitialized'' | Some db \<Rightarrow> OK db)"

subsection \<open>Applying a schema file\<close>

definition MigrationDir :: string where "MigrationDir = ''./migrations/sqlite''"

text \<open>The loop over the statements, on the contents the transaction sees.\<close>

fun setup_loop :: "'d sqlite_driver \<Rightarrow> string list \<Rightarrow> 'd \<Rightarrow> goerr + 'd" where
  "setup_loop D [] db = Inr db"
| "setup_loop D (stmt # stmts) db =
     (case dr_Exec D (TrimSpace stmt) db of
        Inl err \<Rightarrow> Inl err
      | Inr db' \<Rightarrow> setup_loop D stmts db')"

definition Sqlite_Setup :: "'d sqlite_driver \<Rightarrow> (string \<Rightarrow> goerr + string) \<Rightarrow> bool \<Rightarrow> 'd Sqlite \<Rightarrow> unit res \<times> 'd Sqlite" where
  "Sqlite_Setup D ReadFile up sqlite =
     (let schemaFile = (if up then Sprintf_s ''%s/schema.up.sql'' [MigrationDir] else Sprintf_s ''%s/schema.down.sql'' [MigrationDir])
      in case ReadFile schemaFile of
           Inl err \<Rightarrow> (Err err, sqlite)
         | Inr data \<Rightarrow>
             (case sq_conn sqlite of
                None \<Rightarrow> (Panic NilDeref, sqlite)
              | Some db \<Rightarrow>
                  (case dr_Begin D db of
                     Some err \<Rightarrow> (Err err, sqlite)
                   | None \<Rightarrow>
                       (case setup_loop D (strings_Split ''---'' data) db of
                          Inl err \<Rightarrow> (Err err, sqlite)
                        | Inr db' \<Rightarrow>
                            (case dr_Commit D db' of
                               Some err \<Rightarrow> (Err err, sqlite)
                             | None \<Rightarrow> (OK (), sqlite\<lparr>sq_conn := Some db'\<rparr>))))))"

subsection \<open>The command\<close>

text \<open>What is left of the process and the contents of the database file: the command returns an error
  or nothing, or the process ends (\<^const>\<open>None\<close>).\<close>

definition MigrateCmd_Run :: "'d sqlite_driver \<Rightarrow> (string \<Rightarrow> goerr + string) \<Rightarrow> (string \<Rightarrow> string option) \<Rightarrow>
    string \<Rightarrow> string \<Rightarrow> (unit res \<times> 'd option) option" where
  "MigrateCmd_Run D ReadFile Load envDir dir =
     (if dir \<noteq> ''up'' \<and> dir \<noteq> ''down'' then Some (Err ''invalid command direction'', None)
      else case Load envDir of
        None \<Rightarrow> None
      | Some dbName \<Rightarrow>
          (case Sqlite_Connect D (ConnectSqlite dbName) of
             None \<Rightarrow> None
           | Some conn \<Rightarrow> (case Sqlite_Setup D ReadFile (dir = ''up'') conn of (r, conn') \<Rightarrow> Some (r, sq_conn conn'))))"

subsection \<open>All or nothing\<close>

text \<open>The statements run one after the other, each on the contents the one before it left.\<close>

definition sql_trace :: "'d sqlite_driver \<Rightarrow> string list \<Rightarrow> 'd \<Rightarrow> 'd list \<Rightarrow> bool" where
  "sql_trace D stmts db dbs \<longleftrightarrow> length dbs = Suc (length stmts) \<and> hd dbs = db \<and>
     (\<forall>i < length stmts. dr_Exec D (TrimSpace (stmts ! i)) (dbs ! i) = Inr (dbs ! Suc i))"

lemma sql_trace_Nil: "sql_trace D [] db dbs \<longleftrightarrow> dbs = [db]"
  by (auto simp: sql_trace_def length_Suc_conv)

lemma sql_trace_Cons:
  "sql_trace D (stmt # stmts) db dbs \<longleftrightarrow>
     (\<exists>db1 rest. dbs = db # rest \<and> dr_Exec D (TrimSpace stmt) db = Inr db1 \<and> sql_trace D stmts db1 rest)"
proof
  assume t: "sql_trace D (stmt # stmts) db dbs"
  then obtain db1 rest where d: "dbs = db # db1 # rest" by (auto simp: sql_trace_def length_Suc_conv)
  from t have step: "\<forall>i < Suc (length stmts). dr_Exec D (TrimSpace ((stmt # stmts) ! i)) (dbs ! i) = Inr (dbs ! Suc i)"
    by (simp add: sql_trace_def)
  from step [rule_format, of 0] d have "dr_Exec D (TrimSpace stmt) db = Inr db1" by simp
  moreover have "sql_trace D stmts db1 (db1 # rest)"
    using t d step [rule_format, of "Suc _"] by (auto simp: sql_trace_def)
  ultimately show "\<exists>db1 rest. dbs = db # rest \<and> dr_Exec D (TrimSpace stmt) db = Inr db1 \<and> sql_trace D stmts db1 rest"
    using d by blast
next
  assume "\<exists>db1 rest. dbs = db # rest \<and> dr_Exec D (TrimSpace stmt) db = Inr db1 \<and> sql_trace D stmts db1 rest"
  then show "sql_trace D (stmt # stmts) db dbs"
    by (auto simp: sql_trace_def nth_Cons length_Suc_conv split: nat.splits)
qed

lemma setup_loop_Inr: "setup_loop D stmts db = Inr db' \<longleftrightarrow> (\<exists>dbs. sql_trace D stmts db dbs \<and> last dbs = db')"
proof (induction stmts arbitrary: db)
  case (Cons stmt stmts)
  have "last (db # rest) = last rest" if "sql_trace D stmts db1 rest" for db1 rest
    using that by (auto simp: sql_trace_def)
  with Cons show ?case by (cases "dr_Exec D (TrimSpace stmt) db") (auto simp: sql_trace_Cons)
qed (simp add: sql_trace_Nil)

definition committed_run :: "'d sqlite_driver \<Rightarrow> string list \<Rightarrow> 'd \<Rightarrow> 'd \<Rightarrow> bool" where
  "committed_run D stmts db db' \<longleftrightarrow>
     dr_Begin D db = None \<and> (\<exists>dbs. sql_trace D stmts db dbs \<and> last dbs = db') \<and> dr_Commit D db' = None"

text \<open>
  C22.  A migration is applied whole, in the order of its file, or not at all: for a schema file that is
  statements between \<open>---\<close>, \<open>Setup\<close> succeeds exactly when there is a run of the statements, each on the
  contents the one before it left, that the driver commits, and then its last contents are those of
  the database; in every other case \<open>Setup\<close> returns an error and the database is as before.
\<close>

theorem Setup_all_or_nothing:
  assumes "ReadFile (MigrationDir @ (if up then ''/schema.up.sql'' else ''/schema.down.sql'')) = Inr (join_with ''---'' stmts)"
    and "stmts \<noteq> []" "list_all (run_free 3 CHR ''-'') stmts" "sq_conn sqlite = Some db"
  shows "(\<forall>db'. committed_run D stmts db db' \<longrightarrow> Sqlite_Setup D ReadFile up sqlite = (OK (), sqlite\<lparr>sq_conn := Some db'\<rparr>)) \<and>
    ((\<nexists>db'. committed_run D stmts db db') \<longrightarrow> (\<exists>err. Sqlite_Setup D ReadFile up sqlite = (Err err, sqlite)))"
proof -
  have "''---'' = replicate 3 CHR ''-''" by (simp add: numeral_3_eq_3)
  with strings_Split_join [OF _ assms(3,2)] have split: "strings_Split ''---'' (join_with ''---'' stmts) = stmts" by simp
  have schemaFile: "(if up then Sprintf_s ''%s/schema.up.sql'' [MigrationDir] else Sprintf_s ''%s/schema.down.sql'' [MigrationDir]) =
      MigrationDir @ (if up then ''/schema.up.sql'' else ''/schema.down.sql'')" by simp
  show ?thesis
    unfolding Sqlite_Setup_def Let_def schemaFile committed_run_def setup_loop_Inr [symmetric]
    by (auto simp: assms(1,4) split split: option.splits sum.splits)
qed

subsection \<open>Instances\<close>

text \<open>A driver whose contents are the statements it ran, and one of whose statements fails.\<close>

definition log_driver :: "string list sqlite_driver" where
  "log_driver = \<lparr>dr_Open = (\<lambda>n. Inr []), dr_Ping = (\<lambda>d. None), dr_Begin = (\<lambda>d. None),
     dr_Exec = (\<lambda>s d. if s = ''bad;'' then Inl ''syntax error'' else Inr (d @ [s])), dr_Commit = (\<lambda>d. None)\<rparr>"

definition schema_files :: "string \<Rightarrow> goerr + string" where
  "schema_files path =
     (if path = MigrationDir @ ''/schema.up.sql'' then Inr (join_with ''---'' [''a;'', ''b;''])
      else Inr (join_with ''---'' [''c;'', ''bad;'']))"

theorem Setup_all_or_nothing_witness:
  "Sqlite_Setup log_driver schema_files True (ConnectSqlite ''db''\<lparr>sq_conn := Some []\<rparr>) =
     (OK (), ConnectSqlite ''db''\<lparr>sq_conn := Some [''a;'', ''b;'']\<rparr>) \<and>
   (\<exists>err. Sqlite_Setup log_driver schema_files False (ConnectSqlite ''db''\<lparr>sq_conn := Some []\<rparr>) =
     (Err err, ConnectSqlite ''db''\<lparr>sq_conn := Some []\<rparr>))"
proof -
  let ?s = "ConnectSqlite ''db''\<lparr>sq_conn := Some []\<rparr>"
  have plain: "list_all (run_free 3 CHR ''-'') [''a;'', ''b;'', ''c;'', ''bad;'']" by code_simp
  have trim: "TrimSpace ''a;'' = ''a;''" "TrimSpace ''b;'' = ''b;''" "TrimSpace ''c;'' = ''c;''" "TrimSpace ''bad;'' = ''bad;''"
    by (rule TrimSpace_id, simp add: printable_def)+
  have "committed_run log_driver [''a;'', ''b;''] [] [''a;'', ''b;'']"
    unfolding committed_run_def setup_loop_Inr [symmetric] by (simp add: trim log_driver_def)
  moreover have "\<nexists>db'. committed_run log_driver [''c;'', ''bad;''] [] db'"
    unfolding committed_run_def setup_loop_Inr [symmetric] by (simp add: trim log_driver_def)
  ultimately show ?thesis
    using Setup_all_or_nothing [of schema_files True "[''a;'', ''b;'']" ?s "[]" log_driver]
      Setup_all_or_nothing [of schema_files False "[''c;'', ''bad;'']" ?s "[]" log_driver] plain
    by (simp add: schema_files_def ConnectSqlite_def)
qed

end
