(* ===== verification/Startup.thy ===== *)
theory Startup
  imports Squirtle Migrations Machines
begin

text \<open>
  How the processes come up and go down: the server (\<open>cmd/server/main.go\<close>), the two worker commands
  (\<open>cmd/workers/main.go\<close>, \<open>core/workers\<close>), the configuration (\<open>pkg/config\<close>), the connections
  (\<open>core/database\<close>), and the end of the server on an interrupt.  The packages that read the configuration
  and the YAML list, the SQLite driver and the Redis client are fields of \<open>host\<close>.
\<close>

subsection \<open>The outside\<close>

datatype cfg_value = CfgString string | CfgOther

text \<open>\<open>h_MustGet\<close> gives nothing when the call panics; the clients of Redis are numbered, since a ping may
  fail for one and not for the other.\<close>

record ('c, 'd, 'o) host =
  h_Getenv :: "string \<Rightarrow> string"
  h_ReadFromFile :: "string \<Rightarrow> string \<Rightarrow> goerr + 'c"
  h_MustGet :: "'c \<Rightarrow> string \<Rightarrow> cfg_value option"
  h_driver :: "'d sqlite_driver"
  h_ReadFile :: "string \<Rightarrow> goerr + string"
  h_Unmarshal :: "string \<Rightarrow> goerr + QueryConfig list"
  h_ParseURL :: "string \<Rightarrow> goerr + 'o"
  h_Ping :: "nat \<Rightarrow> 'o \<Rightarrow> goerr option"
  h_Abs :: "string \<Rightarrow> goerr + string"

text \<open>A start ends with the parts of the process, returns an error, ends the process through
  \<open>log.Fatal\<close>, or panics.\<close>

datatype 'a started = Up 'a | Returned goerr | Fatal | Crashed

primrec and_then :: "'a started \<Rightarrow> ('a \<Rightarrow> 'b started) \<Rightarrow> 'b started" where
  "and_then (Up x) f = f x"
| "and_then (Returned e) f = Returned e"
| "and_then Fatal f = Fatal"
| "and_then Crashed f = Crashed"

definition or_fatal :: "goerr + 'a \<Rightarrow> 'a started" where
  "or_fatal x = (case x of Inl e \<Rightarrow> Fatal | Inr v \<Rightarrow> Up v)"

definition or_return :: "goerr + 'a \<Rightarrow> 'a started" where
  "or_return x = (case x of Inl e \<Rightarrow> Returned e | Inr v \<Rightarrow> Up v)"

subsection \<open>Configuration, connections and stores\<close>

record AppConfig =
  ac_ServerID :: string
  ac_Environment :: string
  ac_Dsn :: string
  ac_DbName :: string
  ac_RedisURL :: string

text \<open>\<open>cfgMap.MustGet(key).(string)\<close>: the assertion panics on anything but a string.\<close>

definition must_string :: "('c, 'd, 'o) host \<Rightarrow> 'c \<Rightarrow> string \<Rightarrow> string started" where
  "must_string H cfgMap key = (case h_MustGet H cfgMap key of Some (CfgString s) \<Rightarrow> Up s | _ \<Rightarrow> Crashed)"

definition config_Load :: "('c, 'd, 'o) host \<Rightarrow> string \<Rightarrow> AppConfig started" where
  "config_Load H envFile =
     (let env = (if h_Getenv H ''ENVIRONMENT'' = [] then ''dev'' else h_Getenv H ''ENVIRONMENT'')
      in and_then (or_fatal (h_ReadFromFile H env envFile)) (\<lambda>cfgMap.
         and_then (must_string H cfgMap ''server_id'') (\<lambda>serverID.
         and_then (must_string H cfgMap ''dsn'') (\<lambda>dsn.
         and_then (must_string H cfgMap ''db_name'') (\<lambda>dbName.
         and_then (must_string H cfgMap ''redis_url'') (\<lambda>redisURL.
           Up \<lparr>ac_ServerID = serverID, ac_Environment = env, ac_Dsn = dsn, ac_DbName = dbName, ac_RedisURL = redisURL\<rparr>))))))"

definition NewRedisConnection :: "('c, 'd, 'o) host \<Rightarrow> nat \<Rightarrow> string \<Rightarrow> goerr + 'o" where
  "NewRedisConnection H n redisURL =
     (case h_ParseURL H redisURL of
        Inl err \<Rightarrow> Inl err
      | Inr client \<Rightarrow> (case h_Ping H n client of Some err \<Rightarrow> Inl err | None \<Rightarrow> Inr client))"

text \<open>A connection that failed to open or to answer ended the process; otherwise \<open>Connect\<close> gives the handle
  it has stored.\<close>

definition connect_db :: "('c, 'd, 'o) host \<Rightarrow> AppConfig \<Rightarrow> 'd started" where
  "connect_db H cfg =
     (case Sqlite_Connect (h_driver H) (ConnectSqlite (ac_DbName cfg)) of
        None \<Rightarrow> Fatal
      | Some conn \<Rightarrow> (case sq_conn conn of None \<Rightarrow> Crashed | Some db \<Rightarrow> Up db))"

definition LoadAll :: "('c, 'd, 'o) host \<Rightarrow> string \<Rightarrow> QueryConfig list started" where
  "LoadAll H configFilePath = and_then (or_fatal (h_ReadFile H configFilePath)) (\<lambda>byt. or_fatal (h_Unmarshal H byt))"

definition hydrated :: "('c, 'd, 'o) host \<Rightarrow> QueryConfig list \<Rightarrow> string \<Rightarrow> goerr + QueryMapper" where
  "hydrated H qs tableName =
     (case HydrateQueryStore (h_ReadFile H) qs tableName of (store, Some err) \<Rightarrow> Inl err | (store, None) \<Rightarrow> Inr store)"

definition query_config :: string where "query_config = ''./config/querystore.yaml''"

record 'o RedisQ =
  rq_conn :: 'o
  rq_topicName :: string
  rq_timeout :: int

definition NewRedisQ :: "'o \<Rightarrow> string \<Rightarrow> int \<Rightarrow> 'o RedisQ" where
  "NewRedisQ conn queueName timeout = \<lparr>rq_conn = conn, rq_topicName = queueName, rq_timeout = timeout\<rparr>"

definition Second :: int where "Second = 1000000000"

subsection \<open>Repositories and services\<close>

text \<open>Each repository holds the handle of the database and the store of its statements.\<close>

record 'd MetadataRepository =
  mre_conn :: 'd
  mre_querier :: QueryMapper

record 'd MetadataTokenRepository =
  mto_conn :: 'd
  mto_metaQuerier :: QueryMapper
  mto_tokenQuerier :: QueryMapper

record 'd TokensRepository =
  tre_conn :: 'd
  tre_querier :: QueryMapper

record 'd UserFileRepository =
  ufr_conn :: 'd
  ufr_querier :: QueryMapper

definition NewMetadataRepository :: "'d \<Rightarrow> QueryMapper \<Rightarrow> 'd MetadataRepository" where
  "NewMetadataRepository conn querier = \<lparr>mre_conn = conn, mre_querier = querier\<rparr>"

definition NewMetadataTokenRepository :: "'d \<Rightarrow> QueryMapper \<Rightarrow> QueryMapper \<Rightarrow> 'd MetadataTokenRepository" where
  "NewMetadataTokenRepository conn metaQuerier tokenQuerier =
     \<lparr>mto_conn = conn, mto_metaQuerier = metaQuerier, mto_tokenQuerier = tokenQuerier\<rparr>"

definition NewTokensRepository :: "'d \<Rightarrow> QueryMapper \<Rightarrow> 'd TokensRepository" where
  "NewTokensRepository conn querier = \<lparr>tre_conn = conn, tre_querier = querier\<rparr>"

definition NewUserFileRespository :: "'d \<Rightarrow> QueryMapper \<Rightarrow> 'd UserFileRepository" where
  "NewUserFileRespository conn querier = \<lparr>ufr_conn = conn, ufr_querier = querier\<rparr>"

record ('d, 'o) MetadataService =
  mse_repo :: "'d MetadataRepository"
  mse_metaTokensRepo :: "'d MetadataTokenRepository"
  mse_queue :: "'o RedisQ"

definition NewMetadataService :: "'d MetadataRepository \<Rightarrow> 'd MetadataTokenRepository \<Rightarrow> 'o RedisQ \<Rightarrow> ('d, 'o) MetadataService" where
  "NewMetadataService repo metaTokensRepo queue = \<lparr>mse_repo = repo, mse_metaTokensRepo = metaTokensRepo, mse_queue = queue\<rparr>"

record 'd FileChunkService =
  fcs_repo :: "'d UserFileRepository"
  fcs_storage :: string

definition NewFileChunkService :: "'d UserFileRepository \<Rightarrow> string \<Rightarrow> 'd FileChunkService" where
  "NewFileChunkService repo storage = \<lparr>fcs_repo = repo, fcs_storage = storage\<rparr>"

record ('d, 'o) MetadataExecutor =
  mex_repo :: "'d MetadataRepository"
  mex_crepo :: "'d UserFileRepository"
  mex_notifier :: "'o RedisQ"

definition NewMetadataExecutor :: "'d MetadataRepository \<Rightarrow> 'd UserFileRepository \<Rightarrow> 'o RedisQ \<Rightarrow> ('d, 'o) MetadataExecutor" where
  "NewMetadataExecutor repo crepo notifier = \<lparr>mex_repo = repo, mex_crepo = crepo, mex_notifier = notifier\<rparr>"

subsection \<open>The server\<close>

definition SetupFileEventProducer :: "('c, 'd, 'o) host \<Rightarrow> AppConfig \<Rightarrow> goerr + 'o RedisQ" where
  "SetupFileEventProducer H cfg =
     (case NewRedisConnection H 1 (ac_RedisURL cfg) of
        Inl err \<Rightarrow> Inl err
      | Inr redisconn \<Rightarrow> Inr (NewRedisQ redisconn MetadataUpdateClientsNotifierQueue (1 * Second)))"

text \<open>\<open>NewSSEHandler\<close> starts the broker and the synchroniser over this queue; it panics without one.\<close>

definition NewSSEHandler :: "('c, 'd, 'o) host \<Rightarrow> AppConfig \<Rightarrow> 'o RedisQ started" where
  "NewSSEHandler H cfg = (case SetupFileEventProducer H cfg of Inl err \<Rightarrow> Crashed | Inr metadataProducer \<Rightarrow> Up metadataProducer)"

definition NewLocalFS :: "('c, 'd, 'o) host \<Rightarrow> string \<Rightarrow> goerr + string" where
  "NewLocalFS H dirPath = h_Abs H dirPath"

record ('d, 'o) server_parts =
  sp_tokensRepo :: "'d TokensRepository"
  sp_filesvc :: "('d, 'o) MetadataService"
  sp_chunkSvc :: "'d FileChunkService"
  sp_downloadSvc :: 'o
  sp_sseHandler :: "'o RedisQ"
  sp_Addr :: string

definition server_main :: "('c, 'd, 'o) host \<Rightarrow> string \<Rightarrow> ('d, 'o) server_parts started" where
  "server_main H port =
     and_then (config_Load H ''./config/'') (\<lambda>cfg.
     and_then (connect_db H cfg) (\<lambda>dbconn.
     and_then (LoadAll H query_config) (\<lambda>qs.
     and_then (or_fatal (hydrated H qs ''tokens'')) (\<lambda>tokensQs.
     and_then (or_fatal (hydrated H qs ''file_metadatas'')) (\<lambda>metadataQueryStore.
     and_then (or_fatal (NewRedisConnection H 0 (ac_RedisURL cfg))) (\<lambda>redisConn.
     and_then (or_fatal (hydrated H qs ''user_files'')) (\<lambda>chunkQs.
     and_then (or_fatal (NewLocalFS H ''./tmp/arbokdata'')) (\<lambda>localFs.
     and_then (NewSSEHandler H cfg) (\<lambda>sseHandler.
       Up \<lparr>sp_tokensRepo = NewTokensRepository dbconn tokensQs,
         sp_filesvc = NewMetadataService (NewMetadataRepository dbconn metadataQueryStore)
           (NewMetadataTokenRepository dbconn metadataQueryStore tokensQs) (NewRedisQ redisConn MetadataFileUpdateQueue (20 * Second)),
         sp_chunkSvc = NewFileChunkService (NewUserFileRespository dbconn chunkQs) localFs,
         sp_downloadSvc = redisConn, sp_sseHandler = sseHandler, sp_Addr = Sprintf_s '':%s'' [port]\<rparr>)))))))))"

subsection \<open>The workers\<close>

text \<open>What the supervisor runs: the executor for its pool and the queue its producer reads.\<close>

record ('d, 'o) worker_parts =
  wk_executor :: "('d, 'o) MetadataExecutor"
  wk_producer :: "'o RedisQ"

text \<open>\<open>core/workers/metadata.reconciler.go\<close>, up to the call of \<open>supervisors.MetadataSupervisor\<close>, which makes the
  executor and runs for ever.\<close>

definition MetdataSupervisor :: "('c, 'd, 'o) host \<Rightarrow> AppConfig \<Rightarrow> ('d, 'o) worker_parts started" where
  "MetdataSupervisor H cfg =
     and_then (connect_db H cfg) (\<lambda>dbconn.
     and_then (or_return (NewRedisConnection H 0 (ac_RedisURL cfg))) (\<lambda>redisconn.
     and_then (LoadAll H query_config) (\<lambda>qs.
     and_then (or_return (hydrated H qs ''file_metadatas'')) (\<lambda>metadataQueryStore.
     and_then (or_fatal (hydrated H qs ''user_files'')) (\<lambda>chunkQueryStore.
       Up \<lparr>wk_executor = NewMetadataExecutor (NewMetadataRepository dbconn metadataQueryStore)
             (NewUserFileRespository dbconn chunkQueryStore) (NewRedisQ redisconn MetadataUpdateClientsNotifierQueue (1 * Second)),
         wk_producer = NewRedisQ redisconn MetadataFileUpdateQueue (1 * Second)\<rparr>)))))"

text \<open>What the manual reconciler sets up before it looks at the tables.\<close>

definition reconciler_setup :: "('c, 'd, 'o) host \<Rightarrow> AppConfig \<Rightarrow> ('d MetadataRepository \<times> 'd UserFileRepository) started" where
  "reconciler_setup H cfg =
     and_then (connect_db H cfg) (\<lambda>dbconn.
     and_then (LoadAll H query_config) (\<lambda>qs.
     and_then (or_return (hydrated H qs ''file_metadatas'')) (\<lambda>metadataQueryStore.
     and_then (or_fatal (hydrated H qs ''user_files'')) (\<lambda>chunkQueryStore.
       Up (NewMetadataRepository dbconn metadataQueryStore, NewUserFileRespository dbconn chunkQueryStore)))))"

text \<open>The name given on the command line is only logged.\<close>

definition SuperviseRunner_Run :: "('c, 'd, 'o) host \<Rightarrow> string \<Rightarrow> string \<Rightarrow> ('d, 'o) worker_parts started" where
  "SuperviseRunner_Run H envDir supervisor = and_then (config_Load H envDir) (MetdataSupervisor H)"

definition ReconcileRunner_Run :: "('c, 'd, 'o) host \<Rightarrow> string \<Rightarrow> string \<Rightarrow> ('d MetadataRepository \<times> 'd UserFileRepository) started" where
  "ReconcileRunner_Run H envDir supervisor = and_then (config_Load H envDir) (reconciler_setup H)"

text \<open>\<open>main\<close> of the workers: an error that the command returns ends the process as well.\<close>

definition command_main :: "'a started \<Rightarrow> 'a started" where
  "command_main r = (case r of Returned err \<Rightarrow> Fatal | _ \<Rightarrow> r)"

subsection \<open>The processes meet\<close>

lemma and_then_Up: "and_then x f = Up y \<longleftrightarrow> (\<exists>v. x = Up v \<and> f v = Up y)"
  by (cases x) auto

lemma or_fatal_Up: "or_fatal x = Up v \<longleftrightarrow> x = Inr v"
  by (auto simp: or_fatal_def split: sum.splits)

lemma or_return_Up: "or_return x = Up v \<longleftrightarrow> x = Inr v"
  by (auto simp: or_return_def split: sum.splits)

lemma hydrated_Inr: "hydrated H qs t = Inr store \<longleftrightarrow> HydrateQueryStore (h_ReadFile H) qs t = (store, None)"
  by (auto simp: hydrated_def split: prod.splits option.splits)

lemma connect_db_Up: "connect_db H cfg = Up db \<longleftrightarrow> dr_Open (h_driver H) (ac_DbName cfg) = Inr db \<and> dr_Ping (h_driver H) db = None"
  by (auto simp: connect_db_def Sqlite_Connect_def ConnectSqlite_def Let_def split: sum.splits option.splits)

lemma NewRedisConnection_Inr:
  "NewRedisConnection H n url = Inr client \<longleftrightarrow> h_ParseURL H url = Inr client \<and> h_Ping H n client = None"
  by (auto simp: NewRedisConnection_def split: sum.splits option.splits)

lemma NewSSEHandler_Up: "NewSSEHandler H cfg = Up q \<longleftrightarrow>
    (\<exists>client. NewRedisConnection H 1 (ac_RedisURL cfg) = Inr client \<and> q = NewRedisQ client MetadataUpdateClientsNotifierQueue (1 * Second))"
  by (auto simp: NewSSEHandler_def SetupFileEventProducer_def split: sum.splits)

lemmas new_defs = NewMetadataRepository_def NewMetadataTokenRepository_def NewTokensRepository_def NewUserFileRespository_def
  NewMetadataService_def NewFileChunkService_def NewMetadataExecutor_def NewRedisQ_def

lemmas up_simps = and_then_Up or_fatal_Up or_return_Up hydrated_Inr connect_db_Up NewRedisConnection_Inr NewSSEHandler_Up

text \<open>What is there when a process starts with the configuration \<open>cfg\<close>: a database and a Redis that answer, and
  the list of query files.\<close>

definition reachable_services :: "('c, 'd, 'o) host \<Rightarrow> AppConfig \<Rightarrow> 'd \<Rightarrow> 'o \<Rightarrow> bool" where
  "reachable_services H cfg db client \<longleftrightarrow>
     dr_Open (h_driver H) (ac_DbName cfg) = Inr db \<and> dr_Ping (h_driver H) db = None \<and>
     h_ParseURL H (ac_RedisURL cfg) = Inr client \<and> h_Ping H 0 client = None \<and> h_Ping H 1 client = None \<and>
     LoadAll H query_config = Up query_tables"

text \<open>
  C26.  The server and the supervising worker meet.  When the two are started with the same configuration
  and the database, Redis, the data directory and the query files are there, both come up; all
  repositories of both are on the same database and all queues on the same Redis, the worker reads the
  update queue that the server writes and writes the notification queues that the server reads, and
  every statement a repository asks for is in the store it was given, which is what the properties
  of the repositories assume.  The name given to the worker makes no difference.
\<close>

theorem processes_meet:
  assumes "config_Load H ''./config/'' = Up cfg" "config_Load H envDir = Up cfg"
    and "reachable_services H cfg db client" "query_files (h_ReadFile H) mq cq tq" "h_Abs H ''./tmp/arbokdata'' = Inr dir"
  shows "\<exists>sp wk fs ex. server_main H port = Up sp \<and> (\<forall>name. command_main (SuperviseRunner_Run H envDir name) = Up wk) \<and>
    fs = sp_filesvc sp \<and> ex = wk_executor wk \<and> fcs_storage (sp_chunkSvc sp) = dir \<and>
    (mre_conn (mse_repo fs), mto_conn (mse_metaTokensRepo fs), tre_conn (sp_tokensRepo sp), ufr_conn (fcs_repo (sp_chunkSvc sp))) = (db, db, db, db) \<and>
    mex_repo ex = mse_repo fs \<and> mex_crepo ex = fcs_repo (sp_chunkSvc sp) \<and>
    (rq_conn (mse_queue fs), rq_conn (sp_sseHandler sp), rq_conn (wk_producer wk), rq_conn (mex_notifier ex)) = (client, client, client, client) \<and>
    rq_topicName (wk_producer wk) = rq_topicName (mse_queue fs) \<and> rq_topicName (mex_notifier ex) = rq_topicName (sp_sseHandler sp) \<and>
    rq_topicName (mse_queue fs) \<noteq> rq_topicName (sp_sseHandler sp) \<and>
    mto_metaQuerier (mse_metaTokensRepo fs) = mre_querier (mse_repo fs) \<and>
    mto_tokenQuerier (mse_metaTokensRepo fs) = tre_querier (sp_tokensRepo sp) \<and>
    stmts_loaded (E\<lparr>e_metaQ := GetQuery (mre_querier (mse_repo fs)), e_chunkQ := GetQuery (ufr_querier (fcs_repo (sp_chunkSvc sp))),
      e_tokenQ := GetQuery (tre_querier (sp_tokensRepo sp))\<rparr>)"
proof -
  note up = assms(3) [unfolded reachable_services_def]
  from stores_loaded [OF assms(4), of E] obtain ts ms cs where st: "load_stores (h_ReadFile H) query_tables = Some (ts, ms, cs)"
    "stmts_loaded (E\<lparr>e_metaQ := GetQuery ms, e_chunkQ := GetQuery cs, e_tokenQ := GetQuery ts\<rparr>)" by blast
  from st(1) have h: "HydrateQueryStore (h_ReadFile H) query_tables ''tokens'' = (ts, None)"
    "HydrateQueryStore (h_ReadFile H) query_tables ''file_metadatas'' = (ms, None)"
    "HydrateQueryStore (h_ReadFile H) query_tables ''user_files'' = (cs, None)"
    by (auto simp: load_stores_def split: prod.splits option.splits)
  let ?repo = "NewMetadataRepository db ms" and ?crepo = "NewUserFileRespository db cs"
  let ?sp = "\<lparr>sp_tokensRepo = NewTokensRepository db ts,
    sp_filesvc = NewMetadataService ?repo (NewMetadataTokenRepository db ms ts) (NewRedisQ client MetadataFileUpdateQueue (20 * Second)),
    sp_chunkSvc = NewFileChunkService ?crepo dir, sp_downloadSvc = client,
    sp_sseHandler = NewRedisQ client MetadataUpdateClientsNotifierQueue (1 * Second), sp_Addr = Sprintf_s '':%s'' [port]\<rparr>"
  let ?wk = "\<lparr>wk_executor = NewMetadataExecutor ?repo ?crepo (NewRedisQ client MetadataUpdateClientsNotifierQueue (1 * Second)),
    wk_producer = NewRedisQ client MetadataFileUpdateQueue (1 * Second)\<rparr>"
  have "server_main H port = Up ?sp" using assms(1,5) up h by (simp add: server_main_def up_simps NewLocalFS_def)
  moreover have "SuperviseRunner_Run H envDir name = Up ?wk" for name
    using assms(2) up h by (simp add: SuperviseRunner_Run_def MetdataSupervisor_def up_simps)
  moreover have "MetadataFileUpdateQueue \<noteq> MetadataUpdateClientsNotifierQueue"
    by (simp add: MetadataFileUpdateQueue_def MetadataUpdateClientsNotifierQueue_def)
  ultimately show ?thesis using st(2)
    by (intro exI [of _ ?sp] exI [of _ ?wk] exI [of _ "sp_filesvc ?sp"] exI [of _ "wk_executor ?wk"]) (simp add: command_main_def new_defs)
qed

text \<open>A server that came up had all of it: nothing is served from a process that started in part.\<close>

lemma server_up_needs:
  assumes "server_main H port = Up sp"
  shows "\<exists>cfg client qs. config_Load H ''./config/'' = Up cfg \<and> connect_db H cfg = Up (tre_conn (sp_tokensRepo sp)) \<and>
    h_ParseURL H (ac_RedisURL cfg) = Inr client \<and> h_Ping H 0 client = None \<and> h_Ping H 1 client = None \<and>
    LoadAll H query_config = Up qs \<and> load_stores (h_ReadFile H) qs = Some (tre_querier (sp_tokensRepo sp),
      mre_querier (mse_repo (sp_filesvc sp)), ufr_querier (fcs_repo (sp_chunkSvc sp)))"
  using assms by (auto simp: server_main_def up_simps load_stores_def new_defs)

subsection \<open>The end of the server\<close>

text \<open>
  After the start \<open>main\<close> waits for an interrupt while a goroutine serves.  \<open>Shutdown\<close> closes the listener,
  whereupon \<open>ListenAndServe\<close> returns \<open>ErrServerClosed\<close>, and then waits for the requests in work or for its
  context; it is given the context of the interrupt, which is over.  The process ends with 1 when the
  goroutine reaches \<open>log.Fatal\<close> and with 0 when \<open>main\<close> returns.  That listening fails by itself is a step of
  its own, \<open>listen_fails\<close>, so that runs in which nothing fails are the runs of \<open>serving_step\<close>.
\<close>

datatype listener = LServing | LReturned

datatype main_pc = MWaiting | MShutdown | MReturning

record serving =
  sv_active :: nat
  sv_interrupted :: bool
  sv_listener :: listener
  sv_main :: main_pc
  sv_exit :: "nat option"

definition serving_start :: serving where
  "serving_start = \<lparr>sv_active = 0, sv_interrupted = False, sv_listener = LServing, sv_main = MWaiting, sv_exit = None\<rparr>"

inductive serving_step :: "serving \<Rightarrow> serving \<Rightarrow> bool" where
  accept: "sv_exit s = None \<Longrightarrow> sv_listener s = LServing \<Longrightarrow> serving_step s (s\<lparr>sv_active := Suc (sv_active s)\<rparr>)"
| finish: "sv_exit s = None \<Longrightarrow> sv_active s = Suc n \<Longrightarrow> serving_step s (s\<lparr>sv_active := n\<rparr>)"
| interrupt: "sv_exit s = None \<Longrightarrow> serving_step s (s\<lparr>sv_interrupted := True\<rparr>)"
| fatal: "sv_exit s = None \<Longrightarrow> sv_listener s = LReturned \<Longrightarrow> serving_step s (s\<lparr>sv_exit := Some 1\<rparr>)"
| shutdown: "sv_exit s = None \<Longrightarrow> sv_main s = MWaiting \<Longrightarrow> sv_interrupted s \<Longrightarrow>
     serving_step s (s\<lparr>sv_main := MShutdown, sv_listener := LReturned\<rparr>)"
| idle: "sv_exit s = None \<Longrightarrow> sv_main s = MShutdown \<Longrightarrow> sv_active s = 0 \<Longrightarrow> serving_step s (s\<lparr>sv_main := MReturning\<rparr>)"
| context_over: "sv_exit s = None \<Longrightarrow> sv_main s = MShutdown \<Longrightarrow> sv_active s \<noteq> 0 \<Longrightarrow> sv_interrupted s \<Longrightarrow>
     serving_step s (s\<lparr>sv_main := MReturning\<rparr>)"
| main_returns: "sv_exit s = None \<Longrightarrow> sv_main s = MReturning \<Longrightarrow> serving_step s (s\<lparr>sv_exit := Some 0\<rparr>)"

inductive listen_fails :: "serving \<Rightarrow> serving \<Rightarrow> bool" where
  "sv_exit s = None \<Longrightarrow> sv_listener s = LServing \<Longrightarrow> listen_fails s (s\<lparr>sv_listener := LReturned\<rparr>)"

definition server_step :: "serving \<Rightarrow> serving \<Rightarrow> bool" where
  "server_step s s' \<longleftrightarrow> serving_step s s' \<or> listen_fails s s'"

inductive_cases serving_stepE: "serving_step s s'"
inductive_cases listen_failsE: "listen_fails s s'"

text \<open>With or without a failure the process ends with 0 only after an interrupt, and with 1 only when
  \<open>ListenAndServe\<close> has returned; when nothing fails it returns only after an interrupt.\<close>

definition serving_inv :: "serving \<Rightarrow> bool" where
  "serving_inv s \<longleftrightarrow> (sv_main s \<noteq> MWaiting \<longrightarrow> sv_interrupted s \<and> sv_listener s = LReturned) \<and>
     (sv_exit s = Some 0 \<longrightarrow> sv_main s = MReturning) \<and>
     (sv_exit s \<noteq> None \<longrightarrow> sv_exit s = Some 0 \<or> sv_exit s = Some 1 \<and> sv_listener s = LReturned)"

definition calm_inv :: "serving \<Rightarrow> bool" where
  "calm_inv s \<longleftrightarrow> serving_inv s \<and> (sv_listener s = LReturned \<longrightarrow> sv_interrupted s \<and> sv_main s \<noteq> MWaiting)"

interpretation serving: invariant server_step serving_inv serving_start
  by unfold_locales (auto simp: serving_inv_def serving_start_def server_step_def elim!: serving_stepE listen_failsE)

interpretation calm: invariant serving_step calm_inv serving_start
  by unfold_locales (auto simp: calm_inv_def serving_inv_def serving_start_def elim!: serving_stepE)

text \<open>A server without an interrupt and whose listener works does not end.\<close>

lemma serves_on:
  assumes "reachable server_step serving_start s" "\<not> sv_interrupted s" "sv_listener s = LServing"
  shows "sv_exit s = None"
  using serving.holds [OF assms(1)] assms(2,3) by (auto simp: serving_inv_def)

text \<open>The two ends of an interrupted server.\<close>

lemma interrupted_ends:
  assumes "sv_exit s = None" "sv_main s = MWaiting" "sv_interrupted s"
  shows "\<exists>t. reachable serving_step s t \<and> sv_exit t = Some 0 \<and> sv_active t = sv_active s"
    and "\<exists>t. reachable serving_step s t \<and> sv_exit t = Some 1 \<and> sv_active t = sv_active s"
proof -
  let ?R = "reachable serving_step s"
  note more = reachable.step [where step = serving_step]
  let ?b = "s\<lparr>sv_main := MShutdown, sv_listener := LReturned\<rparr>"
  from more [OF reachable.start serving_step.shutdown [OF assms]] have b: "?R ?b" .
  have "serving_step ?b (?b\<lparr>sv_main := MReturning\<rparr>)"
    using assms by (cases "sv_active s = 0") (intro serving_step.idle serving_step.context_over; simp)+
  from more [OF more [OF b this] serving_step.main_returns] assms(1)
  have "?R (?b\<lparr>sv_main := MReturning, sv_exit := Some 0\<rparr>)" by simp
  then show "\<exists>t. ?R t \<and> sv_exit t = Some 0 \<and> sv_active t = sv_active s" by fastforce
  from more [OF b serving_step.fatal] assms(1) have "?R (?b\<lparr>sv_exit := Some 1\<rparr>)" by simp
  then show "\<exists>t. ?R t \<and> sv_exit t = Some 1 \<and> sv_active t = sv_active s" by fastforce
qed

text \<open>
  C35.  An interrupt drops the requests in work.  In runs in which nothing fails the process ends only after
  an interrupt.  The context that \<open>Shutdown\<close> is then given is the one whose end started it, so it does
  not wait: from every such state in which the server still runs and was interrupted, the process can
  end with all its requests still in work, both with status 0 and, since \<open>ListenAndServe\<close> returns as soon
  as the listener is closed and its error is fatal, with status 1.
\<close>

theorem interrupt_drops_requests:
  assumes "reachable serving_step serving_start s"
  shows "(sv_exit s \<noteq> None \<longrightarrow> sv_interrupted s) \<and>
    (sv_exit s = None \<and> sv_main s = MWaiting \<and> sv_interrupted s \<longrightarrow>
      (\<exists>t. reachable serving_step s t \<and> sv_exit t = Some 0 \<and> sv_active t = sv_active s) \<and>
      (\<exists>t. reachable serving_step s t \<and> sv_exit t = Some 1 \<and> sv_active t = sv_active s))"
proof -
  have "sv_exit s \<noteq> None \<longrightarrow> sv_interrupted s" using calm.holds [OF assms] by (auto simp: calm_inv_def serving_inv_def)
  with interrupted_ends [of s] show ?thesis by blast
qed

subsection \<open>Instances\<close>

definition sample_host :: "(unit, nat, string) host" where
  "sample_host = \<lparr>h_Getenv = (\<lambda>k. []), h_ReadFromFile = (\<lambda>env dir. Inr ()), h_MustGet = (\<lambda>c k. Some (CfgString k)),
     h_driver = \<lparr>dr_Open = (\<lambda>name. Inr 0), dr_Ping = (\<lambda>d. None), dr_Begin = (\<lambda>d. None), dr_Exec = (\<lambda>q d. Inr d), dr_Commit = (\<lambda>d. None)\<rparr>,
     h_ReadFile = sample_files(query_config := Inr ''tables''),
     h_Unmarshal = (\<lambda>b. if b = ''tables'' then Inr query_tables else Inl ''yaml''),
     h_ParseURL = Inr, h_Ping = (\<lambda>n c. None), h_Abs = (\<lambda>p. Inr (''/srv'' @ p))\<rparr>"

theorem processes_meet_witness:
  "\<exists>sp wk. server_main sample_host ''9191'' = Up sp \<and> command_main (SuperviseRunner_Run sample_host ''./config'' ''metadata'') = Up wk \<and>
     mex_repo (wk_executor wk) = mse_repo (sp_filesvc sp) \<and> rq_topicName (wk_producer wk) = rq_topicName (mse_queue (sp_filesvc sp)) \<and>
     stmts_loaded (sample_env\<lparr>e_metaQ := GetQuery (mre_querier (mse_repo (sp_filesvc sp))),
       e_chunkQ := GetQuery (ufr_querier (fcs_repo (sp_chunkSvc sp))), e_tokenQ := GetQuery (tre_querier (sp_tokensRepo sp))\<rparr>)"
proof -
  let ?cfg = "\<lparr>ac_ServerID = ''server_id'', ac_Environment = ''dev'', ac_Dsn = ''dsn'', ac_DbName = ''db_name'', ac_RedisURL = ''redis_url''\<rparr>"
  have c: "config_Load sample_host dir = Up ?cfg" for dir
    by (simp add: config_Load_def sample_host_def must_string_def or_fatal_def)
  have r: "reachable_services sample_host ?cfg 0 ''redis_url''"
    by (simp add: reachable_services_def sample_host_def LoadAll_def or_fatal_def)
  have q: "query_files (h_ReadFile sample_host) (map part_of metadata_names) (map part_of chunk_names) (map part_of token_names)"
    using sample_query_files by (simp add: query_files_def sample_host_def query_config_def)
  have a: "h_Abs sample_host ''./tmp/arbokdata'' = Inr ''/srv./tmp/arbokdata''" by (simp add: sample_host_def)
  from processes_meet [OF c c r q a, of "''9191''" "''./config''" sample_env] show ?thesis by blast
qed

theorem interrupt_drops_requests_witness:
  "\<exists>s t. reachable serving_step serving_start s \<and> sv_active s = 1 \<and> reachable serving_step s t \<and> sv_exit t = Some 1 \<and> sv_active t = 1"
proof -
  let ?s = "serving_start\<lparr>sv_active := 1, sv_interrupted := True\<rparr>"
  note more = reachable.step [where step = serving_step]
  from more [OF more [OF reachable.start serving_step.accept] serving_step.interrupt, of serving_start]
  have s: "reachable serving_step serving_start ?s" by (simp add: serving_start_def)
  have "sv_exit ?s = None" "sv_main ?s = MWaiting" "sv_interrupted ?s" "sv_active ?s = 1" by (simp_all add: serving_start_def)
  with interrupt_drops_requests [OF s] s show ?thesis by metis
qed

end
