(* ===== verification/WorkerPool.thy ===== *)
theory WorkerPool
  imports Machines "HOL-Library.Multiset"
begin

text \<open>
  \<open>pkg/workerpool/workerpool.go\<close> as a step relation.  The goroutines are the dispatcher
  (\<open>Dispatch\<close>), one loop per worker (\<open>Worker.Start\<close>) and the caller of \<open>WorkerPool.Stop\<close>; a step is
  one channel operation or one call of the processor.  Channels are the buffered lists they hold:
  the pool of benches has capacity \<open>poolSize\<close>, each bench and each result channel has capacity 1.
  The channel that feeds the dispatcher belongs to its producer: messages may arrive on it at any
  time, and once it is closed and empty a receive yields the zero value.  Two ghost fields record
  what entered and what was processed.
\<close>

subsection \<open>States\<close>

datatype 'e dispatcher = DSelect | DHasJob 'e | DHasBench 'e nat | DReturned

datatype ('e, 'v) wstate = WOffer | WSelect | WProcess 'e | WDeliver 'v | WReturned

record ('e, 'v) pool_state =
  ps_recv :: "'e list"
  ps_closed :: bool
  ps_done :: bool
  ps_disp :: "'e dispatcher"
  ps_pool :: "nat list"
  ps_bench :: "nat \<Rightarrow> 'e list"
  ps_worker :: "nat \<Rightarrow> ('e, 'v) wstate"
  ps_result :: "nat \<Rightarrow> 'v list"
  ps_stopping :: "nat option"
  ps_entered :: "'e list"
  ps_processed :: "'e list"

definition NewWorkerPool :: "('e, 'v) pool_state" where
  "NewWorkerPool = \<lparr>ps_recv = [], ps_closed = False, ps_done = False, ps_disp = DSelect, ps_pool = [],
     ps_bench = (\<lambda>i. []), ps_worker = (\<lambda>i. WOffer), ps_result = (\<lambda>i. []), ps_stopping = None,
     ps_entered = [], ps_processed = []\<rparr>"

subsection \<open>Steps\<close>

text \<open>The dispatcher: receive a job, take a bench from the pool, put the job on the bench.\<close>

inductive Dispatch :: "'e \<Rightarrow> ('e, 'v) pool_state \<Rightarrow> ('e, 'v) pool_state \<Rightarrow> bool" for zero where
  receive: "ps_disp s = DSelect \<Longrightarrow> ps_recv s = job # rest \<Longrightarrow>
     Dispatch zero s (s\<lparr>ps_disp := DHasJob job, ps_recv := rest\<rparr>)"
| receive_closed: "ps_disp s = DSelect \<Longrightarrow> ps_recv s = [] \<Longrightarrow> ps_closed s \<Longrightarrow>
     Dispatch zero s (s\<lparr>ps_disp := DHasJob zero, ps_entered := ps_entered s @ [zero]\<rparr>)"
| take_bench: "ps_disp s = DHasJob job \<Longrightarrow> ps_pool s = i # rest \<Longrightarrow>
     Dispatch zero s (s\<lparr>ps_disp := DHasBench job i, ps_pool := rest\<rparr>)"
| put_job: "ps_disp s = DHasBench job i \<Longrightarrow> length (ps_bench s i) < 1 \<Longrightarrow>
     Dispatch zero s (s\<lparr>ps_disp := DSelect, ps_bench := (ps_bench s)(i := ps_bench s i @ [job])\<rparr>)"
| dispatch_done: "ps_disp s = DSelect \<Longrightarrow> ps_done s \<Longrightarrow> Dispatch zero s (s\<lparr>ps_disp := DReturned\<rparr>)"

text \<open>Worker \<open>i\<close>: offer the bench, wait for a job, the quit signal or the end of the context, process,
  deliver the result when results are captured.\<close>

inductive Worker_Start :: "nat \<Rightarrow> ('e \<Rightarrow> 'v) \<Rightarrow> bool \<Rightarrow> nat \<Rightarrow> ('e, 'v) pool_state \<Rightarrow> ('e, 'v) pool_state \<Rightarrow> bool"
  for poolSize proc captureResult i where
  offer: "ps_worker s i = WOffer \<Longrightarrow> length (ps_pool s) < poolSize \<Longrightarrow>
     Worker_Start poolSize proc captureResult i s
       (s\<lparr>ps_worker := (ps_worker s)(i := WSelect), ps_pool := ps_pool s @ [i]\<rparr>)"
| get_job: "ps_worker s i = WSelect \<Longrightarrow> ps_bench s i = job # rest \<Longrightarrow>
     Worker_Start poolSize proc captureResult i s
       (s\<lparr>ps_worker := (ps_worker s)(i := WProcess job), ps_bench := (ps_bench s)(i := rest)\<rparr>)"
| process: "ps_worker s i = WProcess job \<Longrightarrow>
     Worker_Start poolSize proc captureResult i s
       (s\<lparr>ps_worker := (ps_worker s)(i := (if captureResult then WDeliver (proc job) else WOffer)),
          ps_processed := ps_processed s @ [job]\<rparr>)"
| deliver: "ps_worker s i = WDeliver v \<Longrightarrow> length (ps_result s i) < 1 \<Longrightarrow>
     Worker_Start poolSize proc captureResult i s
       (s\<lparr>ps_worker := (ps_worker s)(i := WOffer), ps_result := (ps_result s)(i := ps_result s i @ [v])\<rparr>)"
| deliver_done: "ps_worker s i = WDeliver v \<Longrightarrow> ps_done s \<Longrightarrow>
     Worker_Start poolSize proc captureResult i s (s\<lparr>ps_worker := (ps_worker s)(i := WReturned)\<rparr>)"
| select_done: "ps_worker s i = WSelect \<Longrightarrow> ps_done s \<Longrightarrow>
     Worker_Start poolSize proc captureResult i s (s\<lparr>ps_worker := (ps_worker s)(i := WReturned)\<rparr>)"

text \<open>\<open>Stop\<close> goes through the workers in order; its send on the unbuffered quit channel meets the
  worker's receive in the select.\<close>

inductive WorkerPool_Stop :: "nat \<Rightarrow> ('e, 'v) pool_state \<Rightarrow> ('e, 'v) pool_state \<Rightarrow> bool" for poolSize where
  stop_begin: "ps_stopping s = None \<Longrightarrow> WorkerPool_Stop poolSize s (s\<lparr>ps_stopping := Some 0\<rparr>)"
| stop_worker: "ps_stopping s = Some i \<Longrightarrow> i < poolSize \<Longrightarrow> ps_worker s i = WSelect \<Longrightarrow>
     WorkerPool_Stop poolSize s
       (s\<lparr>ps_worker := (ps_worker s)(i := WReturned), ps_stopping := Some (Suc i)\<rparr>)"

text \<open>What the surroundings do: feed or close the channel, read a result, end the context.\<close>

inductive surroundings :: "('e, 'v) pool_state \<Rightarrow> ('e, 'v) pool_state \<Rightarrow> bool" where
  feed: "\<not> ps_closed s \<Longrightarrow>
     surroundings s (s\<lparr>ps_recv := ps_recv s @ [job], ps_entered := ps_entered s @ [job]\<rparr>)"
| close_feed: "surroundings s (s\<lparr>ps_closed := True\<rparr>)"
| read_result: "ps_result s i = v # rest \<Longrightarrow> surroundings s (s\<lparr>ps_result := (ps_result s)(i := rest)\<rparr>)"
| end_context: "surroundings s (s\<lparr>ps_done := True\<rparr>)"

inductive pool_step :: "nat \<Rightarrow> ('e \<Rightarrow> 'v) \<Rightarrow> bool \<Rightarrow> 'e \<Rightarrow> ('e, 'v) pool_state \<Rightarrow> ('e, 'v) pool_state \<Rightarrow> bool"
  for poolSize proc captureResult zero where
  dispatch: "Dispatch zero s s' \<Longrightarrow> pool_step poolSize proc captureResult zero s s'"
| worker: "i < poolSize \<Longrightarrow> Worker_Start poolSize proc captureResult i s s' \<Longrightarrow>
     pool_step poolSize proc captureResult zero s s'"
| stop: "WorkerPool_Stop poolSize s s' \<Longrightarrow> pool_step poolSize proc captureResult zero s s'"
| outside: "surroundings s s' \<Longrightarrow> pool_step poolSize proc captureResult zero s s'"

abbreviation pool_reachable :: "nat \<Rightarrow> ('e \<Rightarrow> 'v) \<Rightarrow> bool \<Rightarrow> 'e \<Rightarrow> ('e, 'v) pool_state \<Rightarrow> bool" where
  "pool_reachable poolSize proc captureResult zero \<equiv>
     reachable (pool_step poolSize proc captureResult zero) NewWorkerPool"

subsection \<open>The invariant\<close>

text \<open>A bench is in one place: with its worker, in the pool, or with the dispatcher; it is empty
  unless its worker waits for it (or has returned).\<close>

definition pool_inv :: "nat \<Rightarrow> ('e, 'v) pool_state \<Rightarrow> bool" where
  "pool_inv N s \<longleftrightarrow> distinct (ps_pool s) \<and>
     (\<forall>i. (i \<in> set (ps_pool s) \<longrightarrow> i < N \<and> ps_bench s i = [] \<and> ps_worker s i \<in> {WSelect, WReturned}) \<and>
          (\<forall>job. ps_disp s = DHasBench job i \<longrightarrow> i < N \<and> i \<notin> set (ps_pool s) \<and> ps_bench s i = [] \<and>
             ps_worker s i \<in> {WSelect, WReturned}) \<and>
          (ps_bench s i \<noteq> [] \<longrightarrow> i < N \<and> (\<exists>job. ps_bench s i = [job]) \<and> ps_worker s i \<in> {WSelect, WReturned}))"

lemma pool_invI:
  assumes "distinct (ps_pool s)"
    and "\<And>i. i \<in> set (ps_pool s) \<Longrightarrow> i < N \<and> ps_bench s i = [] \<and> ps_worker s i \<in> {WSelect, WReturned}"
    and "\<And>i job. ps_disp s = DHasBench job i \<Longrightarrow> i < N \<and> i \<notin> set (ps_pool s) \<and> ps_bench s i = [] \<and>
      ps_worker s i \<in> {WSelect, WReturned}"
    and "\<And>i. ps_bench s i \<noteq> [] \<Longrightarrow> i < N \<and> (\<exists>job. ps_bench s i = [job]) \<and> ps_worker s i \<in> {WSelect, WReturned}"
  shows "pool_inv N s"
  using assms unfolding pool_inv_def by blast

lemma pool_invD:
  assumes "pool_inv N s"
  shows "distinct (ps_pool s)"
    and "i \<in> set (ps_pool s) \<Longrightarrow> i < N \<and> ps_bench s i = [] \<and> ps_worker s i \<in> {WSelect, WReturned}"
    and "ps_disp s = DHasBench job i \<Longrightarrow> i < N \<and> i \<notin> set (ps_pool s) \<and> ps_bench s i = [] \<and>
      ps_worker s i \<in> {WSelect, WReturned}"
    and "ps_bench s i \<noteq> [] \<Longrightarrow> i < N \<and> (\<exists>job. ps_bench s i = [job]) \<and> ps_worker s i \<in> {WSelect, WReturned}"
  using assms unfolding pool_inv_def by blast+

lemma inv_Dispatch: "Dispatch z s s' \<Longrightarrow> pool_inv N s \<Longrightarrow> pool_inv N s'"
proof (induction rule: Dispatch.induct)
  case (take_bench s job i rest)
  note I = pool_invD [OF take_bench(3)]
  from I(1) take_bench(2) have "i \<notin> set rest" "distinct rest" by simp_all
  with take_bench I show ?case by (intro pool_invI) auto
next
  case (put_job s job i)
  note I = pool_invD [OF put_job(3)]
  from I(3) [OF put_job(1)] put_job I show ?case
    by (intro pool_invI) (auto split: if_splits)
next
  case (receive s job rest)
  note I = pool_invD [OF receive(3)]
  show ?case by (rule pool_invI) (use I in auto)
next
  case (receive_closed s)
  note I = pool_invD [OF receive_closed(4)]
  show ?case by (rule pool_invI) (use I in auto)
next
  case (dispatch_done s)
  note I = pool_invD [OF dispatch_done(3)]
  show ?case by (rule pool_invI) (use I in auto)
qed


text \<open>A worker that moves among its own states keeps the invariant when its bench is empty and not
  out, or when it stays waiting or returned.\<close>

lemma inv_worker_upd:
  assumes "pool_inv N s" and "ps_worker s i \<notin> {WSelect, WReturned} \<or> st \<in> {WSelect, WReturned}"
  shows "pool_inv N (s\<lparr>ps_worker := (ps_worker s)(i := st)\<rparr>)"
proof -
  note I = pool_invD [OF assms(1)]
  show ?thesis
  proof (rule pool_invI)
    fix k job
    assume "ps_disp (s\<lparr>ps_worker := (ps_worker s)(i := st)\<rparr>) = DHasBench job k"
    then have "ps_disp s = DHasBench job k" by simp
    from I(3) [OF this] assms(2) show "k < N \<and> k \<notin> set (ps_pool (s\<lparr>ps_worker := (ps_worker s)(i := st)\<rparr>)) \<and>
        ps_bench (s\<lparr>ps_worker := (ps_worker s)(i := st)\<rparr>) k = [] \<and>
        ps_worker (s\<lparr>ps_worker := (ps_worker s)(i := st)\<rparr>) k \<in> {WSelect, WReturned}" by auto
  qed (use I assms(2) in \<open>auto dest: I(2,4)\<close>)
qed

lemma inv_ghost:
  "pool_inv N s \<Longrightarrow> pool_inv N (s\<lparr>ps_processed := x\<rparr>)" "pool_inv N s \<Longrightarrow> pool_inv N (s\<lparr>ps_result := y\<rparr>)"
  "pool_inv N s \<Longrightarrow> pool_inv N (s\<lparr>ps_stopping := u\<rparr>)" "pool_inv N s \<Longrightarrow> pool_inv N (s\<lparr>ps_done := v\<rparr>)"
  "pool_inv N s \<Longrightarrow> pool_inv N (s\<lparr>ps_closed := v\<rparr>)" "pool_inv N s \<Longrightarrow> pool_inv N (s\<lparr>ps_recv := r\<rparr>)"
  "pool_inv N s \<Longrightarrow> pool_inv N (s\<lparr>ps_entered := x\<rparr>)"
  by (simp_all add: pool_inv_def)

lemma inv_Worker: "Worker_Start N proc cap i s s' \<Longrightarrow> i < N \<Longrightarrow> pool_inv N s \<Longrightarrow> pool_inv N s'"
proof (induction rule: Worker_Start.induct)
  case (offer s)
  note I = pool_invD [OF offer(4)]
  from offer(1) I(2) [of i] have "i \<notin> set (ps_pool s)" by auto
  moreover from offer(1) I(4) [of i] have "ps_bench s i = []" by auto
  moreover from offer(1) I(3) [of _ i] have "ps_disp s \<noteq> DHasBench job i" for job by auto
  ultimately show ?case
    using offer(3) I by (intro pool_invI) (auto dest: I(2,3,4))
next
  case (get_job s job rest)
  note I = pool_invD [OF get_job(4)]
  from get_job(2) I(4) [of i] have r: "rest = []" by auto
  from get_job(2) I(2) [of i] have "i \<notin> set (ps_pool s)" by auto
  moreover from get_job(2) I(3) [of _ i] have "ps_disp s \<noteq> DHasBench j i" for j by auto
  ultimately show ?case
    using I r by (intro pool_invI) (auto dest: I(2,3,4))
next
  case (process s job)
  from inv_ghost(1) [OF inv_worker_upd [OF process(3), of i]] process(1) show ?case by simp
next
  case (deliver s v)
  from inv_ghost(2) [OF inv_worker_upd [OF deliver(4), of i]] deliver(1) show ?case by simp
next
  case (deliver_done s v)
  then show ?case by (intro inv_worker_upd) simp_all
next
  case (select_done s)
  then show ?case by (intro inv_worker_upd) simp_all
qed

lemma inv_step: "pool_step N proc cap z s s' \<Longrightarrow> pool_inv N s \<Longrightarrow> pool_inv N s'"
proof (induction rule: pool_step.induct)
  case (stop s s')
  from stop(1) show ?case
  proof cases
    case (stop_worker i)
    with inv_ghost(3) [OF inv_worker_upd [OF stop(2), of i WReturned]] show ?thesis by simp
  qed (use stop in \<open>simp add: inv_ghost\<close>)
next
  case (outside s s')
  from outside(1) show ?case
    by cases (use outside(2) inv_ghost(7) [OF inv_ghost(6) [OF outside(2)]] in \<open>simp_all add: inv_ghost\<close>)
qed (auto intro: inv_Dispatch inv_Worker)

interpretation pool: invariant "pool_step N proc cap z" "pool_inv N" NewWorkerPool for N proc cap z
  by unfold_locales (auto simp: NewWorkerPool_def intro: inv_step pool_invI)

subsection \<open>No job is lost or done twice\<close>

definition disp_jobs :: "('e, 'v) pool_state \<Rightarrow> 'e list" where
  "disp_jobs s = (case ps_disp s of DHasJob job \<Rightarrow> [job] | DHasBench job i \<Rightarrow> [job] | _ \<Rightarrow> [])"

definition worker_jobs :: "('e, 'v) pool_state \<Rightarrow> nat \<Rightarrow> 'e list" where
  "worker_jobs s i = (case ps_worker s i of WProcess job \<Rightarrow> [job] | _ \<Rightarrow> []) @ ps_bench s i"

definition conserved :: "nat \<Rightarrow> ('e, 'v) pool_state \<Rightarrow> bool" where
  "conserved N s \<longleftrightarrow> mset (ps_entered s) =
     mset (ps_processed s) + (\<Sum>i<N. mset (worker_jobs s i)) + mset (disp_jobs s) + mset (ps_recv s)"

lemma sum_worker_upd:
  assumes "i < N" and "\<And>k. k \<noteq> i \<Longrightarrow> worker_jobs s' k = worker_jobs s k"
  shows "(\<Sum>k<N. mset (worker_jobs s' k)) + mset (worker_jobs s i) = (\<Sum>k<N. mset (worker_jobs s k)) + mset (worker_jobs s' i)"
proof -
  have "(\<Sum>k<N. mset (worker_jobs s' k)) = mset (worker_jobs s' i) + (\<Sum>k\<in>{..<N} - {i}. mset (worker_jobs s' k))"
    "(\<Sum>k<N. mset (worker_jobs s k)) = mset (worker_jobs s i) + (\<Sum>k\<in>{..<N} - {i}. mset (worker_jobs s k))"
    using assms(1) by (simp_all add: sum.remove)
  moreover have "(\<Sum>k\<in>{..<N} - {i}. mset (worker_jobs s' k)) = (\<Sum>k\<in>{..<N} - {i}. mset (worker_jobs s k))"
    using assms(2) by (intro sum.cong) auto
  ultimately show ?thesis by (simp add: ac_simps)
qed


lemma worker_jobs_cong:
  "ps_worker s' k = ps_worker s k \<Longrightarrow> ps_bench s' k = ps_bench s k \<Longrightarrow> worker_jobs s' k = worker_jobs s k"
  by (simp add: worker_jobs_def)

lemma conserved_Dispatch:
  "Dispatch z s s' \<Longrightarrow> pool_inv N s \<Longrightarrow> conserved N s \<Longrightarrow> conserved N s'"
proof (induction rule: Dispatch.induct)
  case (put_job s job i)
  let ?s = "s\<lparr>ps_disp := DSelect, ps_bench := (ps_bench s)(i := ps_bench s i @ [job])\<rparr>"
  from pool_invD(3) [OF put_job(3,1)] have i: "i < N" by simp
  have "(\<Sum>k<N. mset (worker_jobs ?s k)) + mset (worker_jobs s i) =
      (\<Sum>k<N. mset (worker_jobs s k)) + mset (worker_jobs ?s i)"
    by (rule sum_worker_upd [OF i]) (simp add: worker_jobs_def)
  then have "(\<Sum>k<N. mset (worker_jobs ?s k)) = (\<Sum>k<N. mset (worker_jobs s k)) + {#job#}"
    by (simp add: worker_jobs_def)
  with put_job show ?case by (simp add: conserved_def disp_jobs_def)
qed (auto simp: conserved_def disp_jobs_def worker_jobs_def)

lemma conserved_Worker:
  "Worker_Start N proc cap i s s' \<Longrightarrow> i < N \<Longrightarrow> conserved N s \<Longrightarrow> conserved N s'"
proof -
  assume step: "Worker_Start N proc cap i s s'" and i: "i < N" and c: "conserved N s"
  let ?S = "\<lambda>t. \<Sum>k<N. mset (worker_jobs t k)" and ?b = "\<lambda>t. mset (worker_jobs t i)" and ?p = "\<lambda>t. mset (ps_processed t)"
  have S: "?S s' + ?b s = ?S s + ?b s'"
    using step by (intro sum_worker_upd [OF i] worker_jobs_cong) (auto elim!: Worker_Start.cases)
  from step have B: "?b s' + ?p s' = ?b s + ?p s" by cases (auto simp: worker_jobs_def)
  have "(?p s' + ?S s') + (?b s + ?b s') = (?b s' + ?p s') + (?S s' + ?b s)" by (simp only: ac_simps)
  also have "\<dots> = (?b s + ?p s) + (?S s + ?b s')" by (simp only: S B)
  also have "\<dots> = (?p s + ?S s) + (?b s + ?b s')" by (simp only: ac_simps)
  finally have "?p s' + ?S s' = ?p s + ?S s" by (simp only: add_right_cancel)
  moreover from step have "ps_entered s' = ps_entered s" "disp_jobs s' = disp_jobs s" "ps_recv s' = ps_recv s"
    by (auto elim!: Worker_Start.cases simp: disp_jobs_def)
  ultimately show "conserved N s'" using c by (simp add: conserved_def)
qed

lemma conserved_step:
  "pool_step N proc cap z s s' \<Longrightarrow> pool_inv N s \<Longrightarrow> conserved N s \<Longrightarrow> conserved N s'"
proof (induction rule: pool_step.induct)
  case (stop s s')
  have "worker_jobs s' k = worker_jobs s k" for k
    using stop(1) by cases (auto simp: worker_jobs_def)
  with stop show ?case by (auto elim!: WorkerPool_Stop.cases simp: conserved_def disp_jobs_def)
next
  case (outside s s')
  have "worker_jobs s' k = worker_jobs s k" for k
    using outside(1) by cases (auto simp: worker_jobs_def)
  with outside show ?case by (auto elim!: surroundings.cases simp: conserved_def disp_jobs_def)
qed (auto intro: conserved_Dispatch conserved_Worker)

lemma conserved_start: "conserved N NewWorkerPool"
  by (simp add: conserved_def NewWorkerPool_def worker_jobs_def disp_jobs_def)

interpretation jobs: invariant "pool_step N proc cap z" "\<lambda>s. pool_inv N s \<and> conserved N s" NewWorkerPool
  for N proc cap z
  by unfold_locales (auto intro: inv_step conserved_step conserved_start pool.holds_at_start)

text \<open>
  C19.  The worker pool neither loses nor repeats a job: in every reachable state, however the
  goroutines interleave, the jobs that entered are, counted with repetitions, those processed, those
  being processed, those on a bench, that of the dispatcher and those still in the channel.  No
  bench ever holds more than one job, and neither the dispatcher putting a job on a bench nor a
  worker offering its bench is ever blocked.
\<close>

theorem pool_conserves_jobs:
  assumes "pool_reachable poolSize proc cap zero s"
  shows "mset (ps_entered s) =
      mset (ps_processed s) + (\<Sum>i<poolSize. mset (worker_jobs s i)) + mset (disp_jobs s) + mset (ps_recv s) \<and>
    (\<forall>i. length (ps_bench s i) \<le> 1) \<and>
    (\<forall>job i. ps_disp s = DHasBench job i \<longrightarrow> length (ps_bench s i) < 1) \<and>
    (\<forall>i < poolSize. ps_worker s i = WOffer \<longrightarrow> length (ps_pool s) < poolSize)"
proof -
  note jobs.holds [OF assms]
  moreover note I = pool_invD [OF pool.holds [OF assms]]
  have "length (ps_bench s i) \<le> 1" for i using I(4) [of i] by (cases "ps_bench s i") auto
  moreover have "length (ps_bench s i) < 1" if "ps_disp s = DHasBench job i" for job i using I(3) [OF that] by simp
  moreover have "length (ps_pool s) < poolSize" if i: "i < poolSize" "ps_worker s i = WOffer" for i
  proof -
    have "set (ps_pool s) \<subseteq> {..<poolSize} - {i}" using I(2) i(2) by fastforce
    then have "card (set (ps_pool s)) \<le> card ({..<poolSize} - {i})" by (intro card_mono) auto
    with i(1) I(1) show ?thesis by (simp add: distinct_card)
  qed
  ultimately show ?thesis by (simp add: conserved_def)
qed

text \<open>A run of a pool of one worker: a job is fed, dispatched and being processed while a second
  one waits in the channel.\<close>

definition busy_pool :: "(nat, nat) pool_state" where
  "busy_pool = \<lparr>ps_recv = [8], ps_closed = False, ps_done = False, ps_disp = DSelect, ps_pool = [],
     ps_bench = (\<lambda>i. []), ps_worker = (\<lambda>i. WOffer)(0 := WProcess 7), ps_result = (\<lambda>i. []),
     ps_stopping = None, ps_entered = [7, 8], ps_processed = []\<rparr>"

lemma busy_pool_reachable: "pool_reachable 1 Suc False 0 busy_pool"
proof -
  let ?R = "pool_reachable 1 Suc False (0::nat)"
  let ?S = "pool_step 1 Suc False (0::nat)"
  note d = reachable.step [where step = ?S, OF _ dispatch] and o = reachable.step [where step = ?S, OF _ outside]
    and w = reachable.step [where step = ?S, OF _ worker [of 0]]
  have "?R NewWorkerPool" by (rule reachable.start)
  from o [OF this feed [of _ 7]] have "?R (NewWorkerPool\<lparr>ps_recv := [7], ps_entered := [7]\<rparr>)"
    by (simp add: NewWorkerPool_def)
  from o [OF this feed [of _ 8]] have "?R (NewWorkerPool\<lparr>ps_recv := [7, 8], ps_entered := [7, 8]\<rparr>)"
    by (simp add: NewWorkerPool_def)
  from d [OF this Dispatch.receive]
  have "?R (NewWorkerPool\<lparr>ps_recv := [8], ps_entered := [7, 8], ps_disp := DHasJob 7\<rparr>)"
    by (simp add: NewWorkerPool_def)
  from w [OF this _ Worker_Start.offer]
  have "?R (NewWorkerPool\<lparr>ps_recv := [8], ps_entered := [7, 8], ps_disp := DHasJob 7,
      ps_worker := (\<lambda>i. WOffer)(0 := WSelect), ps_pool := [0]\<rparr>)"
    by (simp add: NewWorkerPool_def)
  from d [OF this Dispatch.take_bench]
  have "?R (NewWorkerPool\<lparr>ps_recv := [8], ps_entered := [7, 8], ps_disp := DHasBench 7 0,
      ps_worker := (\<lambda>i. WOffer)(0 := WSelect)\<rparr>)"
    by (simp add: NewWorkerPool_def)
  from d [OF this Dispatch.put_job]
  have "?R (NewWorkerPool\<lparr>ps_recv := [8], ps_entered := [7, 8],
      ps_worker := (\<lambda>i. WOffer)(0 := WSelect), ps_bench := (\<lambda>i. [])(0 := [7])\<rparr>)"
    by (simp add: NewWorkerPool_def)
  from w [OF this _ Worker_Start.get_job] show ?thesis
    by (simp add: NewWorkerPool_def busy_pool_def fun_upd_idem)
qed

theorem pool_conserves_jobs_witness:
  "mset (ps_entered busy_pool) =
      mset (ps_processed busy_pool) + (\<Sum>i<1. mset (worker_jobs busy_pool i)) + mset (disp_jobs busy_pool) +
      mset (ps_recv busy_pool) \<and>
    worker_jobs busy_pool 0 = [7] \<and> ps_entered busy_pool = [7, 8]"
  using pool_conserves_jobs [OF busy_pool_reachable] by (simp add: busy_pool_def worker_jobs_def)

subsection \<open>Order\<close>

text \<open>
  With one worker, the size both supervisors use, jobs are processed in the order in which they
  arrived: the jobs that entered are those processed, then the one being processed or on the bench,
  then that of the dispatcher, then those in the channel.
\<close>

lemma single_worker_in_order:
  assumes "pool_reachable 1 proc cap zero s"
  shows "ps_entered s = ps_processed s @ worker_jobs s 0 @ disp_jobs s @ ps_recv s"
  using assms
proof (induction rule: reachable.induct)
  case start
  show ?case by (simp add: NewWorkerPool_def worker_jobs_def disp_jobs_def)
next
  case (step s s')
  note I = pool_invD [OF pool.holds [OF step(1)]]
  from step(2) show ?case
  proof cases
    case dispatch
    then show ?thesis using step.IH I(3)
      by cases (auto simp: worker_jobs_def disp_jobs_def split: wstate.splits)
  next
    case (worker i)
    from worker(2) show ?thesis using step.IH worker(1) I(4) [of i]
      by cases (auto simp: worker_jobs_def disp_jobs_def)
  next
    case stop
    then show ?thesis using step.IH by cases (auto simp: worker_jobs_def disp_jobs_def)
  next
    case outside
    then show ?thesis using step.IH by cases (auto simp: worker_jobs_def disp_jobs_def)
  qed
qed

subsection \<open>Progress\<close>

text \<open>The steps of the pool itself, and the work that is left: every such step uses some up.\<close>

definition pool_internal :: "nat \<Rightarrow> ('e \<Rightarrow> 'v) \<Rightarrow> bool \<Rightarrow> 'e \<Rightarrow> ('e, 'v) pool_state \<Rightarrow> ('e, 'v) pool_state \<Rightarrow> bool" where
  "pool_internal poolSize proc cap zero s s' \<longleftrightarrow>
     Dispatch zero s s' \<or> (\<exists>i < poolSize. Worker_Start poolSize proc cap i s s')"

definition disp_work :: "'e dispatcher \<Rightarrow> nat" where
  "disp_work d = (case d of DHasJob _ \<Rightarrow> 5 | DHasBench _ _ \<Rightarrow> 4 | _ \<Rightarrow> 0)"

definition worker_work :: "('e, 'v) pool_state \<Rightarrow> nat \<Rightarrow> nat" where
  "worker_work s i = (case ps_worker s i of WOffer \<Rightarrow> 1 | WProcess _ \<Rightarrow> 2 | _ \<Rightarrow> 0) + 3 * length (ps_bench s i)"

definition pool_work :: "nat \<Rightarrow> ('e, 'v) pool_state \<Rightarrow> nat" where
  "pool_work N s = 6 * length (ps_recv s) + disp_work (ps_disp s) + (\<Sum>i<N. worker_work s i)"

text \<open>While the context lives and nobody stops the pool, no goroutine returns and a waiting worker's
  bench is in the pool, with the dispatcher, or holds a job.\<close>

definition running_inv :: "nat \<Rightarrow> ('e, 'v) pool_state \<Rightarrow> bool" where
  "running_inv N s \<longleftrightarrow> \<not> ps_done s \<and> ps_stopping s = None \<longrightarrow> ps_disp s \<noteq> DReturned \<and>
     (\<forall>i<N. ps_worker s i \<noteq> WReturned \<and> (\<forall>v. ps_worker s i \<noteq> WDeliver v) \<and>
       (ps_worker s i = WSelect \<longrightarrow>
          i \<in> set (ps_pool s) \<or> ps_bench s i \<noteq> [] \<or> (\<exists>job. ps_disp s = DHasBench job i)))"

lemma running_step:
  assumes "pool_step N proc False z s s'" "running_inv N s"
  shows "running_inv N s'"
  using assms(1)
proof cases
  case dispatch
  then show ?thesis using assms(2) by cases (auto simp: running_inv_def)
next
  case (worker i)
  from worker(2) show ?thesis using assms(2) worker(1) by cases (auto simp: running_inv_def)
next
  case stop
  then show ?thesis using assms(2) by cases (auto simp: running_inv_def)
next
  case outside
  then show ?thesis using assms(2) by cases (auto simp: running_inv_def)
qed

interpretation run: invariant "pool_step N proc False z" "running_inv N" NewWorkerPool for N proc z
proof
  show "running_inv N NewWorkerPool" by (simp add: NewWorkerPool_def running_inv_def)
qed (rule running_step)

lemma sum_upd_less:
  fixes f g :: "nat \<Rightarrow> nat"
  assumes "i < N" and "\<And>k. k \<noteq> i \<Longrightarrow> f k = g k" and "f i < g i"
  shows "(\<Sum>k<N. f k) < (\<Sum>k<N. g k)"
  using assms by (intro sum_strict_mono_ex1) (auto intro: order.strict_implies_order, metis order_refl less_imp_le)

lemma Worker_work:
  assumes "Worker_Start N proc False i s s'" "i < N" "\<not> ps_done s" "running_inv N s" "ps_stopping s = None"
  shows "pool_work N s' < pool_work N s"
proof -
  from assms have "ps_recv s' = ps_recv s \<and> ps_disp s' = ps_disp s \<and> worker_work s' i < worker_work s i \<and>
      (\<forall>k. k \<noteq> i \<longrightarrow> worker_work s' k = worker_work s k)"
    by cases (auto simp: worker_work_def running_inv_def)
  with sum_upd_less [OF assms(2), of "worker_work s'" "worker_work s"] show ?thesis
    by (simp add: pool_work_def)
qed

lemma Dispatch_work:
  assumes "Dispatch z s s'" "pool_inv N s" "\<not> ps_done s" "\<not> ps_closed s"
  shows "pool_work N s' < pool_work N s"
  using assms(1)
proof cases
  case (put_job job i)
  let ?g = "worker_work s"
  from pool_invD(3) [OF assms(2) put_job(2)] have i: "i < N" "ps_bench s i = []" by simp_all
  have u: "worker_work s' = ?g(i := ?g i + 3)" using put_job i by (auto simp: worker_work_def)
  have "(\<Sum>k<N. (?g(i := ?g i + 3)) k) = (\<Sum>k<N. ?g k) + 3"
    using i(1) by (simp add: sum.remove [of "{..<N}" i])
  with put_job u show ?thesis by (simp add: pool_work_def disp_work_def)
qed (use assms in \<open>simp_all add: pool_work_def disp_work_def worker_work_def\<close>)

text \<open>A worker with a job, at hand or on its bench, can move.\<close>

lemma busy_worker_enabled:
  assumes "pool_inv N s" "running_inv N s" "\<not> ps_done s" "ps_stopping s = None" "k < N" "worker_jobs s k \<noteq> []"
  shows "\<exists>s'. pool_internal N proc False z s s'"
proof (cases "ps_bench s k")
  case Nil
  with assms(6) obtain job where "ps_worker s k = WProcess job"
    by (cases "ps_worker s k") (auto simp: worker_jobs_def)
  from Worker_Start.process [OF this] assms(5) show ?thesis unfolding pool_internal_def by blast
next
  case (Cons job rest)
  with pool_invD(4) [OF assms(1), of k] assms(2-5) have "ps_worker s k = WSelect" by (auto simp: running_inv_def)
  from Worker_Start.get_job [OF this Cons] assms(5) show ?thesis unfolding pool_internal_def by blast
qed

text \<open>A pool with work left is never stuck: some goroutine can move.\<close>

lemma internal_enabled:
  assumes "pool_inv N s" "running_inv N s" "0 < N" "\<not> ps_done s" "ps_stopping s = None"
    and "worker_jobs s i \<noteq> [] \<and> i < N \<or> disp_jobs s \<noteq> [] \<or> ps_recv s \<noteq> []"
  shows "\<exists>s'. pool_internal N proc False z s s'"
proof -
  note I = pool_invD [OF assms(1)] and R = assms(2) [unfolded running_inv_def, rule_format, OF conjI, OF assms(4,5)]
  note wrk = busy_worker_enabled [OF assms(1,2,4,5), of _ proc z]
  show ?thesis
  proof (cases "ps_disp s")
    case DSelect
    show ?thesis
    proof (cases "ps_recv s")
      case Nil
      with DSelect assms(6) wrk show ?thesis by (auto simp: disp_jobs_def)
    next
      case (Cons job rest)
      from Dispatch.receive [OF DSelect this] show ?thesis unfolding pool_internal_def by blast
    qed
  next
    case (DHasJob job)
    show ?thesis
    proof (cases "ps_pool s")
      case (Cons k rest)
      from Dispatch.take_bench [OF DHasJob this] show ?thesis unfolding pool_internal_def by blast
    next
      case Nil
      show ?thesis
      proof (cases "worker_jobs s 0 = []")
        case True
        with R assms(3) DHasJob Nil have "ps_worker s 0 = WOffer"
          by (cases "ps_worker s 0") (auto simp: worker_jobs_def)
        from Worker_Start.offer [OF this] Nil assms(3)
        have "\<exists>s'. Worker_Start N proc False 0 s s'" by (intro exI) simp
        with assms(3) show ?thesis unfolding pool_internal_def by blast
      qed (use wrk assms(3) in blast)
    qed
  next
    case (DHasBench job k)
    from I(3) [OF this] have "length (ps_bench s k) < 1" by simp
    from Dispatch.put_job [OF DHasBench this] show ?thesis unfolding pool_internal_def by blast
  qed (use R in simp)
qed

text \<open>A live pool: reachable, its context not ended, its feed open, nobody stopping it.\<close>

definition live :: "nat \<Rightarrow> ('e \<Rightarrow> 'v) \<Rightarrow> 'e \<Rightarrow> ('e, 'v) pool_state \<Rightarrow> bool" where
  "live N proc z s \<longleftrightarrow> pool_reachable N proc False z s \<and> \<not> ps_done s \<and> \<not> ps_closed s \<and> ps_stopping s = None"

lemma live_step:
  assumes "live N proc z s" "pool_internal N proc False z s s'"
  shows "live N proc z s'" "pool_work N s' < pool_work N s" "ps_entered s' = ps_entered s"
proof -
  from assms(2) have "pool_step N proc False z s s'"
    unfolding pool_internal_def by (auto intro: dispatch worker)
  moreover from assms have "ps_done s' = ps_done s \<and> ps_closed s' = ps_closed s \<and> ps_stopping s' = ps_stopping s \<and>
      ps_entered s' = ps_entered s"
    unfolding pool_internal_def live_def by (auto elim: Dispatch.cases Worker_Start.cases)
  ultimately show "live N proc z s'" "ps_entered s' = ps_entered s"
    using assms(1) by (auto simp: live_def intro: reachable.step)
  from assms(1) have "pool_inv N s" "running_inv N s" "\<not> ps_done s" "\<not> ps_closed s" "ps_stopping s = None"
    by (auto simp: live_def dest: pool.holds run.holds)
  with assms(2) show "pool_work N s' < pool_work N s"
    unfolding pool_internal_def by (auto intro: Dispatch_work Worker_work)
qed

lemma live_run:
  "(pool_internal N proc False z ^^ n) s s' \<Longrightarrow> live N proc z s \<Longrightarrow>
     live N proc z s' \<and> n + pool_work N s' \<le> pool_work N s \<and> ps_entered s' = ps_entered s"
proof (induction n arbitrary: s')
  case (Suc n)
  from Suc.prems(1) obtain t where t: "(pool_internal N proc False z ^^ n) s t" "pool_internal N proc False z t s'" by auto
  from Suc.IH [OF t(1) Suc.prems(2)] live_step [OF _ t(2)] show ?case by fastforce
qed simp


text \<open>From the busy pool: the worker ends its job, offers its bench, and the second job is served.\<close>

lemma busy_pool_runs: "(pool_internal 1 Suc False 0 ^^ 1) busy_pool
    (busy_pool\<lparr>ps_worker := (\<lambda>i. WOffer), ps_processed := [7]\<rparr>)"
proof -
  have "Worker_Start 1 Suc False 0 busy_pool (busy_pool\<lparr>ps_worker := (\<lambda>i. WOffer), ps_processed := [7]\<rparr>)"
    using Worker_Start.process [of busy_pool 0 7 1 Suc False] by (simp add: busy_pool_def fun_upd_idem)
  then show ?thesis unfolding pool_internal_def by auto
qed


subsection \<open>Stopping\<close>

text \<open>A worker that has returned, and a \<open>Stop\<close> that has not got past it.\<close>

definition not_past :: "nat \<Rightarrow> ('e, 'v) pool_state \<Rightarrow> bool" where
  "not_past i s \<longleftrightarrow> ps_worker s i = WReturned \<and> (\<forall>j. ps_stopping s = Some j \<longrightarrow> j \<le> i)"

lemma not_past_step: "not_past i s \<Longrightarrow> pool_step N proc cap z s s' \<Longrightarrow> not_past i s'"
proof (erule pool_step.cases)
  fix t t' assume n: "not_past i s" and eq: "s = t" "s' = t'"
  show "Dispatch z t t' \<Longrightarrow> not_past i s'" using n eq by (auto simp: not_past_def elim!: Dispatch.cases)
  show "Worker_Start N proc cap k t t' \<Longrightarrow> not_past i s'" for k
    using n eq by (auto simp: not_past_def elim!: Worker_Start.cases)
  show "surroundings t t' \<Longrightarrow> not_past i s'" using n eq by (auto simp: not_past_def elim!: surroundings.cases)
  assume "WorkerPool_Stop N t t'"
  then show "not_past i s'"
  proof cases
    case (stop_worker j)
    with n eq have "j \<le> i" "j \<noteq> i" by (auto simp: not_past_def)
    with stop_worker n eq show ?thesis by (simp add: not_past_def)
  qed (use n eq in \<open>simp add: not_past_def\<close>)
qed

interpretation past: stable "pool_step N proc cap z" "not_past i" for N proc cap z i
  by unfold_locales (rule not_past_step)

text \<open>
  C31.  Stopping a pool needs workers that still wait: \<open>Stop\<close> sends on the unbuffered quit channel of every
  worker, and once a worker has returned because the context ended, a \<open>Stop\<close> that has not reached it
  yet, or has not begun, never gets past it, whatever happens.  The brokers call \<open>Stop\<close> when the
  context has ended.
\<close>

theorem Stop_waits_for_ever:
  assumes "reachable (pool_step poolSize proc captureResult zero) s s'" "i < poolSize"
    and "ps_worker s i = WReturned" "ps_stopping s = None \<or> the (ps_stopping s) \<le> i"
  shows "ps_stopping s' \<noteq> Some poolSize \<and> ps_worker s' i = WReturned"
proof -
  from assms(3,4) have "not_past i s" by (auto simp: not_past_def)
  from past.stays [OF assms(1) this] assms(2) show ?thesis by (auto simp: not_past_def)
qed

text \<open>The context of an idle pool of one ends, the worker takes that branch, and \<open>Stop\<close> begins.\<close>

definition ended_pool :: "(nat, nat) pool_state" where
  "ended_pool = NewWorkerPool\<lparr>ps_done := True, ps_pool := [0], ps_worker := (\<lambda>i. WOffer)(0 := WReturned)\<rparr>"

lemma ended_pool_reachable: "pool_reachable 1 Suc False 0 ended_pool"
proof -
  let ?S = "pool_step 1 Suc False (0 :: nat)"
  let ?w = "NewWorkerPool\<lparr>ps_pool := [0], ps_worker := (\<lambda>i. WOffer)(0 := WSelect)\<rparr> :: (nat, nat) pool_state"
  have "?S NewWorkerPool ?w"
    using pool_step.worker [OF _ Worker_Start.offer [of NewWorkerPool 0 1 Suc False]] by (simp add: NewWorkerPool_def)
  from reachable.step [where step = ?S, OF reachable.start this]
  have "pool_reachable 1 Suc False 0 (?w\<lparr>ps_done := True\<rparr>)"
    by (rule reachable.step) (intro pool_step.outside surroundings.end_context)
  moreover have "?S (?w\<lparr>ps_done := True\<rparr>) ended_pool"
    using pool_step.worker [OF _ Worker_Start.select_done [of "?w\<lparr>ps_done := True\<rparr>" 0 1 Suc False]]
    by (simp add: NewWorkerPool_def ended_pool_def)
  ultimately show ?thesis by (rule reachable.step)
qed

theorem Stop_waits_for_ever_witness:
  "pool_reachable 1 Suc False 0 ended_pool \<and>
   (\<exists>s'. reachable (pool_step 1 Suc False 0) ended_pool s' \<and> ps_stopping s' = Some 0 \<and> ps_worker s' 0 = WReturned)"
proof -
  have "pool_step 1 Suc False 0 ended_pool (ended_pool\<lparr>ps_stopping := Some 0\<rparr>)"
    by (intro pool_step.stop WorkerPool_Stop.stop_begin) (simp add: ended_pool_def NewWorkerPool_def)
  from reachable.step [where step = "pool_step 1 Suc False 0", OF reachable.start this]
  have r: "reachable (pool_step 1 Suc False 0) ended_pool (ended_pool\<lparr>ps_stopping := Some 0\<rparr>)" .
  from Stop_waits_for_ever [OF r, of 0] have "ps_worker (ended_pool\<lparr>ps_stopping := Some 0\<rparr>) 0 = WReturned"
    by (simp add: ended_pool_def NewWorkerPool_def)
  with r ended_pool_reachable show ?thesis by (intro conjI exI [of _ "ended_pool\<lparr>ps_stopping := Some 0\<rparr>"]) simp_all
qed

end
