(* ===== verification/Merging.thy ===== *)
theory Merging
  imports WorkerPool "HOL-Library.Sublist"
begin

text \<open>
  \<open>Merge\<close> of \<open>pkg/workerpool/workerpool.go\<close>: one goroutine per channel forwards what it receives to
  \<open>out\<close>, and one more closes \<open>out\<close> when all of them are done.  \<open>out\<close> is a channel of the capacity \<open>cap\<close> its
  owner gave it (0 when it is not buffered): a send waits for room or for a reader that is waiting.
  Each value is kept with the number of the channel it came from; \<open>mg_got\<close>, what the reader has
  received, and \<open>mg_in\<close>, what was ever put on a channel, only record.  The channels that are merged are
  filled by their owners whenever they like.
\<close>

datatype 'v forwarder = FReceive | FSend 'v | FDone

text \<open>The reader of \<open>out\<close>: not at the channel, waiting for a value, or past the end of the channel.\<close>

datatype reader = RAway | RWaiting | RDone

record 'v merge_state =
  mg_chan :: "nat \<Rightarrow> 'v list"
  mg_closed :: "nat \<Rightarrow> bool"
  mg_fwd :: "nat \<Rightarrow> 'v forwarder"
  mg_out :: "(nat \<times> 'v) list"
  mg_out_closed :: bool
  mg_reader :: reader
  mg_got :: "(nat \<times> 'v) list"
  mg_cancelled :: bool
  mg_in :: "nat \<Rightarrow> 'v list"

definition merge_start :: "'v merge_state" where
  "merge_start = \<lparr>mg_chan = (\<lambda>i. []), mg_closed = (\<lambda>i. False), mg_fwd = (\<lambda>i. FReceive), mg_out = [],
     mg_out_closed = False, mg_reader = RAway, mg_got = [], mg_cancelled = False, mg_in = (\<lambda>i. [])\<rparr>"

subsection \<open>Steps\<close>

text \<open>The goroutines of \<open>Merge\<close> over \<open>n\<close> channels; with no channel it returns at once and starts none.\<close>

inductive Merge :: "nat \<Rightarrow> nat \<Rightarrow> 'v merge_state \<Rightarrow> 'v merge_state \<Rightarrow> bool" for cap n where
  recv: "i < n \<Longrightarrow> mg_fwd s i = FReceive \<Longrightarrow> mg_chan s i = v # rest \<Longrightarrow>
     Merge cap n s (s\<lparr>mg_fwd := (mg_fwd s)(i := FSend v), mg_chan := (mg_chan s)(i := rest)\<rparr>)"
| recv_end: "i < n \<Longrightarrow> mg_fwd s i = FReceive \<Longrightarrow> mg_chan s i = [] \<Longrightarrow> mg_closed s i \<Longrightarrow>
     Merge cap n s (s\<lparr>mg_fwd := (mg_fwd s)(i := FDone)\<rparr>)"
| send_buffer: "i < n \<Longrightarrow> mg_fwd s i = FSend v \<Longrightarrow> mg_reader s \<noteq> RWaiting \<Longrightarrow> length (mg_out s) < cap \<Longrightarrow>
     Merge cap n s (s\<lparr>mg_fwd := (mg_fwd s)(i := FReceive), mg_out := mg_out s @ [(i, v)]\<rparr>)"
| send_reader: "i < n \<Longrightarrow> mg_fwd s i = FSend v \<Longrightarrow> mg_reader s = RWaiting \<Longrightarrow> mg_out s = [] \<Longrightarrow>
     Merge cap n s (s\<lparr>mg_fwd := (mg_fwd s)(i := FReceive), mg_got := mg_got s @ [(i, v)], mg_reader := RAway\<rparr>)"
| send_cancelled: "i < n \<Longrightarrow> mg_fwd s i = FSend v \<Longrightarrow> mg_cancelled s \<Longrightarrow>
     Merge cap n s (s\<lparr>mg_fwd := (mg_fwd s)(i := FDone)\<rparr>)"
| close_out: "0 < n \<Longrightarrow> (\<forall>i<n. mg_fwd s i = FDone) \<Longrightarrow> \<not> mg_out_closed s \<Longrightarrow>
     Merge cap n s (s\<lparr>mg_out_closed := True\<rparr>)"

text \<open>A reader that ranges over \<open>out\<close>.\<close>

inductive merge_reader :: "'v merge_state \<Rightarrow> 'v merge_state \<Rightarrow> bool" where
  take: "mg_reader s = RAway \<Longrightarrow> mg_out s = v # rest \<Longrightarrow>
     merge_reader s (s\<lparr>mg_out := rest, mg_got := mg_got s @ [v]\<rparr>)"
| wait: "mg_reader s = RAway \<Longrightarrow> mg_out s = [] \<Longrightarrow> \<not> mg_out_closed s \<Longrightarrow> merge_reader s (s\<lparr>mg_reader := RWaiting\<rparr>)"
| ended: "mg_reader s \<noteq> RDone \<Longrightarrow> mg_out s = [] \<Longrightarrow> mg_out_closed s \<Longrightarrow> merge_reader s (s\<lparr>mg_reader := RDone\<rparr>)"

text \<open>The owners of the channels and of the context.\<close>

inductive merge_owners :: "'v merge_state \<Rightarrow> 'v merge_state \<Rightarrow> bool" where
  put: "\<not> mg_closed s i \<Longrightarrow>
     merge_owners s (s\<lparr>mg_chan := (mg_chan s)(i := mg_chan s i @ [v]), mg_in := (mg_in s)(i := mg_in s i @ [v])\<rparr>)"
| close_chan: "merge_owners s (s\<lparr>mg_closed := (mg_closed s)(i := True)\<rparr>)"
| cancel: "merge_owners s (s\<lparr>mg_cancelled := True\<rparr>)"

definition merge_run :: "nat \<Rightarrow> nat \<Rightarrow> 'v merge_state \<Rightarrow> 'v merge_state \<Rightarrow> bool" where
  "merge_run cap n s s' \<longleftrightarrow> Merge cap n s s' \<or> merge_reader s s'"

definition merge_step :: "nat \<Rightarrow> nat \<Rightarrow> 'v merge_state \<Rightarrow> 'v merge_state \<Rightarrow> bool" where
  "merge_step cap n s s' \<longleftrightarrow> merge_run cap n s s' \<or> merge_owners s s'"

inductive_cases MergeE: "Merge cap n s s'"
inductive_cases merge_readerE: "merge_reader s s'"
inductive_cases merge_ownersE: "merge_owners s s'"

subsection \<open>The invariant\<close>

text \<open>What \<open>out\<close> took from channel \<open>i\<close>, and what its forwarder holds.\<close>

definition from_chan :: "nat \<Rightarrow> (nat \<times> 'v) list \<Rightarrow> 'v list" where
  "from_chan i ps = map snd (filter (\<lambda>p. fst p = i) ps)"

lemma from_chan_simps [simp]:
  "from_chan i [] = []" "from_chan i (ps @ qs) = from_chan i ps @ from_chan i qs"
  "from_chan i (p # ps) = (if fst p = i then [snd p] else []) @ from_chan i ps"
  by (simp_all add: from_chan_def)

definition forwarded :: "'v merge_state \<Rightarrow> nat \<Rightarrow> 'v list" where
  "forwarded s i = from_chan i (mg_got s) @ from_chan i (mg_out s)"

definition lane_held :: "'v merge_state \<Rightarrow> nat \<Rightarrow> 'v list" where
  "lane_held s i = (case mg_fwd s i of FSend v \<Rightarrow> [v] | _ \<Rightarrow> [])"

definition lane_ok :: "'v merge_state \<Rightarrow> nat \<Rightarrow> bool" where
  "lane_ok s i \<longleftrightarrow>
     (if mg_fwd s i = FDone
      then prefix (forwarded s i) (mg_in s i) \<and> (mg_cancelled s \<or> mg_closed s i \<and> forwarded s i = mg_in s i)
      else mg_in s i = forwarded s i @ lane_held s i @ mg_chan s i)"

definition out_ok :: "nat \<Rightarrow> nat \<Rightarrow> 'v merge_state \<Rightarrow> bool" where
  "out_ok cap n s \<longleftrightarrow> length (mg_out s) \<le> cap \<and> (mg_out_closed s \<longrightarrow> 0 < n \<and> (\<forall>i<n. mg_fwd s i = FDone)) \<and>
     (mg_reader s = RWaiting \<longrightarrow> mg_out s = []) \<and> (mg_reader s = RDone \<longrightarrow> mg_out s = [] \<and> mg_out_closed s)"

definition merge_inv :: "nat \<Rightarrow> nat \<Rightarrow> 'v merge_state \<Rightarrow> bool" where
  "merge_inv cap n s \<longleftrightarrow> (\<forall>i. lane_ok s i) \<and> out_ok cap n s"

lemma lane_ok_step: "merge_step cap n s s' \<Longrightarrow> lane_ok s k \<Longrightarrow> lane_ok s' k"
  unfolding merge_step_def merge_run_def
  by (elim disjE MergeE merge_readerE merge_ownersE) (auto simp: lane_ok_def forwarded_def lane_held_def split: if_splits)

lemma out_ok_step: "merge_step cap n s s' \<Longrightarrow> out_ok cap n s \<Longrightarrow> out_ok cap n s'"
  unfolding merge_step_def merge_run_def
  by (elim disjE MergeE merge_readerE merge_ownersE) (auto simp: out_ok_def)

interpretation merged: invariant "merge_step cap n" "merge_inv cap n" merge_start for cap n
  by unfold_locales (auto simp: merge_inv_def lane_ok_step out_ok_step,
      simp_all add: lane_ok_def out_ok_def merge_start_def forwarded_def lane_held_def)

subsection \<open>Work left\<close>

definition lane_work :: "'v merge_state \<Rightarrow> nat \<Rightarrow> nat" where
  "lane_work s i = 3 * length (mg_chan s i) + (case mg_fwd s i of FReceive \<Rightarrow> 1 | FSend v \<Rightarrow> 3 | FDone \<Rightarrow> 0)"

definition out_work :: "'v merge_state \<Rightarrow> nat" where
  "out_work s = length (mg_out s) + (case mg_reader s of RAway \<Rightarrow> 2 | RWaiting \<Rightarrow> 1 | RDone \<Rightarrow> 0) + (if mg_out_closed s then 0 else 1)"

definition merge_work :: "nat \<Rightarrow> 'v merge_state \<Rightarrow> nat" where
  "merge_work n s = (\<Sum>i<n. lane_work s i) + out_work s"

text \<open>A step of one lane pays for what it adds to \<open>out\<close>.\<close>

lemma lane_pays:
  assumes "i < n" "\<And>j. j \<noteq> i \<Longrightarrow> lane_work s' j = lane_work s j" "lane_work s' i + out_work s' < lane_work s i + out_work s"
  shows "merge_work n s' < merge_work n s"
proof -
  let ?rest = "\<lambda>t. \<Sum>j\<in>{..<n} - {i}. lane_work t j"
  have "(\<Sum>j<n. lane_work t j) = lane_work t i + ?rest t" for t
    using assms(1) by (intro sum.remove) auto
  from this [of s] this [of s'] have "merge_work n s' = lane_work s' i + ?rest s' + out_work s'"
    "merge_work n s = lane_work s i + ?rest s + out_work s" by (simp_all add: merge_work_def)
  moreover have "?rest s' = ?rest s" using assms(2) by (intro sum.cong) auto
  ultimately show ?thesis using assms(3) by simp
qed

lemma Merge_work: "Merge cap n s s' \<Longrightarrow> merge_work n s' < merge_work n s"
proof (erule MergeE)
  assume "s' = s\<lparr>mg_out_closed := True\<rparr>" "\<not> mg_out_closed s"
  then show ?thesis by (simp add: merge_work_def lane_work_def out_work_def)
qed (rule lane_pays, assumption, simp_all add: lane_work_def out_work_def)+

lemma merge_run_work: "merge_run cap n s s' \<Longrightarrow> merge_work n s' < merge_work n s"
  unfolding merge_run_def
proof (erule disjE)
  assume "merge_reader s s'"
  then show ?thesis by (rule merge_readerE) (auto simp: merge_work_def lane_work_def out_work_def split: reader.splits)
qed (rule Merge_work)

lemma run_bounded: "(merge_run cap n ^^ k) s s' \<Longrightarrow> k + merge_work n s' \<le> merge_work n s"
proof (induction k arbitrary: s')
  case (Suc k)
  then obtain t where "(merge_run cap n ^^ k) s t" "merge_run cap n t s'" by auto
  from Suc.IH [OF this(1)] merge_run_work [OF this(2)] show ?case by simp
qed simp

lemma run_keeps: "(merge_run cap n ^^ k) s s' \<Longrightarrow> mg_closed s' = mg_closed s \<and> mg_cancelled s' = mg_cancelled s \<and> mg_in s' = mg_in s"
proof (induction k arbitrary: s')
  case (Suc k)
  then obtain t where "(merge_run cap n ^^ k) s t" "merge_run cap n t s'" by auto
  from this(2) Suc.IH [OF this(1)] show ?case unfolding merge_run_def by (elim disjE MergeE merge_readerE) simp_all
qed simp

lemma run_reachable:
  "(merge_run cap n ^^ k) s s' \<Longrightarrow> reachable (merge_step cap n) merge_start s \<Longrightarrow> reachable (merge_step cap n) merge_start s'"
proof (induction k arbitrary: s')
  case (Suc k)
  then obtain t where "(merge_run cap n ^^ k) s t" "merge_run cap n t s'" by auto
  with Suc.IH Suc.prems(2) show ?case by (auto simp: merge_step_def intro: reachable.step)
qed simp

text \<open>With a reader at \<open>out\<close>, a forwarder that is not done can go on.\<close>

lemma Merge_enabled:
  assumes "0 < n" "\<forall>i<n. mg_closed s i" "\<not> mg_out_closed s" "mg_reader s = RWaiting" "mg_out s = []"
  shows "\<exists>s'. Merge cap n s s'"
proof (cases "\<forall>i<n. mg_fwd s i = FDone")
  case True
  from Merge.close_out [OF assms(1) this assms(3)] show ?thesis by blast
next
  case False
  then obtain i where i: "i < n" "mg_fwd s i \<noteq> FDone" by blast
  show ?thesis
  proof (cases "mg_fwd s i")
    case FReceive
    then show ?thesis
      using Merge.recv [of i n s] Merge.recv_end [of i n s] i(1) assms(2) by (cases "mg_chan s i") blast+
  next
    case (FSend v)
    from Merge.send_reader [OF i(1) FSend assms(4,5)] show ?thesis by blast
  qed (use i in auto)
qed

lemma run_enabled:
  assumes "0 < n" "\<forall>i<n. mg_closed s i" "out_ok cap n s" "mg_reader s \<noteq> RDone"
  shows "\<exists>s'. merge_run cap n s s'"
proof (cases "mg_reader s")
  case RAway
  then show ?thesis
    using merge_reader.take [of s] merge_reader.wait [of s] merge_reader.ended [of s] unfolding merge_run_def
    by (cases "mg_out s"; cases "mg_out_closed s") (simp, blast)+
next
  case RWaiting
  then have "mg_out s = []" using assms(3) by (simp add: out_ok_def)
  with RWaiting show ?thesis
    using Merge_enabled [OF assms(1,2), of cap] merge_reader.ended [of s] unfolding merge_run_def by (cases "mg_out_closed s") auto
qed (use assms(4) in simp)

text \<open>
  C21.  Merging is complete for a reader that ranges over \<open>out\<close>, whatever the capacity of \<open>out\<close>: once the
  channels are closed (the workers have returned) and while the context lives, every run of the
  goroutines of \<open>Merge\<close> and of the reader is bounded by the values still on their way, and where it can go
  no further \<open>out\<close> is closed, the reader has come to its end, and it has received, from each channel,
  exactly the values put on it and in their order.
\<close>

theorem Merge_complete:
  assumes "reachable (merge_step cap n) merge_start s" "0 < n" "\<forall>i<n. mg_closed s i" "\<not> mg_cancelled s"
    and "(merge_run cap n ^^ k) s s'"
  shows "k \<le> merge_work n s \<and>
    (if mg_reader s' = RDone then mg_out_closed s' \<and> (\<forall>i<n. from_chan i (mg_got s') = mg_in s i \<and> mg_fwd s' i = FDone)
     else \<exists>s''. merge_run cap n s' s'')"
proof -
  note r = run_reachable [OF assms(5,1)] and kept = run_keeps [OF assms(5)]
  from merged.holds [OF r] have lane: "lane_ok s' i" and out: "out_ok cap n s'" for i by (simp_all add: merge_inv_def)
  have "mg_out_closed s' \<and> (\<forall>i<n. from_chan i (mg_got s') = mg_in s i \<and> mg_fwd s' i = FDone)" if "mg_reader s' = RDone"
  proof -
    from out that have o: "mg_out s' = []" "mg_out_closed s'" "\<forall>i<n. mg_fwd s' i = FDone" by (auto simp: out_ok_def)
    moreover have "from_chan i (mg_got s') = mg_in s i" if "i < n" for i
      using lane [of i] o that kept assms(4) by (simp add: lane_ok_def forwarded_def)
    ultimately show ?thesis by blast
  qed
  moreover have "\<exists>s''. merge_run cap n s' s''" if "mg_reader s' \<noteq> RDone"
    using run_enabled [OF assms(2) _ out that] kept assms(3) by simp
  ultimately show ?thesis using run_bounded [OF assms(5)] by simp
qed

text \<open>Without a reader \<open>out\<close> takes no more than it has room for: a forwarder with a value then waits for the
  reader or the end of the context.\<close>

lemma Merge_waits:
  assumes "mg_fwd s i = FSend v" "mg_reader s \<noteq> RWaiting" "length (mg_out s) = cap" "\<not> mg_cancelled s" "Merge cap n s s'"
  shows "mg_fwd s' i = FSend v \<and> mg_out s' = mg_out s"
  using assms(5,1-4) by (elim MergeE) auto

text \<open>One channel with one value, closed, and merged to the end over an unbuffered channel.\<close>

definition filled :: "nat merge_state" where
  "filled = merge_start\<lparr>mg_chan := (\<lambda>i. [])(0 := [7]), mg_in := (\<lambda>i. [])(0 := [7]), mg_closed := (\<lambda>i. False)(0 := True)\<rparr>"

lemma filled_reachable: "reachable (merge_step 0 1) merge_start filled"
proof -
  let ?put = "merge_start\<lparr>mg_chan := (\<lambda>i. [])(0 := [7]), mg_in := (\<lambda>i. [])(0 := [7])\<rparr> :: nat merge_state"
  have "merge_step 0 1 merge_start ?put"
    using merge_owners.put [of merge_start 0 "7 :: nat"] by (simp add: merge_step_def merge_start_def)
  from reachable.step [where step = "merge_step 0 1", OF reachable.start this]
  show ?thesis by (rule reachable.step) (use merge_owners.close_chan [of ?put 0] in \<open>simp add: merge_step_def filled_def merge_start_def\<close>)
qed

definition emptied :: "nat merge_state" where
  "emptied = filled\<lparr>mg_chan := (\<lambda>i. []), mg_fwd := (\<lambda>i. FReceive)(0 := FDone), mg_got := [(0, 7)], mg_out_closed := True, mg_reader := RDone\<rparr>"

lemma filled_merges: "(merge_run 0 1 ^^ 6) filled emptied"
proof -
  let ?t1 = "filled\<lparr>mg_chan := (\<lambda>i. []), mg_fwd := (\<lambda>i. FReceive)(0 := FSend 7)\<rparr>"
  let ?t2 = "?t1\<lparr>mg_reader := RWaiting\<rparr>" and ?t3 = "filled\<lparr>mg_chan := (\<lambda>i. []), mg_got := [(0, 7)]\<rparr>"
  let ?t4 = "?t3\<lparr>mg_fwd := (\<lambda>i. FReceive)(0 := FDone)\<rparr>"
  let ?t5 = "?t4\<lparr>mg_out_closed := True\<rparr>"
  have "Merge 0 1 filled ?t1" using Merge.recv [of 0 1 filled 7 "[]" 0] by (simp add: filled_def merge_start_def fun_upd_idem)
  moreover have "merge_reader ?t1 ?t2" using merge_reader.wait [of ?t1] by (simp add: filled_def merge_start_def)
  moreover have "Merge 0 1 ?t2 ?t3" using Merge.send_reader [of 0 1 ?t2 7 0] by (simp add: filled_def merge_start_def fun_upd_idem)
  moreover have "Merge 0 1 ?t3 ?t4" using Merge.recv_end [of 0 1 ?t3 0] by (simp add: filled_def merge_start_def)
  moreover have "Merge 0 1 ?t4 ?t5" using Merge.close_out [of 1 ?t4 0] by (simp add: filled_def merge_start_def)
  moreover have "merge_reader ?t5 emptied" using merge_reader.ended [of ?t5] by (simp add: emptied_def filled_def merge_start_def)
  ultimately have r: "merge_run 0 1 filled ?t1" "merge_run 0 1 ?t1 ?t2" "merge_run 0 1 ?t2 ?t3" "merge_run 0 1 ?t3 ?t4"
    "merge_run 0 1 ?t4 ?t5" "merge_run 0 1 ?t5 emptied" by (simp_all add: merge_run_def)
  note go = relpowp_Suc_I [where P = "merge_run 0 1"]
  from go [OF go [OF go [OF go [OF go [OF go [OF relpowp_0_I r(1)] r(2)] r(3)] r(4)] r(5)] r(6)]
  show ?thesis by (simp add: numeral_nat)
qed

theorem Merge_complete_witness:
  "6 \<le> merge_work 1 filled \<and> mg_out_closed emptied \<and> from_chan 0 (mg_got emptied) = mg_in filled 0 \<and> mg_in filled 0 = [7]"
  using Merge_complete [OF filled_reachable _ _ _ filled_merges] by (simp add: filled_def emptied_def merge_start_def)

end
