(* ===== verification/Streams.thy ===== *)
theory Streams
  imports Queuer
begin

text \<open>
  The queue over Redis streams (\<open>pkg/queuer/redis.stream.go\<close>), the second implementation of the
  interface \<open>Queuer\<close>.  The stream commands of the client are a parameter; what the code relies on is
  \<open>redis_streams\<close>: a stream is a log, and a consumer group of it has the number of entries it was
  given.  \<open>RedisStream\<close> is an instance of the locale \<open>queuer\<close> for every topic, where a partition's
  queue is what its group was not given yet.
\<close>

subsection \<open>The client\<close>

record XMessage =
  xm_ID :: string
  xm_Values :: "string \<Rightarrow> string option"

record 'r streams =
  XGroupCreateMkStream :: "string \<Rightarrow> string \<Rightarrow> string \<Rightarrow> 'r \<Rightarrow> goerr option \<times> 'r"
  XAdd :: "string \<Rightarrow> (string \<times> string) list \<Rightarrow> 'r \<Rightarrow> goerr option \<times> 'r"
  XReadGroup :: "string \<Rightarrow> string \<Rightarrow> string list \<Rightarrow> 'r \<Rightarrow> (goerr option \<times> (string \<times> XMessage list) list) \<times> 'r"
  XAck :: "string \<Rightarrow> string \<Rightarrow> string \<Rightarrow> 'r \<Rightarrow> goerr option \<times> 'r"
  FlushDB :: "'r \<Rightarrow> goerr option \<times> 'r"

text \<open>The sentinel \<open>redis.Nil\<close> of the client.\<close>

definition redis_Nil :: goerr where "redis_Nil = ''redis: nil''"

subsection \<open>RedisStream\<close>

definition IsBusyGroup :: "goerr \<Rightarrow> bool" where
  "IsBusyGroup err = HasPrefix err ''BUSYGROUP''"

definition stream_group :: "string \<Rightarrow> string" where
  "stream_group stream = Sprintf_s ''%s-group'' [stream]"

text \<open>Both operations first create the group and go on unless that fails for another reason than that
  the group is there.\<close>

definition ensure_group :: "'r streams \<Rightarrow> string \<Rightarrow> string \<Rightarrow> 'r \<Rightarrow> goerr option \<times> 'r" where
  "ensure_group S stream grp r =
     (case XGroupCreateMkStream S stream grp ''$'' r of
        (None, r1) \<Rightarrow> (None, r1)
      | (Some err, r1) \<Rightarrow>
          (if err \<noteq> redis_Nil \<and> \<not> IsBusyGroup err
           then (Some (''failed to create consumer group '' @ grp @ '': '' @ err), r1) else (None, r1)))"

definition RedisStream_EnqueueMsg :: "'r streams \<Rightarrow> string \<Rightarrow> string \<Rightarrow> Payload \<Rightarrow> 'r \<Rightarrow> goerr option \<times> 'r" where
  "RedisStream_EnqueueMsg S topicName part data r =
     (let stream = NewTemplateString topicName [part]; grp = stream_group stream
      in case ensure_group S stream grp r of
           (Some err, r1) \<Rightarrow> (Some err, r1)
         | (None, r1) \<Rightarrow>
             (case XAdd S stream [(''message'', pl_Message data)] r1 of
                (Some err, r2) \<Rightarrow> (Some (''failed to push message to stream '' @ stream @ '': '' @ err), r2)
              | (None, r2) \<Rightarrow> (None, r2)))"

fun xadd_each :: "'r streams \<Rightarrow> string \<Rightarrow> Payload list \<Rightarrow> Payload list \<Rightarrow> 'r \<Rightarrow> Payload list \<times> 'r" where
  "xadd_each S stream failed [] r = (failed, r)"
| "xadd_each S stream failed (data # datas) r =
     (case XAdd S stream [(''message'', pl_Message data)] r of
        (Some e, r1) \<Rightarrow> xadd_each S stream (failed @ [data]) datas r1
      | (None, r1) \<Rightarrow> xadd_each S stream failed datas r1)"

definition RedisStream_EnqueueMsgs :: "'r streams \<Rightarrow> string \<Rightarrow> string \<Rightarrow> Payload list \<Rightarrow> 'r \<Rightarrow> Payload list \<times> 'r" where
  "RedisStream_EnqueueMsgs S topicName part datas r = xadd_each S (NewTemplateString topicName [part]) [] datas r"

definition RedisStream_ReadMsg :: "'r streams \<Rightarrow> string \<Rightarrow> string \<Rightarrow> string \<Rightarrow> 'r \<Rightarrow> Payload option res \<times> 'r" where
  "RedisStream_ReadMsg S topicName part consumerGroup r =
     (let stream = NewTemplateString topicName [part]; grp = stream_group stream
      in case ensure_group S stream grp r of
           (Some err, r1) \<Rightarrow> (Err err, r1)
         | (None, r1) \<Rightarrow>
             (case XReadGroup S grp consumerGroup [stream, ''>''] r1 of
                ((err, res), r2) \<Rightarrow>
                  (if err \<noteq> None \<and> err \<noteq> Some redis_Nil
                   then (Err (''failed to read from stream '' @ stream @ '': '' @ the err), r2)
                   else case res of
                          [] \<Rightarrow> (OK None, r2)
                        | (name, []) # others \<Rightarrow> (OK None, r2)
                        | (name, msg # msgs) # others \<Rightarrow>
                            (case xm_Values msg ''message'' of
                               None \<Rightarrow> (Panic TypeAssertion, r2)
                             | Some message \<Rightarrow>
                                 (case XAck S stream grp (xm_ID msg) r2 of
                                    (Some err, r3) \<Rightarrow> (Err (''failed to acknowledge message '' @ xm_ID msg @ '': '' @ err), r3)
                                  | (None, r3) \<Rightarrow>
                                      (OK (Some \<lparr>pl_Message = message, pl_Key = xm_ID msg, pl_TTL = 0\<rparr>), r3))))))"

definition RedisStream_Flush :: "'r streams \<Rightarrow> 'r \<Rightarrow> goerr option \<times> 'r" where
  "RedisStream_Flush S r = FlushDB S r"

subsection \<open>What the code relies on\<close>

text \<open>The documented behaviour of the commands over a reading of the server's state: \<open>log r s\<close> are the
  messages of stream \<open>s\<close>, and \<open>pos r s g\<close> is how many of them group \<open>g\<close> was given.  \<open>XGROUP CREATE\<close> with
  \<open>$\<close> makes a group that starts at the end and answers \<open>BUSYGROUP\<close> when there is one; \<open>XREADGROUP\<close> with
  \<open>>\<close> gives the next entry or, when there is none, nil; \<open>XACK\<close> touches neither.\<close>

definition redis_streams :: "'r streams \<Rightarrow> ('r \<Rightarrow> string \<Rightarrow> bytes list) \<Rightarrow> ('r \<Rightarrow> string \<Rightarrow> string \<Rightarrow> nat option) \<Rightarrow> bool" where
  "redis_streams S log pos \<longleftrightarrow>
     (\<forall>r s g n. pos r s g = Some n \<longrightarrow> n \<le> length (log r s)) \<and>
     (\<forall>s g r r'. XGroupCreateMkStream S s g ''$'' r = (None, r') \<longrightarrow>
        pos r s g = None \<and> log r' = log r \<and> pos r' = (pos r)(s := (pos r s)(g \<mapsto> length (log r s)))) \<and>
     (\<forall>s g r r' e. XGroupCreateMkStream S s g ''$'' r = (Some e, r') \<longrightarrow>
        e \<noteq> redis_Nil \<and> (IsBusyGroup e \<longrightarrow> pos r s g \<noteq> None \<and> log r' = log r \<and> pos r' = pos r)) \<and>
     (\<forall>s m r r'. XAdd S s [(''message'', m)] r = (None, r') \<longrightarrow>
        log r' = (log r)(s := log r s @ [m]) \<and> pos r' = pos r) \<and>
     (\<forall>s g c r r' res. XReadGroup S g c [s, ''>''] r = ((None, res), r') \<longrightarrow>
        (\<exists>n id. pos r s g = Some n \<and> n < length (log r s) \<and>
           res = [(s, [\<lparr>xm_ID = id, xm_Values = [''message'' \<mapsto> log r s ! n]\<rparr>])] \<and>
           log r' = log r \<and> pos r' = (pos r)(s := (pos r s)(g \<mapsto> Suc n)))) \<and>
     (\<forall>s g c r r' res. XReadGroup S g c [s, ''>''] r = ((Some redis_Nil, res), r') \<longrightarrow>
        res = [] \<and> pos r s g = Some (length (log r s)) \<and> log r' = log r \<and> pos r' = pos r) \<and>
     (\<forall>s g i r. log (snd (XAck S s g i r)) = log r \<and> pos (snd (XAck S s g i r)) = pos r)"

lemma streams_laws:
  assumes "redis_streams S log pos"
  shows streams_bound: "pos r s g = Some n \<Longrightarrow> n \<le> length (log r s)"
    and streams_create: "XGroupCreateMkStream S s g ''$'' r = (None, r') \<Longrightarrow>
        pos r s g = None \<and> log r' = log r \<and> pos r' = (pos r)(s := (pos r s)(g \<mapsto> length (log r s)))"
    and streams_busy: "XGroupCreateMkStream S s g ''$'' r = (Some e, r') \<Longrightarrow>
        e \<noteq> redis_Nil \<and> (IsBusyGroup e \<longrightarrow> pos r s g \<noteq> None \<and> log r' = log r \<and> pos r' = pos r)"
    and streams_add: "XAdd S s [(''message'', m)] r = (None, r') \<Longrightarrow>
        log r' = (log r)(s := log r s @ [m]) \<and> pos r' = pos r"
    and streams_read: "XReadGroup S g c [s, ''>''] r = ((None, res), r') \<Longrightarrow>
        \<exists>n id. pos r s g = Some n \<and> n < length (log r s) \<and>
           res = [(s, [\<lparr>xm_ID = id, xm_Values = [''message'' \<mapsto> log r s ! n]\<rparr>])] \<and>
           log r' = log r \<and> pos r' = (pos r)(s := (pos r s)(g \<mapsto> Suc n))"
    and streams_nil: "XReadGroup S g c [s, ''>''] r = ((Some redis_Nil, res), r') \<Longrightarrow>
        res = [] \<and> pos r s g = Some (length (log r s)) \<and> log r' = log r \<and> pos r' = pos r"
    and streams_ack: "log (snd (XAck S s g i r)) = log r \<and> pos (snd (XAck S s g i r)) = pos r"
  using assms by (simp_all add: redis_streams_def)

subsection \<open>RedisStream is a queue\<close>

text \<open>What the group of a stream was not given yet.\<close>

definition undelivered :: "('r \<Rightarrow> string \<Rightarrow> bytes list) \<Rightarrow> ('r \<Rightarrow> string \<Rightarrow> string \<Rightarrow> nat option) \<Rightarrow> string \<Rightarrow> 'r \<Rightarrow> bytes list" where
  "undelivered log pos s r = (case pos r s (stream_group s) of None \<Rightarrow> [] | Some n \<Rightarrow> drop n (log r s))"

lemma ensure_group_ready:
  assumes "redis_streams S log pos" and "ensure_group S s (stream_group s) r = (None, r')"
  shows "log r' = log r \<and> pos r' s (stream_group s) \<noteq> None \<and> undelivered log pos s r' = undelivered log pos s r"
proof (cases "fst (XGroupCreateMkStream S s (stream_group s) ''$'' r)")
  case None
  with assms(2) have "XGroupCreateMkStream S s (stream_group s) ''$'' r = (None, r')"
    by (auto simp: ensure_group_def split: prod.splits option.splits)
  from streams_create [OF assms(1) this] show ?thesis by (simp add: undelivered_def)
next
  case (Some e)
  with assms(2) have x: "XGroupCreateMkStream S s (stream_group s) ''$'' r = (Some e, r')" and "e = redis_Nil \<or> IsBusyGroup e"
    by (auto simp: ensure_group_def split: prod.splits option.splits if_splits)
  with streams_busy [OF assms(1) x] show ?thesis by (auto simp: undelivered_def)
qed

lemma stream_EnqueueMsg_adds:
  assumes "redis_streams S log pos" and "RedisStream_EnqueueMsg S topic p m r = (None, r')"
  shows "undelivered log pos (NewTemplateString topic [p]) r' = undelivered log pos (NewTemplateString topic [p]) r @ [pl_Message m]"
proof -
  let ?s = "NewTemplateString topic [p]"
  from assms(2) obtain r1 where e: "ensure_group S ?s (stream_group ?s) r = (None, r1)"
    and a: "XAdd S ?s [(''message'', pl_Message m)] r1 = (None, r')"
    by (auto simp: RedisStream_EnqueueMsg_def Let_def split: prod.splits option.splits)
  from ensure_group_ready [OF assms(1) e] obtain n where n: "pos r1 ?s (stream_group ?s) = Some n"
    and u: "undelivered log pos ?s r1 = undelivered log pos ?s r" by blast
  from streams_add [OF assms(1) a] streams_bound [OF assms(1) n] n have
    "undelivered log pos ?s r' = undelivered log pos ?s r1 @ [pl_Message m]" by (simp add: undelivered_def)
  with u show ?thesis by simp
qed

lemma stream_ReadMsg_cases:
  assumes "redis_streams S log pos" and "RedisStream_ReadMsg S topic p c r = (OK q, r')"
  shows "undelivered log pos (NewTemplateString topic [p]) r =
    (case q of None \<Rightarrow> [] | Some m \<Rightarrow> pl_Message m # undelivered log pos (NewTemplateString topic [p]) r') \<and>
    (q = None \<longrightarrow> undelivered log pos (NewTemplateString topic [p]) r' = [])"
proof -
  let ?s = "NewTemplateString topic [p]"
  obtain r1 where e: "ensure_group S ?s (stream_group ?s) r = (None, r1)" using assms(2)
    by (auto simp: RedisStream_ReadMsg_def Let_def split: prod.splits option.splits)
  obtain err res r2 where x: "XReadGroup S (stream_group ?s) c [?s, ''>''] r1 = ((err, res), r2)"
    by (metis surj_pair)
  note u = ensure_group_ready [OF assms(1) e]
  consider "err = None" | "err = Some redis_Nil" using assms(2) e x
    by (auto simp: RedisStream_ReadMsg_def Let_def split: if_splits)
  then show ?thesis
  proof cases
    case 1
    with x streams_read [OF assms(1)] obtain n i where n: "pos r1 ?s (stream_group ?s) = Some n" "n < length (log r1 ?s)"
      "res = [(?s, [\<lparr>xm_ID = i, xm_Values = [''message'' \<mapsto> log r1 ?s ! n]\<rparr>])]"
      "log r2 = log r1" "pos r2 = (pos r1)(?s := (pos r1 ?s)(stream_group ?s \<mapsto> Suc n))" by metis
    obtain ack r3 where k: "XAck S ?s (stream_group ?s) i r2 = (ack, r3)" by fastforce
    with assms(2) e x 1 n(3) have r: "ack = None" "r' = r3" "q = Some \<lparr>pl_Message = log r1 ?s ! n, pl_Key = i, pl_TTL = 0\<rparr>"
      by (auto simp: RedisStream_ReadMsg_def Let_def split: option.splits)
    with k u n streams_ack [OF assms(1), of ?s "stream_group ?s" i r2] show ?thesis by (auto simp: undelivered_def Cons_nth_drop_Suc)
  next
    case 2
    with x streams_nil [OF assms(1)] have n: "res = []" "pos r1 ?s (stream_group ?s) = Some (length (log r1 ?s))"
      "log r2 = log r1" "pos r2 = pos r1" by metis+
    with assms(2) e x 2 have "q = None" "r' = r2" by (auto simp: RedisStream_ReadMsg_def Let_def)
    with u n show ?thesis by (simp add: undelivered_def)
  qed
qed

text \<open>The interface's state: client, the two readings and the server's state.\<close>

type_synonym 'r rs_state =
  "'r streams \<times> ('r \<Rightarrow> string \<Rightarrow> bytes list) \<times> ('r \<Rightarrow> string \<Rightarrow> string \<Rightarrow> nat option) \<times> 'r"

definition rs_enq :: "string \<Rightarrow> string \<Rightarrow> Payload \<Rightarrow> 'r rs_state \<Rightarrow> goerr option \<times> 'r rs_state" where
  "rs_enq topic p m s = (case s of (S, log, pos, r) \<Rightarrow>
     (case RedisStream_EnqueueMsg S topic p m r of (e, r1) \<Rightarrow> (e, (S, log, pos, r1))))"

definition rs_rd :: "string \<Rightarrow> string \<Rightarrow> string \<Rightarrow> 'r rs_state \<Rightarrow> Payload option res \<times> 'r rs_state" where
  "rs_rd topic c p s = (case s of (S, log, pos, r) \<Rightarrow>
     (case RedisStream_ReadMsg S topic p c r of (q, r1) \<Rightarrow> (q, (S, log, pos, r1))))"

definition rs_view :: "string \<Rightarrow> 'r rs_state \<Rightarrow> string \<Rightarrow> bytes list" where
  "rs_view topic s p = (case s of (S, log, pos, r) \<Rightarrow> undelivered log pos (NewTemplateString topic [p]) r)"

definition rs_inv :: "'r rs_state \<Rightarrow> bool" where
  "rs_inv s = (case s of (S, log, pos, r) \<Rightarrow> redis_streams S log pos)"

interpretation rs: queuer "rs_enq topic" "rs_rd topic c" "rs_view topic" rs_inv for topic c
proof
  fix s s' :: "'r rs_state" and p m e
  show "rs_inv s \<Longrightarrow> rs_enq topic p m s = (e, s') \<Longrightarrow> rs_inv s'"
    by (auto simp: rs_inv_def rs_enq_def split: prod.splits)
  show "rs_inv s \<Longrightarrow> rs_enq topic p m s = (None, s') \<Longrightarrow> rs_view topic s' p = rs_view topic s p @ [pl_Message m]"
    by (auto simp: rs_inv_def rs_enq_def rs_view_def dest: stream_EnqueueMsg_adds split: prod.splits)
next
  fix s s' :: "'r rs_state" and p r m
  show "rs_inv s \<Longrightarrow> rs_rd topic c p s = (r, s') \<Longrightarrow> rs_inv s'"
    by (auto simp: rs_inv_def rs_rd_def split: prod.splits)
  show "rs_inv s \<Longrightarrow> rs_rd topic c p s = (OK (Some m), s') \<Longrightarrow> rs_view topic s p = pl_Message m # rs_view topic s' p"
    by (auto simp: rs_inv_def rs_rd_def rs_view_def split: prod.splits dest!: stream_ReadMsg_cases)
  show "rs_inv s \<Longrightarrow> rs_rd topic c p s = (OK None, s') \<Longrightarrow> rs_view topic s p = [] \<and> rs_view topic s' p = []"
    by (auto simp: rs_inv_def rs_rd_def rs_view_def split: prod.splits dest!: stream_ReadMsg_cases)
qed

lemma stream_enq_all_lift:
  "enq_all (rs_enq topic p) ms (S, log, pos, r) =
     map_option (\<lambda>r'. (S, log, pos, r')) (enq_all (RedisStream_EnqueueMsg S topic p) ms r)"
proof (induction ms arbitrary: r)
  case (Cons m ms)
  then show ?case
    by (cases "RedisStream_EnqueueMsg S topic p m r") (auto simp: rs_enq_def split: option.splits)
qed simp

lemma stream_read_loop_lift:
  "read_loop (rs_rd topic c p) n acc (S, log, pos, r) =
     (case read_loop (RedisStream_ReadMsg S topic p c) n acc r of (res, r') \<Rightarrow> (res, (S, log, pos, r')))"
proof (induction n arbitrary: acc r)
  case (Suc n)
  then show ?case
    by (cases "RedisStream_ReadMsg S topic p c r") (auto simp: rs_rd_def split: res.splits option.splits)
qed simp

subsection \<open>Properties\<close>

text \<open>
  C24.  The stream queue is first-in first-out: after messages were enqueued one by one without error
  onto a partition whose group has been given everything (or that has no group yet), reading as
  many times returns them in that order, whatever the topic and the reader's name, and nothing is
  left for the group.
\<close>

theorem RedisStream_fifo:
  assumes "redis_streams S log pos" and "undelivered log pos (NewTemplateString topic [p]) r = []"
    and "enq_all (RedisStream_EnqueueMsg S topic p) ms r = Some r1"
    and "read_loop (RedisStream_ReadMsg S topic p c) (length ms) [] r1 = (Some res, r2)"
  shows "map pl_Message res = map pl_Message ms \<and> undelivered log pos (NewTemplateString topic [p]) r2 = []"
proof -
  let ?s = "\<lambda>r. (S, log, pos, r)"
  have "rs_inv (?s r)" "rs_view topic (?s r) p = []" using assms(1,2) by (simp_all add: rs_inv_def rs_view_def)
  moreover have "enq_all (rs_enq topic p) ms (?s r) = Some (?s r1)" using assms(3) by (simp add: stream_enq_all_lift)
  moreover have "read_loop (rs_rd topic c p) (length ms) [] (?s r1) = (Some res, ?s r2)"
    using assms(4) by (simp add: stream_read_loop_lift)
  ultimately show ?thesis using rs.fifo [of "?s r" topic p ms "?s r1" c res "?s r2"] by (simp add: rs_view_def)
qed

lemma xadd_each_log:
  assumes "redis_streams S log pos"
  shows "xadd_each S s failed datas r = ([], r') \<Longrightarrow>
    log r' = (log r)(s := log r s @ map pl_Message datas) \<and> pos r' = pos r \<and> failed = []"
proof (induction datas arbitrary: failed r)
  case (Cons m datas)
  obtain e r1 where x: "XAdd S s [(''message'', pl_Message m)] r = (e, r1)" by fastforce
  show ?case
  proof (cases e)
    case None
    with x have "XAdd S s [(''message'', pl_Message m)] r = (None, r1)" by simp
    from streams_add [OF assms this] Cons.IH [of failed r1] Cons.prems x None show ?thesis by (auto simp: fun_eq_iff)
  next
    case (Some err)
    with Cons.IH [of "failed @ [m]" r1] Cons.prems x show ?thesis by simp
  qed
qed simp

text \<open>
  \<open>EnqueueMsgs\<close> does not create the consumer group: what it adds to a partition that has no group
  yet stays in the stream but is never given to a reader, because the group that the first \<open>ReadMsg\<close>
  creates starts behind it.
\<close>

theorem RedisStream_EnqueueMsgs_lost:
  assumes "redis_streams S log pos" and "pos r (NewTemplateString topic [p]) (stream_group (NewTemplateString topic [p])) = None"
    and "RedisStream_EnqueueMsgs S topic p datas r = ([], r1)"
  shows "log r1 (NewTemplateString topic [p]) = log r (NewTemplateString topic [p]) @ map pl_Message datas \<and>
    (\<forall>c m r2. RedisStream_ReadMsg S topic p c r1 \<noteq> (OK (Some m), r2))"
proof -
  from xadd_each_log [OF assms(1)] assms(3) have l: "log r1 (NewTemplateString topic [p]) =
      log r (NewTemplateString topic [p]) @ map pl_Message datas" "pos r1 = pos r"
    unfolding RedisStream_EnqueueMsgs_def by (metis fun_upd_same)+
  with assms(2) have "undelivered log pos (NewTemplateString topic [p]) r1 = []" by (simp add: undelivered_def)
  then have "RedisStream_ReadMsg S topic p c r1 \<noteq> (OK (Some m), r2)" for c m r2
    using stream_ReadMsg_cases [OF assms(1), of topic p c r1 "Some m" r2] by auto
  with l show ?thesis by blast
qed

subsection \<open>Instances\<close>

text \<open>A server in memory that allows one group per stream: the group, what it was given, and the rest.\<close>

type_synonym mem_streams = "string \<Rightarrow> string option \<times> bytes list \<times> bytes list"

definition mem_log :: "mem_streams \<Rightarrow> string \<Rightarrow> bytes list" where
  "mem_log r s = fst (snd (r s)) @ snd (snd (r s))"

definition mem_pos :: "mem_streams \<Rightarrow> string \<Rightarrow> string \<Rightarrow> nat option" where
  "mem_pos r s g = (if fst (r s) = Some g then Some (length (fst (snd (r s)))) else None)"

definition stream_client :: "mem_streams streams" where
  "stream_client = \<lparr>
     XGroupCreateMkStream = (\<lambda>s g start r. case r s of (None, d, u) \<Rightarrow> (None, r(s := (Some g, d @ u, [])))
        | (Some g', d, u) \<Rightarrow> (Some (if g' = g then ''BUSYGROUP'' else ''ERR one group''), r)),
     XAdd = (\<lambda>s vs r. case r s of (g, d, u) \<Rightarrow> (None, r(s := (g, d, u @ map snd vs)))),
     XReadGroup = (\<lambda>g c ss r. case r (hd ss) of (g', d, u) \<Rightarrow>
        (if g' \<noteq> Some g then ((Some ''NOGROUP'', []), r)
         else case u of [] \<Rightarrow> ((Some redis_Nil, []), r)
           | m # ms \<Rightarrow> ((None, [(hd ss, [\<lparr>xm_ID = ''1-0'', xm_Values = [''message'' \<mapsto> m]\<rparr>])]),
               r(hd ss := (g', d @ [m], ms))))),
     XAck = (\<lambda>s g i r. (None, r)),
     FlushDB = (\<lambda>r. (None, \<lambda>s. (None, [], [])))\<rparr>"

lemma stream_client_ok: "redis_streams stream_client mem_log mem_pos"
  unfolding redis_streams_def
  by (auto simp: stream_client_def mem_log_def mem_pos_def redis_Nil_def IsBusyGroup_def HasPrefix_iff
      split: prod.splits option.splits if_splits list.splits intro!: ext)

definition stream_payload :: "string \<Rightarrow> Payload" where
  "stream_payload m = \<lparr>pl_Message = m, pl_Key = [], pl_TTL = 0\<rparr>"

definition no_streams :: mem_streams where
  "no_streams = (\<lambda>s. (None, [], []))"

lemmas stream_run = RedisStream_EnqueueMsg_def RedisStream_ReadMsg_def ensure_group_def stream_client_def no_streams_def
  IsBusyGroup_def HasPrefix_iff redis_Nil_def Let_def

theorem RedisStream_fifo_witness:
  "\<exists>r1 res r2. enq_all (RedisStream_EnqueueMsg stream_client ''topic'' ''p'')
       [stream_payload ''x'', stream_payload ''y''] no_streams = Some r1 \<and>
     read_loop (RedisStream_ReadMsg stream_client ''topic'' ''p'' ''c1'') 2 [] r1 = (Some res, r2) \<and>
     map pl_Message res = [''x'', ''y'']"
proof -
  let ?ms = "[stream_payload ''x'', stream_payload ''y'']"
  have v: "undelivered mem_log mem_pos (NewTemplateString ''topic'' [''p'']) no_streams = []"
    by (simp add: undelivered_def mem_pos_def no_streams_def)
  obtain r1 where e: "enq_all (RedisStream_EnqueueMsg stream_client ''topic'' ''p'') ?ms no_streams = Some r1"
    by (simp add: stream_run)
  obtain res r2 where r: "read_loop (RedisStream_ReadMsg stream_client ''topic'' ''p'' ''c1'') (length ?ms) [] r1 = (Some res, r2)"
    using e by (auto simp: stream_run)
  from RedisStream_fifo [OF stream_client_ok v e r] e r show ?thesis
    by (auto simp: stream_payload_def numeral_2_eq_2)
qed

theorem RedisStream_EnqueueMsgs_lost_witness:
  "\<exists>r1. RedisStream_EnqueueMsgs stream_client ''topic'' ''p'' [stream_payload ''x''] no_streams = ([], r1) \<and>
     mem_log r1 (NewTemplateString ''topic'' [''p'']) = [''x''] \<and>
     (\<forall>m r2. RedisStream_ReadMsg stream_client ''topic'' ''p'' ''c1'' r1 \<noteq> (OK (Some m), r2))"
proof -
  let ?s = "NewTemplateString ''topic'' [''p'']"
  obtain r1 where run: "RedisStream_EnqueueMsgs stream_client ''topic'' ''p'' [stream_payload ''x''] no_streams = ([], r1)"
    by (simp add: RedisStream_EnqueueMsgs_def stream_client_def no_streams_def)
  have "mem_pos no_streams ?s (stream_group ?s) = None" by (simp add: mem_pos_def no_streams_def)
  from RedisStream_EnqueueMsgs_lost [OF stream_client_ok this run] run show ?thesis
    by (auto simp: mem_log_def no_streams_def stream_payload_def)
qed

end
