(* ===== verification/Users.thy ===== *)
theory Users
  imports Sample
begin

text \<open>
  Accounts (\<open>core/users/user.go\<close>, \<open>core/users/service.go\<close>, \<open>core/database/crypter.go\<close>).  The table of
  users is a list of its own, with the primary key of the schema; bcrypt is a parameter, whose hashes
  depend on the salt of the call.  Nothing in the server calls the service yet.
\<close>

subsection \<open>Passwords\<close>

record bcrypt =
  GenerateFromPassword :: "nat \<Rightarrow> string \<Rightarrow> goerr + string"
  CompareHashAndPassword :: "string \<Rightarrow> string \<Rightarrow> goerr option"

definition HashPassword :: "bcrypt \<Rightarrow> string \<Rightarrow> 'r world \<Rightarrow> (goerr + string) \<times> 'r world" where
  "HashPassword B password w = (GenerateFromPassword B (w_tick w) password, tick w)"

definition ValidPassword :: "bcrypt \<Rightarrow> string \<Rightarrow> string \<Rightarrow> bool" where
  "ValidPassword B hashedPassword password \<longleftrightarrow> CompareHashAndPassword B hashedPassword password = None"

text \<open>The documented contract of bcrypt: a hash validates the password it was made from.\<close>

definition bcrypt_ok :: "bcrypt \<Rightarrow> bool" where
  "bcrypt_ok B \<longleftrightarrow> (\<forall>salt p h. GenerateFromPassword B salt p = Inr h \<longrightarrow> CompareHashAndPassword B h p = None)"

subsection \<open>Users\<close>

record User =
  us_ID :: string
  us_Type :: string
  us_Email :: string
  us_HashedPassword :: string
  us_Timestamp :: Timestamp

definition UserTypeNormal :: string where "UserTypeNormal = ''normal''"
definition ErrIDGenerationFailed :: goerr where "ErrIDGenerationFailed = ''id_gen_failed''"
definition ErrPasswordHashFailed :: goerr where "ErrPasswordHashFailed = ''password_gen_failed''"
definition UserCreationFailed :: goerr where "UserCreationFailed = ''user_creation_failed:1001:500''"
definition CreateUserQueryKey :: string where "CreateUserQueryKey = ''CreateUserQuery''"

definition NewUser :: "'r env \<Rightarrow> bcrypt \<Rightarrow> string \<Rightarrow> string \<Rightarrow> 'r world \<Rightarrow> User res \<times> 'r world" where
  "NewUser E B email password w =
     (case NewID E w of
        (OK i, w1) \<Rightarrow>
          (case HashPassword B password w1 of
             (Inl err, w2) \<Rightarrow> (Err ErrPasswordHashFailed, w2)
           | (Inr hashedPassword, w2) \<Rightarrow>
               (case Now E w2 of (now, w3) \<Rightarrow>
                  (OK \<lparr>us_ID = i, us_Type = UserTypeNormal, us_Email = email, us_HashedPassword = hashedPassword,
                     us_Timestamp = \<lparr>ts_CreatedAt = now, ts_UpdatedAt = now\<rparr>\<rparr>, w3)))
      | (_, w1) \<Rightarrow> (Err ErrIDGenerationFailed, w1))"

text \<open>\<open>INSERT INTO users\<close>: the driver's error, or a second row with the same primary key.\<close>

definition sql_CreateUser :: "'r env \<Rightarrow> User \<Rightarrow> User list \<Rightarrow> 'r world \<Rightarrow> goerr option \<times> User list \<times> 'r world" where
  "sql_CreateUser E user users w =
     (case ext_call E w of
        (Some e, w1) \<Rightarrow> (Some e, users, w1)
      | (None, w1) \<Rightarrow>
          (if us_ID user \<in> us_ID ` set users then (Some ''UNIQUE constraint failed: users.id'', users, w1)
           else (None, users @ [user], w1)))"

definition UserService_Create ::
    "'r env \<Rightarrow> bcrypt \<Rightarrow> (string \<Rightarrow> string option) \<Rightarrow> (nat \<Rightarrow> gotime) \<Rightarrow> string \<Rightarrow> string \<Rightarrow> User list \<Rightarrow> 'r world
      \<Rightarrow> Token res \<times> User list \<times> 'r world" where
  "UserService_Create E B querier start email password users w =
     (case NewUser E B email password w of
        (OK user, w1) \<Rightarrow>
          (case querier CreateUserQueryKey of
             None \<Rightarrow> (Err ''query_retriever_failed:1002:500'', users, w1)
           | Some stmt \<Rightarrow>
               (case sql_CreateUser E user users w1 of
                  (err, users1, w2) \<Rightarrow> (OK (AdminToken start), users1, w2)))
      | (_, w1) \<Rightarrow> (Err UserCreationFailed, users, w1))"

subsection \<open>Properties\<close>

lemma NewUser_cases:
  assumes "NewUser E B email password w = (r, w')"
  shows "w_db w' = w_db w \<and> (case r of
      OK u \<Rightarrow> us_Email u = email \<and> us_Type u = UserTypeNormal \<and> e_ulid E (w_tick w) = Inr (us_ID u) \<and>
        (\<exists>salt. GenerateFromPassword B salt password = Inr (us_HashedPassword u))
    | Err e \<Rightarrow> e \<in> {ErrIDGenerationFailed, ErrPasswordHashFailed}
    | Panic p \<Rightarrow> False)"
  using assms by (auto simp: NewUser_def NewID_def HashPassword_def Now_def split: sum.splits prod.splits)

text \<open>
  Creating an account always answers with the administrator's own token, for any address and
  password, also when the row could not be inserted; it fails only when no id or hash could be made or
  the statement is missing, and then leaves the table alone.  The table never has two rows with one
  id, gets at most one row, and that row is of the given address with a hash that validates the given
  password.
\<close>

theorem UserService_Create_admin:
  assumes "UserService_Create E B querier start email password users w = (r, users', w')"
    and "bcrypt_ok B" "distinct (map us_ID users)"
  shows "(r = OK (AdminToken start) \<or> r \<in> {Err UserCreationFailed, Err ''query_retriever_failed:1002:500''} \<and> users' = users) \<and>
    distinct (map us_ID users') \<and> w_db w' = w_db w \<and>
    (users' = users \<or> (\<exists>u. users' = users @ [u] \<and> us_Email u = email \<and> us_Type u = UserTypeNormal \<and>
       ValidPassword B (us_HashedPassword u) password))"
proof -
  obtain q w1 where n: "NewUser E B email password w = (q, w1)" by fastforce
  note c = NewUser_cases [OF n]
  show ?thesis
  proof (cases q)
    case (OK u)
    with c have u: "us_Email u = email" "us_Type u = UserTypeNormal" "ValidPassword B (us_HashedPassword u) password"
      using assms(2) by (auto simp: ValidPassword_def bcrypt_ok_def)
    have "w_db w' = w_db w" using assms(1) n OK c
      by (auto simp: UserService_Create_def sql_CreateUser_def ext_call_def split: option.splits if_splits)
    with assms(1,3) n OK u show ?thesis
      by (auto simp: UserService_Create_def sql_CreateUser_def ext_call_def split: option.splits if_splits)
  qed (use assms(1,3) n c in \<open>auto simp: UserService_Create_def\<close>)
qed

definition plain_bcrypt :: bcrypt where
  "plain_bcrypt = \<lparr>GenerateFromPassword = (\<lambda>salt p. Inr (''$'' @ p)),
     CompareHashAndPassword = (\<lambda>h p. if h = ''$'' @ p then None else Some ''mismatch'')\<rparr>"

theorem UserService_Create_admin_witness:
  "\<exists>users' w'. UserService_Create (sample_env\<lparr>e_fault := (\<lambda>n. Some ''disk full'')\<rparr>) plain_bcrypt (\<lambda>k. Some ''INSERT'') (\<lambda>n. 0)
      ''a@b.c'' ''pw'' [] sample_world = (OK (AdminToken (\<lambda>n. 0)), users', w') \<and> users' = [] \<and> w_db w' = w_db sample_world"
proof -
  let ?E = "sample_env\<lparr>e_fault := (\<lambda>n. Some ''disk full'')\<rparr>"
  obtain w' where run: "UserService_Create ?E plain_bcrypt (\<lambda>k. Some ''INSERT'') (\<lambda>n. 0) ''a@b.c'' ''pw'' [] sample_world =
      (OK (AdminToken (\<lambda>n. 0)), [], w')"
    by (auto simp: UserService_Create_def NewUser_def NewID_def HashPassword_def Now_def sql_CreateUser_def ext_call_def
        plain_bcrypt_def sample_env_def)
  have "bcrypt_ok plain_bcrypt" by (simp add: bcrypt_ok_def plain_bcrypt_def)
  from UserService_Create_admin [OF run this] run show ?thesis by simp
qed

end
