(* ===== verification/Producers.thy ===== *)
theory Producers
  imports Machines Sample
begin

text \<open>
  The two producers of batches and the goroutines that feed them
  (\<open>core/supervisors/metadata.changelog.go\<close>, \<open>core/supervisors/metadata.notifier.go\<close>,
  \<open>pkg/brokers/metadata_sync_broker.go\<close>).  A producer waits for a demand, reads as many messages from
  its queue, and sends them as one batch on a channel of capacity one, which the dispatcher of a worker
  pool receives from.  Both have the same loop, \<open>Produce\<close>, over the read and the count of a demand;
  they differ in where demands come from.  The locale \<open>producer\<close> says what is needed of that, and
  both goroutines are instances.
\<close>

subsection \<open>State\<close>

datatype 'd produce_pc = PSelect | PRead 'd nat "Payload list" | PSend "Payload list" | PReturned

text \<open>The channels \<open>demandChan\<close>, \<open>demand\<close> and \<open>resultsCh\<close>, the demand that the feeding goroutine holds,
  the producer, the Redis server, and the history: demands accepted, messages that other processes
  pushed, messages the producer read, and batches the dispatcher received.\<close>

record ('d, 'r) producer_state =
  pr_demandChan :: "'d list"
  pr_forward :: "'d option"
  pr_demand :: "'d list"
  pr_pc :: "'d produce_pc"
  pr_resultsCh :: "Payload list list"
  pr_redis :: 'r
  pr_done :: bool
  pr_accepted :: "'d list"
  pr_pushed :: "(string \<times> bytes) list"
  pr_read :: "Payload list"
  pr_received :: "Payload list list"

definition NewProducer :: "'r \<Rightarrow> ('d, 'r) producer_state" where
  "NewProducer r = \<lparr>pr_demandChan = [], pr_forward = None, pr_demand = [], pr_pc = PSelect, pr_resultsCh = [], pr_redis = r,
     pr_done = False, pr_accepted = [], pr_pushed = [], pr_read = [], pr_received = []\<rparr>"

subsection \<open>Steps\<close>

text \<open>The loop of \<open>Produce\<close>; the channel is closed when the loop has returned.\<close>

inductive Produce :: "('d \<Rightarrow> 'r \<Rightarrow> Payload option res \<times> 'r) \<Rightarrow> ('d \<Rightarrow> int) \<Rightarrow>
    ('d, 'r) producer_state \<Rightarrow> ('d, 'r) producer_state \<Rightarrow> bool" for ReadMsg Count where
  take_demand: "pr_pc s = PSelect \<Longrightarrow> pr_demand s = d # rest \<Longrightarrow>
     Produce ReadMsg Count s (s\<lparr>pr_pc := PRead d 0 [], pr_demand := rest\<rparr>)"
| read_payload: "pr_pc s = PRead d i results \<Longrightarrow> int i < Count d \<Longrightarrow> ReadMsg d (pr_redis s) = (OK (Some payload), r) \<Longrightarrow>
     Produce ReadMsg Count s (s\<lparr>pr_pc := PRead d (Suc i) (results @ [payload]), pr_redis := r, pr_read := pr_read s @ [payload]\<rparr>)"
| read_nil: "pr_pc s = PRead d i results \<Longrightarrow> int i < Count d \<Longrightarrow> ReadMsg d (pr_redis s) = (OK None, r) \<Longrightarrow>
     Produce ReadMsg Count s (s\<lparr>pr_pc := PRead d (Suc i) results, pr_redis := r\<rparr>)"
| read_err: "pr_pc s = PRead d i results \<Longrightarrow> int i < Count d \<Longrightarrow> ReadMsg d (pr_redis s) = (Err e, r) \<Longrightarrow>
     Produce ReadMsg Count s (s\<lparr>pr_pc := PReturned, pr_redis := r\<rparr>)"
| read_all: "pr_pc s = PRead d i results \<Longrightarrow> \<not> int i < Count d \<Longrightarrow> Produce ReadMsg Count s (s\<lparr>pr_pc := PSend results\<rparr>)"
| send_results: "pr_pc s = PSend results \<Longrightarrow> length (pr_resultsCh s) < 1 \<Longrightarrow>
     Produce ReadMsg Count s (s\<lparr>pr_pc := PSelect, pr_resultsCh := pr_resultsCh s @ [results]\<rparr>)"
| produce_done: "pr_pc s = PSelect \<Longrightarrow> pr_done s \<Longrightarrow> Produce ReadMsg Count s (s\<lparr>pr_pc := PReturned\<rparr>)"

text \<open>The feeding goroutine of \<open>FileUpdateSyncBroker.Start\<close>: \<open>HandleDemand\<close> of some connection puts a
  demand on \<open>demandChan\<close>, and the goroutine takes it to hand it on.\<close>

inductive FileUpdateSyncBroker_Start :: "('d, 'r) producer_state \<Rightarrow> ('d, 'r) producer_state \<Rightarrow> bool" where
  handle_demand: "length (pr_demandChan s) < 1 \<Longrightarrow>
     FileUpdateSyncBroker_Start s (s\<lparr>pr_demandChan := pr_demandChan s @ [demand], pr_accepted := pr_accepted s @ [demand]\<rparr>)"
| forward_take: "pr_forward s = None \<Longrightarrow> pr_demandChan s = demand # rest \<Longrightarrow>
     FileUpdateSyncBroker_Start s (s\<lparr>pr_demandChan := rest, pr_forward := Some demand\<rparr>)"

text \<open>The ticker of \<open>MetadataSupervisor\<close> demands one message every two seconds.\<close>

inductive MetadataSupervisor_ticker :: "(int, 'r) producer_state \<Rightarrow> (int, 'r) producer_state \<Rightarrow> bool" where
  tick_demand: "pr_forward s = None \<Longrightarrow>
     MetadataSupervisor_ticker s (s\<lparr>pr_forward := Some 1, pr_accepted := pr_accepted s @ [1]\<rparr>)"

text \<open>Everything that happens around a producer: a feeding step; \<open>Demand\<close>, which hands the demand over
  when the channel has room; the loop; the dispatcher receiving a batch, or the nil batch of the closed
  channel; another process pushing a message; the end of the context.\<close>

inductive producer_step :: "(('d, 'r) producer_state \<Rightarrow> ('d, 'r) producer_state \<Rightarrow> bool) \<Rightarrow> 'r redis \<Rightarrow>
    ('d \<Rightarrow> 'r \<Rightarrow> Payload option res \<times> 'r) \<Rightarrow> ('d \<Rightarrow> int) \<Rightarrow> ('d, 'r) producer_state \<Rightarrow> ('d, 'r) producer_state \<Rightarrow> bool"
  for feed R ReadMsg Count where
  feeds: "feed s s' \<Longrightarrow> producer_step feed R ReadMsg Count s s'"
| Demand: "pr_forward s = Some d \<Longrightarrow> length (pr_demand s) < 1 \<Longrightarrow>
     producer_step feed R ReadMsg Count s (s\<lparr>pr_forward := None, pr_demand := pr_demand s @ [d]\<rparr>)"
| produces: "Produce ReadMsg Count s s' \<Longrightarrow> producer_step feed R ReadMsg Count s s'"
| receives: "pr_resultsCh s = results # rest \<Longrightarrow>
     producer_step feed R ReadMsg Count s (s\<lparr>pr_resultsCh := rest, pr_received := pr_received s @ [results]\<rparr>)"
| receives_closed: "pr_resultsCh s = [] \<Longrightarrow> pr_pc s = PReturned \<Longrightarrow>
     producer_step feed R ReadMsg Count s (s\<lparr>pr_received := pr_received s @ [[]]\<rparr>)"
| pushes: "RPush R q m (pr_redis s) = (None, r) \<Longrightarrow>
     producer_step feed R ReadMsg Count s (s\<lparr>pr_redis := r, pr_pushed := pr_pushed s @ [(q, m)]\<rparr>)"
| cancels: "producer_step feed R ReadMsg Count s (s\<lparr>pr_done := True\<rparr>)"

record Demand =
  dm_Count :: int
  dm_UserID :: string

definition notifier_step :: "'r redis \<Rightarrow> (Demand, 'r) producer_state \<Rightarrow> (Demand, 'r) producer_state \<Rightarrow> bool" where
  "notifier_step R = producer_step FileUpdateSyncBroker_Start R
     (\<lambda>d. RedisQ_ReadMsg R MetadataUpdateClientsNotifierQueue (dm_UserID d)) dm_Count"

definition changelog_step :: "'r redis \<Rightarrow> (int, 'r) producer_state \<Rightarrow> (int, 'r) producer_state \<Rightarrow> bool" where
  "changelog_step R = producer_step MetadataSupervisor_ticker R (\<lambda>d. RedisQ_ReadMsg R MetadataFileUpdateQueue []) (\<lambda>d. d)"

subsection \<open>What a producer guarantees\<close>

definition in_flight :: "'d produce_pc \<Rightarrow> Payload list" where
  "in_flight pc = (case pc of PRead d i results \<Rightarrow> results | PSend results \<Rightarrow> results | _ \<Rightarrow> [])"

definition held :: "('d, 'r) producer_state \<Rightarrow> nat" where
  "held s = length (pr_demandChan s) + (if pr_forward s = None then 0 else 1)"

definition sent_to :: "string \<Rightarrow> (string \<times> bytes) list \<Rightarrow> bytes list" where
  "sent_to q ms = map snd (filter (\<lambda>m. fst m = q) ms)"

definition read_from :: "string \<Rightarrow> Payload list \<Rightarrow> bytes list" where
  "read_from q ps = map pl_Message (filter (\<lambda>p. pl_Key p = q) ps)"

text \<open>Nothing is lost and nothing overtakes: what the dispatcher received, then the batch in the
  channel, then the batch in work are what was read; and per queue, what was read and what the queue
  still holds is what it held at first and what was pushed.\<close>

definition producer_inv :: "('r \<Rightarrow> string \<Rightarrow> string list) \<Rightarrow> 'r \<Rightarrow> ('d, 'r) producer_state \<Rightarrow> bool" where
  "producer_inv view r0 s \<longleftrightarrow> length (pr_demand s) \<le> 1 \<and> length (pr_resultsCh s) \<le> 1 \<and> length (pr_demandChan s) \<le> 1 \<and>
     (\<exists>lost. pr_read s = concat (pr_received s) @ concat (pr_resultsCh s) @ in_flight (pr_pc s) @ lost \<and>
        (pr_pc s \<noteq> PReturned \<longrightarrow> lost = [])) \<and>
     (pr_pc s \<noteq> PReturned \<longrightarrow>
        (\<forall>q. view r0 q @ sent_to q (pr_pushed s) = read_from q (pr_read s) @ view (pr_redis s) q))"

text \<open>Once the loop has returned it does not come back: what is received can only be what was in the
  channel, and no more demands are accepted than the channels have room for.\<close>

definition stopped_since :: "('d, 'r) producer_state \<Rightarrow> ('d, 'r) producer_state \<Rightarrow> bool" where
  "stopped_since s s' \<longleftrightarrow> pr_pc s' = PReturned \<and> pr_read s' = pr_read s \<and>
     concat (pr_received s') @ concat (pr_resultsCh s') = concat (pr_received s) @ concat (pr_resultsCh s) \<and>
     length (pr_accepted s') + held s + length (pr_demand s) = length (pr_accepted s) + held s' + length (pr_demand s') \<and>
     length (pr_demandChan s') \<le> 1 \<and> length (pr_demand s') \<le> 1"

lemma sent_to_simps [simp]:
  "sent_to q [] = []" "sent_to q (ms @ [(k, m)]) = sent_to q ms @ (if k = q then [m] else [])"
  by (simp_all add: sent_to_def)

lemma read_from_simps [simp]:
  "read_from q [] = []" "read_from q (p # ps) = (if pl_Key p = q then [pl_Message p] else []) @ read_from q ps"
  "read_from q (ps @ ps') = read_from q ps @ read_from q ps'"
  by (simp_all add: read_from_def)

locale producer =
  fixes feed :: "('d, 'r) producer_state \<Rightarrow> ('d, 'r) producer_state \<Rightarrow> bool"
    and R :: "'r redis" and ReadMsg :: "'d \<Rightarrow> 'r \<Rightarrow> Payload option res \<times> 'r" and Count :: "'d \<Rightarrow> int"
    and view :: "'r \<Rightarrow> string \<Rightarrow> string list"
  assumes feed_fields: "feed s s' \<Longrightarrow> pr_demand s' = pr_demand s \<and> pr_pc s' = pr_pc s \<and> pr_resultsCh s' = pr_resultsCh s \<and>
      pr_redis s' = pr_redis s \<and> pr_pushed s' = pr_pushed s \<and> pr_read s' = pr_read s \<and> pr_received s' = pr_received s"
    and feed_balance: "feed s s' \<Longrightarrow> length (pr_accepted s') + held s = length (pr_accepted s) + held s'"
    and feed_bound: "feed s s' \<Longrightarrow> length (pr_demandChan s) \<le> 1 \<Longrightarrow> length (pr_demandChan s') \<le> 1"
    and read_takes: "redis_lists R view \<Longrightarrow> ReadMsg d r = (OK (Some p), r') \<Longrightarrow>
      \<exists>rest. view r (pl_Key p) = pl_Message p # rest \<and> view r' = (view r)(pl_Key p := rest)"
    and read_nothing: "redis_lists R view \<Longrightarrow> ReadMsg d r = (OK None, r') \<Longrightarrow> view r' = view r"
begin

lemma Produce_keeps:
  assumes "redis_lists R view" "producer_inv view r0 s" "Produce ReadMsg Count s s'"
  shows "producer_inv view r0 s'"
  using assms(3)
proof cases
  case (take_demand d rest)
  with assms(2) show ?thesis by (auto simp: producer_inv_def in_flight_def held_def)
next
  case (read_payload d i results payload r)
  from read_takes [OF assms(1) read_payload(4)] obtain rest where
    "view (pr_redis s) (pl_Key payload) = pl_Message payload # rest" "view r = (view (pr_redis s))(pl_Key payload := rest)" by blast
  with read_payload(1,2) assms(2) show ?thesis by (auto simp: producer_inv_def in_flight_def held_def)
next
  case (read_nil d i results r)
  with read_nothing [OF assms(1) read_nil(4)] assms(2) show ?thesis by (auto simp: producer_inv_def in_flight_def held_def)
next
  case (read_err d i results e r)
  with assms(2) show ?thesis by (auto simp: producer_inv_def in_flight_def held_def)
next
  case (read_all d i results)
  with assms(2) show ?thesis by (auto simp: producer_inv_def in_flight_def held_def)
next
  case (send_results results)
  with assms(2) show ?thesis by (auto simp: producer_inv_def in_flight_def held_def)
next
  case produce_done
  with assms(2) show ?thesis by (auto simp: producer_inv_def in_flight_def held_def)
qed

lemma step_keeps:
  assumes "redis_lists R view" "producer_inv view r0 s" "producer_step feed R ReadMsg Count s s'"
  shows "producer_inv view r0 s'"
  using assms(3)
proof cases
  case feeds
  with feed_fields [OF feeds] feed_bound [OF feeds] assms(2) show ?thesis by (simp add: producer_inv_def)
next
  case produces
  with Produce_keeps assms show ?thesis by blast
next
  case (pushes q m r)
  with redis_push [OF assms(1) pushes(2)] assms(2) show ?thesis by (auto simp: producer_inv_def held_def)
qed (use assms(2) in \<open>auto simp: producer_inv_def held_def\<close>)

lemma keeps_order:
  assumes "redis_lists R view" "reachable (producer_step feed R ReadMsg Count) (NewProducer r0) s"
  shows "producer_inv view r0 s"
  using assms(2)
proof (induction rule: reachable.induct)
  case start
  show ?case by (simp add: producer_inv_def NewProducer_def in_flight_def held_def)
next
  case (step s s')
  with step_keeps assms(1) show ?case by blast
qed

lemma stopped_step:
  assumes "stopped_since s s1" "producer_step feed R ReadMsg Count s1 s2"
  shows "stopped_since s s2"
  using assms(2)
proof cases
  case feeds
  with feed_fields [OF feeds] feed_bound [OF feeds] feed_balance [OF feeds] assms(1) show ?thesis by (simp add: stopped_since_def)
next
  case produces
  with assms(1) show ?thesis by (auto simp: stopped_since_def elim: Produce.cases)
qed (use assms(1) in \<open>auto simp: stopped_since_def held_def\<close>)

lemma stays_stopped:
  assumes "reachable (producer_step feed R ReadMsg Count) s s'" "pr_pc s = PReturned" "length (pr_demandChan s) \<le> 1" "length (pr_demand s) \<le> 1"
  shows "stopped_since s s'"
  using assms(1)
proof (induction rule: reachable.induct)
  case start
  show ?case using assms(2-4) by (simp add: stopped_since_def)
qed (rule stopped_step)

end

subsection \<open>The two producers\<close>

lemma ReadMsg_takes:
  assumes "redis_lists R view" "RedisQ_ReadMsg R topic p r = (OK (Some m), r')"
  shows "pl_Key m = NewTemplateString topic [p] \<and>
    (\<exists>rest. view r (pl_Key m) = pl_Message m # rest \<and> view r' = (view r)(pl_Key m := rest))"
  using assms
  by (auto simp: RedisQ_ReadMsg_def Let_def split: prod.splits blpop_reply.splits list.splits dest: redis_pop)

lemma ReadMsg_nothing:
  "redis_lists R view \<Longrightarrow> RedisQ_ReadMsg R topic p r = (OK None, r') \<Longrightarrow> view r' = view r"
  by (auto dest!: ReadMsg_cases)

interpretation notifier: producer FileUpdateSyncBroker_Start R
  "\<lambda>d. RedisQ_ReadMsg R MetadataUpdateClientsNotifierQueue (dm_UserID d)" "dm_Count :: Demand \<Rightarrow> int" view for R :: "'r redis" and view
proof
  fix s s' :: "(Demand, 'r) producer_state"
  assume "FileUpdateSyncBroker_Start s s'"
  then show "pr_demand s' = pr_demand s \<and> pr_pc s' = pr_pc s \<and> pr_resultsCh s' = pr_resultsCh s \<and>
      pr_redis s' = pr_redis s \<and> pr_pushed s' = pr_pushed s \<and> pr_read s' = pr_read s \<and> pr_received s' = pr_received s"
    and "length (pr_accepted s') + held s = length (pr_accepted s) + held s'"
    and "length (pr_demandChan s) \<le> 1 \<Longrightarrow> length (pr_demandChan s') \<le> 1"
    by (induction rule: FileUpdateSyncBroker_Start.induct) (auto simp: held_def)
qed (blast dest: ReadMsg_takes ReadMsg_nothing)+

interpretation changelog: producer MetadataSupervisor_ticker R
  "\<lambda>d. RedisQ_ReadMsg R MetadataFileUpdateQueue []" "\<lambda>d. d" view for R :: "'r redis" and view
proof
  fix s s' :: "(int, 'r) producer_state"
  assume "MetadataSupervisor_ticker s s'"
  then show "pr_demand s' = pr_demand s \<and> pr_pc s' = pr_pc s \<and> pr_resultsCh s' = pr_resultsCh s \<and>
      pr_redis s' = pr_redis s \<and> pr_pushed s' = pr_pushed s \<and> pr_read s' = pr_read s \<and> pr_received s' = pr_received s"
    and "length (pr_accepted s') + held s = length (pr_accepted s) + held s'"
    and "length (pr_demandChan s) \<le> 1 \<Longrightarrow> length (pr_demandChan s') \<le> 1"
    by (induction rule: MetadataSupervisor_ticker.induct) (auto simp: held_def)
qed (blast dest: ReadMsg_takes ReadMsg_nothing)+

subsection \<open>Properties\<close>

definition user_queue :: "string \<Rightarrow> string" where
  "user_queue u = NewTemplateString MetadataUpdateClientsNotifierQueue [u]"

text \<open>
  C9.  Nothing is lost or overtaken on the way to the workers: however demands, reads, receptions and the
  pushes of other processes interleave, as long as the producer runs, the messages a queue held at first
  and those pushed to it since are, in this order, the ones the dispatcher has received, the ones in the
  channel, the ones in the producer's hands and the ones the queue still holds; for every user's queue of
  the notifications and for the queue of the updates.
\<close>

theorem producers_in_order:
  assumes "redis_lists R view"
  shows "(reachable (notifier_step R) (NewProducer r0) s \<and> pr_pc s \<noteq> PReturned \<longrightarrow>
      view r0 (user_queue u) @ sent_to (user_queue u) (pr_pushed s) =
        read_from (user_queue u) (concat (pr_received s) @ concat (pr_resultsCh s) @ in_flight (pr_pc s)) @
        view (pr_redis s) (user_queue u)) \<and>
    (reachable (changelog_step R) (NewProducer r0) t \<and> pr_pc t \<noteq> PReturned \<longrightarrow>
      view r0 MetadataFileUpdateQueue @ sent_to MetadataFileUpdateQueue (pr_pushed t) =
        read_from MetadataFileUpdateQueue (concat (pr_received t) @ concat (pr_resultsCh t) @ in_flight (pr_pc t)) @
        view (pr_redis t) MetadataFileUpdateQueue)"
  using notifier.keeps_order [OF assms, of r0 s] changelog.keeps_order [OF assms, of r0 t]
  by (auto simp: notifier_step_def changelog_step_def producer_inv_def)

text \<open>The read of the notification producer, and a state in which it is the read's turn and it fails.\<close>

abbreviation read_notification :: "'r redis \<Rightarrow> Demand \<Rightarrow> 'r \<Rightarrow> Payload option res \<times> 'r" where
  "read_notification R d \<equiv> RedisQ_ReadMsg R MetadataUpdateClientsNotifierQueue (dm_UserID d)"

definition read_fails :: "'r redis \<Rightarrow> (Demand, 'r) producer_state \<Rightarrow> bool" where
  "read_fails R s \<longleftrightarrow> (\<exists>d i results e r. pr_pc s = PRead d i results \<and> int i < dm_Count d \<and>
     read_notification R d (pr_redis s) = (Err e, r))"

lemma read_fails_step:
  assumes "read_fails R s"
  shows "\<exists>s1. Produce (read_notification R) dm_Count s s1"
    and "Produce (read_notification R) dm_Count s s1 \<Longrightarrow> \<exists>r. s1 = s\<lparr>pr_pc := PReturned, pr_redis := r\<rparr>"
  using assms by (auto simp: read_fails_def intro: Produce.read_err elim: Produce.cases)

text \<open>
  C30.  One failed read ends the notifications: when it is the producer's turn to read and the read from
  Redis fails, its next step is to return (its log line says that it ignores the error), and from then on
  nothing the queues hold or get is ever read; the dispatcher gets at most the batch still in the channel
  and nil batches, and at most three more demands are accepted, so that every connection of every
  user soon waits for ever in \<open>HandleDemand\<close>.
\<close>

theorem notifier_stops_for_ever:
  assumes "redis_lists R view" "reachable (notifier_step R) (NewProducer r0) s" "read_fails R s"
  shows "(\<exists>s1. Produce (read_notification R) dm_Count s s1) \<and>
    (\<forall>s1 s'. Produce (read_notification R) dm_Count s s1 \<and> reachable (notifier_step R) s1 s' \<longrightarrow>
       pr_pc s' = PReturned \<and> pr_read s' = pr_read s \<and>
       (\<exists>rest. concat (pr_received s) @ concat (pr_resultsCh s) = concat (pr_received s') @ rest) \<and>
       length (pr_accepted s') \<le> length (pr_accepted s) + 3)"
proof -
  have "producer_inv view r0 s" using notifier.keeps_order [OF assms(1)] assms(2) by (simp add: notifier_step_def)
  then have bounds: "length (pr_demandChan s) \<le> 1" "length (pr_demand s) \<le> 1" by (simp_all add: producer_inv_def)
  have "pr_pc s' = PReturned \<and> pr_read s' = pr_read s \<and>
       (\<exists>rest. concat (pr_received s) @ concat (pr_resultsCh s) = concat (pr_received s') @ rest) \<and>
       length (pr_accepted s') \<le> length (pr_accepted s) + 3"
    if "Produce (read_notification R) dm_Count s s1" "reachable (notifier_step R) s1 s'" for s1 s'
  proof -
    from read_fails_step(2) [OF assms(3) that(1)] obtain r where s1: "s1 = s\<lparr>pr_pc := PReturned, pr_redis := r\<rparr>" ..
    with bounds have "stopped_since s1 s'" using notifier.stays_stopped [OF that(2) [unfolded notifier_step_def]] by simp
    with s1 show ?thesis by (auto simp: stopped_since_def held_def split: if_splits) metis+
  qed
  with read_fails_step(1) [OF assms(3)] show ?thesis by blast
qed

subsection \<open>Instances\<close>

definition one_demand :: Demand where
  "one_demand = \<lparr>dm_Count = 1, dm_UserID = ''U1''\<rparr>"

definition fed :: "'r \<Rightarrow> (Demand, 'r) producer_state" where
  "fed r = (NewProducer r)\<lparr>pr_accepted := [one_demand], pr_pc := PRead one_demand 0 []\<rparr>"

lemma fed_reachable: "reachable (notifier_step R) (NewProducer r) (fed r)"
proof -
  let ?S = "notifier_step R" and ?n = "NewProducer r :: (Demand, 'a) producer_state"
  let ?s1 = "?n\<lparr>pr_demandChan := [one_demand], pr_accepted := [one_demand]\<rparr>"
  let ?s2 = "?n\<lparr>pr_forward := Some one_demand, pr_accepted := [one_demand]\<rparr>"
  let ?s3 = "?n\<lparr>pr_demand := [one_demand], pr_accepted := [one_demand]\<rparr>"
  have n: "reachable ?S ?n ?n" by (rule reachable.start)
  have "?S ?n ?s1" unfolding notifier_step_def
    using feeds [where feed = FileUpdateSyncBroker_Start, OF handle_demand [of ?n one_demand]] by (simp add: NewProducer_def)
  from reachable.step [where step = ?S, OF n this] have s1: "reachable ?S ?n ?s1" .
  have "?S ?s1 ?s2" unfolding notifier_step_def
    using feeds [where feed = FileUpdateSyncBroker_Start, OF forward_take [of ?s1 one_demand "[]"]] by (simp add: NewProducer_def)
  from reachable.step [where step = ?S, OF s1 this] have s2: "reachable ?S ?n ?s2" .
  have "?S ?s2 ?s3" unfolding notifier_step_def
    using producer_step.Demand [of ?s2 one_demand] by (simp add: NewProducer_def)
  from reachable.step [where step = ?S, OF s2 this] have s3: "reachable ?S ?n ?s3" .
  have "?S ?s3 (fed r)" unfolding notifier_step_def
    using produces [OF take_demand [of ?s3 one_demand "[]"]] by (simp add: NewProducer_def fed_def)
  from reachable.step [where step = ?S, OF s3 this] show ?thesis .
qed

theorem producers_in_order_witness:
  "\<exists>s. reachable (notifier_step mem_client) (NewProducer ((\<lambda>q. [''m'', ''n'']), \<lambda>k. None)) s \<and> map pl_Message (in_flight (pr_pc s)) = [''m''] \<and>
     [''m'', ''n''] = read_from (user_queue ''U1'') (in_flight (pr_pc s)) @ fst (pr_redis s) (user_queue ''U1'')"
proof -
  let ?r = "((\<lambda>q. [''m'', ''n'']), \<lambda>k. None) :: mem_redis" and ?q = "NewTemplateString MetadataUpdateClientsNotifierQueue [''U1'']"
  let ?p = "\<lparr>pl_Message = ''m'', pl_Key = ?q, pl_TTL = 0\<rparr>"
  let ?s = "(fed ?r)\<lparr>pr_pc := PRead one_demand 1 [?p], pr_redis := ((fst ?r)(?q := [''n'']), snd ?r), pr_read := [?p]\<rparr>"
  have "notifier_step mem_client (fed ?r) ?s" unfolding notifier_step_def
    using produces [OF read_payload [of "fed ?r" one_demand 0 "[]" dm_Count
      "\<lambda>d. RedisQ_ReadMsg mem_client MetadataUpdateClientsNotifierQueue (dm_UserID d)" ?p]]
    by (simp add: fed_def one_demand_def NewProducer_def RedisQ_ReadMsg_def mem_client_def Let_def)
  from reachable.step [where step = "notifier_step mem_client", OF fed_reachable this]
  have "reachable (notifier_step mem_client) (NewProducer ?r) ?s" .
  moreover from producers_in_order [OF mem_lists, of ?r ?s "''U1''"] this
  have "[''m'', ''n''] = read_from (user_queue ''U1'') [?p] @ fst (pr_redis ?s) (user_queue ''U1'')"
    by (simp add: fed_def NewProducer_def in_flight_def)
  ultimately show ?thesis by (intro exI [of _ ?s]) (simp add: in_flight_def)
qed

definition broken_client :: "mem_redis redis" where
  "broken_client = mem_client\<lparr>BLPop := (\<lambda>q r. (BErr ''i/o timeout'', r))\<rparr>"

theorem notifier_stops_for_ever_witness:
  "\<exists>s1. notifier_step broken_client (fed empty_redis) s1 \<and>
     (\<forall>s'. reachable (notifier_step broken_client) s1 s' \<longrightarrow> pr_pc s' = PReturned \<and> pr_read s' = [] \<and> length (pr_accepted s') \<le> 4)"
proof -
  have lists: "redis_lists broken_client fst" by (simp add: redis_lists_def broken_client_def mem_client_def)
  have "read_fails broken_client (fed empty_redis)"
    by (simp add: read_fails_def fed_def one_demand_def RedisQ_ReadMsg_def broken_client_def Let_def)
  from notifier_stops_for_ever [OF lists fed_reachable this] obtain s1 where
    s1: "Produce (read_notification broken_client) dm_Count (fed empty_redis) s1"
    and stop: "\<forall>s'. reachable (notifier_step broken_client) s1 s' \<longrightarrow> pr_pc s' = PReturned \<and>
      pr_read s' = pr_read (fed empty_redis) \<and> length (pr_accepted s') \<le> length (pr_accepted (fed empty_redis)) + 3" by blast
  from s1 have "notifier_step broken_client (fed empty_redis) s1" unfolding notifier_step_def by (rule produces)
  with stop show ?thesis by (auto simp: fed_def NewProducer_def)
qed

end
