(* ===== verification/Supervision.thy ===== *)
theory Supervision
  imports Producers WorkerPool
begin

text \<open>
  A producer with its pool of one worker, as \<open>MetadataSupervisor\<close>
  (\<open>core/supervisors/metadata.changelog.go\<close>) and \<open>FileUpdateSyncBroker.Start\<close>
  (\<open>pkg/brokers/metadata_sync_broker.go\<close>) put them together: the channel that \<open>Produce\<close> returns is the one
  \<open>Dispatch\<close> receives from, and both end with the same context.  The steps are those of \<open>Producers\<close> and
  \<open>WorkerPool\<close>; only the reception of a batch belongs to both.
\<close>

subsection \<open>The composition\<close>

record ('d, 'r, 'v) line =
  ln_prod :: "('d, 'r) producer_state"
  ln_pool :: "(Payload list, 'v) pool_state"

definition line_start :: "'r \<Rightarrow> ('d, 'r, 'v) line" where
  "line_start r = \<lparr>ln_prod = NewProducer r, ln_pool = NewWorkerPool\<rparr>"

inductive supervise :: "(('d, 'r) producer_state \<Rightarrow> ('d, 'r) producer_state \<Rightarrow> bool) \<Rightarrow> 'r redis \<Rightarrow>
    ('d \<Rightarrow> 'r \<Rightarrow> Payload option res \<times> 'r) \<Rightarrow> ('d \<Rightarrow> int) \<Rightarrow> (Payload list \<Rightarrow> 'v) \<Rightarrow>
    ('d, 'r, 'v) line \<Rightarrow> ('d, 'r, 'v) line \<Rightarrow> bool"
  for feed R ReadMsg Count proc where
  produce: "producer_step feed R ReadMsg Count (ln_prod s) p \<Longrightarrow> pr_received p = pr_received (ln_prod s) \<Longrightarrow>
     pr_done p = pr_done (ln_prod s) \<Longrightarrow> supervise feed R ReadMsg Count proc s (s\<lparr>ln_prod := p\<rparr>)"
| hand_over: "ps_disp (ln_pool s) = DSelect \<Longrightarrow> pr_resultsCh (ln_prod s) = results # rest \<Longrightarrow>
     supervise feed R ReadMsg Count proc s
       (s\<lparr>ln_prod := (ln_prod s)\<lparr>pr_resultsCh := rest, pr_received := pr_received (ln_prod s) @ [results]\<rparr>,
          ln_pool := (ln_pool s)\<lparr>ps_disp := DHasJob results, ps_entered := ps_entered (ln_pool s) @ [results]\<rparr>\<rparr>)"
| hand_over_closed: "ps_disp (ln_pool s) = DSelect \<Longrightarrow> pr_resultsCh (ln_prod s) = [] \<Longrightarrow> pr_pc (ln_prod s) = PReturned \<Longrightarrow>
     supervise feed R ReadMsg Count proc s
       (s\<lparr>ln_prod := (ln_prod s)\<lparr>pr_received := pr_received (ln_prod s) @ [[]]\<rparr>,
          ln_pool := (ln_pool s)\<lparr>ps_disp := DHasJob [], ps_entered := ps_entered (ln_pool s) @ [[]]\<rparr>\<rparr>)"
| dispatch: "Dispatch [] (ln_pool s) p \<Longrightarrow> supervise feed R ReadMsg Count proc s (s\<lparr>ln_pool := p\<rparr>)"
| work: "Worker_Start 1 proc False 0 (ln_pool s) p \<Longrightarrow> supervise feed R ReadMsg Count proc s (s\<lparr>ln_pool := p\<rparr>)"
| stop: "WorkerPool_Stop 1 (ln_pool s) p \<Longrightarrow> supervise feed R ReadMsg Count proc s (s\<lparr>ln_pool := p\<rparr>)"
| cancel: "supervise feed R ReadMsg Count proc s
     (s\<lparr>ln_prod := (ln_prod s)\<lparr>pr_done := True\<rparr>, ln_pool := (ln_pool s)\<lparr>ps_done := True\<rparr>\<rparr>)"

subsection \<open>Each part runs as it does alone\<close>

text \<open>The pool's own feed stays empty and open, what entered the pool is what the dispatcher received,
  and each part is in a state it reaches by itself.\<close>

definition line_ok :: "(('d, 'r) producer_state \<Rightarrow> ('d, 'r) producer_state \<Rightarrow> bool) \<Rightarrow> (Payload list \<Rightarrow> 'v) \<Rightarrow> 'r \<Rightarrow>
    ('d, 'r, 'v) line \<Rightarrow> bool" where
  "line_ok step proc r0 s \<longleftrightarrow> reachable step (NewProducer r0) (ln_prod s) \<and>
     pool_reachable 1 proc False [] (ln_pool s) \<and> ps_recv (ln_pool s) = [] \<and> \<not> ps_closed (ln_pool s) \<and>
     ps_entered (ln_pool s) = pr_received (ln_prod s)"

lemma pool_enters:
  assumes "pool_reachable 1 proc False z s" "ps_recv s = []" "\<not> ps_closed s" "ps_disp s = DSelect"
  shows "pool_reachable 1 proc False z (s\<lparr>ps_disp := DHasJob job, ps_entered := ps_entered s @ [job]\<rparr>)"
proof -
  let ?S = "pool_step 1 proc False z" and ?t = "s\<lparr>ps_recv := [job], ps_entered := ps_entered s @ [job]\<rparr>"
  have "?S s ?t" using pool_step.outside [OF surroundings.feed [OF assms(3), of job]] assms(2) by simp
  from reachable.step [where step = ?S, OF assms(1) this] have t: "pool_reachable 1 proc False z ?t" .
  have "Dispatch z ?t (?t\<lparr>ps_disp := DHasJob job, ps_recv := []\<rparr>)" using assms(4) by (intro Dispatch.receive) simp_all
  from reachable.step [where step = ?S, OF t pool_step.dispatch [OF this]]
  have "pool_reachable 1 proc False z (?t\<lparr>ps_disp := DHasJob job, ps_recv := []\<rparr>)" .
  moreover have "?t\<lparr>ps_disp := DHasJob job, ps_recv := []\<rparr> = s\<lparr>ps_disp := DHasJob job, ps_entered := ps_entered s @ [job]\<rparr>"
    using assms(2) by (cases s) simp
  ultimately show ?thesis by metis
qed

lemma pool_step_quiet:
  "Dispatch z s s' \<Longrightarrow> ps_recv s = [] \<Longrightarrow> \<not> ps_closed s \<Longrightarrow> ps_recv s' = [] \<and> \<not> ps_closed s' \<and> ps_entered s' = ps_entered s"
  "Worker_Start N proc cap i s s' \<Longrightarrow> ps_recv s' = ps_recv s \<and> ps_closed s' = ps_closed s \<and> ps_entered s' = ps_entered s"
  "WorkerPool_Stop N s s' \<Longrightarrow> ps_recv s' = ps_recv s \<and> ps_closed s' = ps_closed s \<and> ps_entered s' = ps_entered s"
  by (auto elim: Dispatch.cases Worker_Start.cases WorkerPool_Stop.cases)

lemma supervise_keeps:
  assumes "line_ok (producer_step feed R ReadMsg Count) proc r0 s" "supervise feed R ReadMsg Count proc s s'"
  shows "line_ok (producer_step feed R ReadMsg Count) proc r0 s'"
proof -
  let ?P = "producer_step feed R ReadMsg Count" and ?W = "pool_step 1 proc False []"
  note ok = assms(1) [unfolded line_ok_def]
  have prod: "reachable ?P (NewProducer r0) p" if "?P (ln_prod s) p" for p
    using ok that by (blast intro: reachable.step)
  have pool: "pool_reachable 1 proc False [] p" if "?W (ln_pool s) p" for p
    using ok that by (blast intro: reachable.step)
  from assms(2) show ?thesis
  proof cases
    case (produce p)
    with ok prod show ?thesis by (simp add: line_ok_def)
  next
    case (hand_over results rest)
    from prod [OF producer_step.receives [OF hand_over(3)]] pool_enters [of proc "[]" "ln_pool s" results] hand_over ok
    show ?thesis by (simp add: line_ok_def)
  next
    case hand_over_closed
    from prod [OF producer_step.receives_closed [OF hand_over_closed(3,4)]] pool_enters [of proc "[]" "ln_pool s" "[]"] hand_over_closed ok
    show ?thesis by (simp add: line_ok_def)
  next
    case (dispatch p)
    with ok pool [OF pool_step.dispatch] pool_step_quiet(1) [OF dispatch(2)] show ?thesis by (simp add: line_ok_def)
  next
    case (work p)
    with ok pool [OF pool_step.worker [OF _ work(2)]] pool_step_quiet(2) [OF work(2)] show ?thesis by (simp add: line_ok_def)
  next
    case (stop p)
    with ok pool [OF pool_step.stop] pool_step_quiet(3) [OF stop(2)] show ?thesis by (simp add: line_ok_def)
  next
    case cancel
    with ok prod [OF producer_step.cancels] pool [OF pool_step.outside [OF surroundings.end_context]] show ?thesis
      by (simp add: line_ok_def)
  qed
qed

interpretation supervised: invariant "supervise feed R ReadMsg Count proc"
  "line_ok (producer_step feed R ReadMsg Count) proc r0" "line_start r0" for feed R ReadMsg Count proc r0
proof
  show "line_ok (producer_step feed R ReadMsg Count) proc r0 (line_start r0)"
    by (simp add: line_ok_def line_start_def reachable.start) (simp add: NewWorkerPool_def NewProducer_def)
qed (rule supervise_keeps)

subsection \<open>From the queue to the processor\<close>

text \<open>The messages on their way: with the worker, with the dispatcher, in the channel, with the producer.\<close>

definition on_the_way :: "('d, 'r, 'v) line \<Rightarrow> Payload list" where
  "on_the_way s = concat (worker_jobs (ln_pool s) 0 @ disp_jobs (ln_pool s) @ pr_resultsCh (ln_prod s)) @ in_flight (pr_pc (ln_prod s))"

context producer
begin

lemma supervised_order:
  assumes "redis_lists R view" "reachable (supervise feed R ReadMsg Count proc) (line_start r0) s" "pr_pc (ln_prod s) \<noteq> PReturned"
  shows "view r0 q @ sent_to q (pr_pushed (ln_prod s)) =
    read_from q (concat (ps_processed (ln_pool s)) @ on_the_way s) @ view (pr_redis (ln_prod s)) q"
proof -
  from supervised.holds [OF assms(2)] have p: "reachable (producer_step feed R ReadMsg Count) (NewProducer r0) (ln_prod s)"
    and w: "pool_reachable 1 proc False [] (ln_pool s)" and e: "ps_entered (ln_pool s) = pr_received (ln_prod s)" "ps_recv (ln_pool s) = []"
    by (simp_all add: line_ok_def)
  from keeps_order [OF assms(1) p] assms(3) have
    "view r0 q @ sent_to q (pr_pushed (ln_prod s)) = read_from q (pr_read (ln_prod s)) @ view (pr_redis (ln_prod s)) q"
    "pr_read (ln_prod s) = concat (pr_received (ln_prod s)) @ concat (pr_resultsCh (ln_prod s)) @ in_flight (pr_pc (ln_prod s))"
    by (auto simp: producer_inv_def)
  with single_worker_in_order [OF w] e show ?thesis by (simp add: on_the_way_def)
qed

end

text \<open>The two supervisors: the worker that reconciles versions and the broker of the notifications.\<close>

definition MetadataSupervisor :: "'r redis \<Rightarrow> (Payload list \<Rightarrow> 'v) \<Rightarrow> (int, 'r, 'v) line \<Rightarrow> (int, 'r, 'v) line \<Rightarrow> bool" where
  "MetadataSupervisor R Execute =
     supervise MetadataSupervisor_ticker R (\<lambda>d. RedisQ_ReadMsg R MetadataFileUpdateQueue []) (\<lambda>d. d) Execute"

definition notification_broker :: "'r redis \<Rightarrow> (Payload list \<Rightarrow> 'v) \<Rightarrow> (Demand, 'r, 'v) line \<Rightarrow> (Demand, 'r, 'v) line \<Rightarrow> bool" where
  "notification_broker R Execute = supervise FileUpdateSyncBroker_Start R
     (\<lambda>d. RedisQ_ReadMsg R MetadataUpdateClientsNotifierQueue (dm_UserID d)) dm_Count Execute"

text \<open>
  C8.  Every message is executed once and in order: in a supervisor, that is a producer with its pool of
  one worker, however the goroutines interleave and as long as the producer runs, the messages a queue
  held at first and those pushed to it since are, in this order, those of the batches the processor was
  called with, those on their way to it and those the queue still holds; for the updates and for the
  notifications of every user.
\<close>

theorem supervisors_in_order:
  assumes "redis_lists R view"
  shows "(reachable (MetadataSupervisor R Execute) (line_start r0) s \<and> pr_pc (ln_prod s) \<noteq> PReturned \<longrightarrow>
      view r0 MetadataFileUpdateQueue @ sent_to MetadataFileUpdateQueue (pr_pushed (ln_prod s)) =
        read_from MetadataFileUpdateQueue (concat (ps_processed (ln_pool s)) @ on_the_way s) @
        view (pr_redis (ln_prod s)) MetadataFileUpdateQueue) \<and>
    (reachable (notification_broker R deliver) (line_start r0) t \<and> pr_pc (ln_prod t) \<noteq> PReturned \<longrightarrow>
      view r0 (user_queue u) @ sent_to (user_queue u) (pr_pushed (ln_prod t)) =
        read_from (user_queue u) (concat (ps_processed (ln_pool t)) @ on_the_way t) @ view (pr_redis (ln_prod t)) (user_queue u))"
  using changelog.supervised_order [OF assms] notifier.supervised_order [OF assms]
  unfolding MetadataSupervisor_def notification_broker_def by blast

subsection \<open>An instance\<close>

text \<open>The ticker demands one of two messages; it is read, sent and received by the dispatcher.\<close>

definition two_updates :: mem_redis where
  "two_updates = ((\<lambda>q. []) (MetadataFileUpdateQueue := [''m'', ''n'']), \<lambda>k. None)"

definition one_left :: mem_redis where
  "one_left = ((\<lambda>q. []) (MetadataFileUpdateQueue := [''n'']), \<lambda>k. None)"

definition update_m :: Payload where
  "update_m = \<lparr>pl_Message = ''m'', pl_Key = MetadataFileUpdateQueue, pl_TTL = 0\<rparr>"

abbreviation ticked :: "(int, mem_redis) producer_state" where
  "ticked \<equiv> (NewProducer two_updates)\<lparr>pr_accepted := [1]\<rparr>"

definition sent_m :: "(int, mem_redis) producer_state" where
  "sent_m = (NewProducer one_left)\<lparr>pr_accepted := [1], pr_read := [update_m], pr_resultsCh := [[update_m]]\<rparr>"

lemma read_m: "RedisQ_ReadMsg mem_client MetadataFileUpdateQueue [] two_updates = (OK (Some update_m), one_left)"
  by (simp add: RedisQ_ReadMsg_def Let_def file_queue mem_client_def two_updates_def one_left_def update_m_def)

lemma line_produces:
  assumes "reachable (MetadataSupervisor R Execute) (line_start r0) (line_start r0\<lparr>ln_prod := s\<rparr>)"
    and "producer_step MetadataSupervisor_ticker R (\<lambda>d. RedisQ_ReadMsg R MetadataFileUpdateQueue []) (\<lambda>d. d) s p"
    and "pr_received p = pr_received s" "pr_done p = pr_done s"
  shows "reachable (MetadataSupervisor R Execute) (line_start r0) (line_start r0\<lparr>ln_prod := p\<rparr>)"
proof (rule reachable.step [OF assms(1)])
  show "MetadataSupervisor R Execute (line_start r0\<lparr>ln_prod := s\<rparr>) (line_start r0\<lparr>ln_prod := p\<rparr>)"
    unfolding MetadataSupervisor_def
    using supervise.produce [where s = "line_start r0\<lparr>ln_prod := s\<rparr>" and feed = MetadataSupervisor_ticker and R = R and
      ReadMsg = "\<lambda>d. RedisQ_ReadMsg R MetadataFileUpdateQueue []" and Count = "\<lambda>d. d" and p = p and proc = Execute] assms(2-4)
    by simp
qed

lemma sent_m_reachable: "reachable (MetadataSupervisor mem_client length) (line_start two_updates) (line_start two_updates\<lparr>ln_prod := sent_m\<rparr>)"
proof -
  let ?reach = "\<lambda>p. reachable (MetadataSupervisor mem_client length) (line_start two_updates) (line_start two_updates\<lparr>ln_prod := p\<rparr>)"
  let ?t = ticked and ?m = "sent_m\<lparr>pr_resultsCh := []\<rparr>"
  have "?reach (NewProducer two_updates)" using reachable.start [of _ "line_start two_updates"] by (simp add: line_start_def)
  then have "?reach (?t\<lparr>pr_forward := Some 1\<rparr>)"
    by (rule line_produces) (use tick_demand [of "NewProducer two_updates"] in \<open>auto simp: NewProducer_def intro: feeds\<close>)
  then have "?reach (?t\<lparr>pr_demand := [1]\<rparr>)"
    by (rule line_produces) (use producer_step.Demand [of "?t\<lparr>pr_forward := Some 1\<rparr>" 1] in \<open>auto simp: NewProducer_def\<close>)
  then have "?reach (?t\<lparr>pr_pc := PRead 1 0 []\<rparr>)"
    by (rule line_produces) (use take_demand [of "?t\<lparr>pr_demand := [1]\<rparr>" 1] in \<open>auto simp: NewProducer_def intro: produces\<close>)
  then have "?reach (?m\<lparr>pr_pc := PRead 1 1 [update_m]\<rparr>)"
    by (rule line_produces) (use read_m read_payload [where s = "?t\<lparr>pr_pc := PRead 1 0 []\<rparr>" and d = 1 and i = 0 and results = "[]" and
        Count = "\<lambda>d. d" and ReadMsg = "\<lambda>d. RedisQ_ReadMsg mem_client MetadataFileUpdateQueue []" and payload = update_m and r = one_left]
      in \<open>auto simp: NewProducer_def sent_m_def intro: produces\<close>)
  then have "?reach (?m\<lparr>pr_pc := PSend [update_m]\<rparr>)"
    by (rule line_produces) (use read_all [of "?m\<lparr>pr_pc := PRead 1 1 [update_m]\<rparr>" 1 1 "[update_m]" "\<lambda>d. d"] in \<open>auto simp: sent_m_def NewProducer_def intro: produces\<close>)
  then show ?thesis
    by (rule line_produces) (use send_results [of "?m\<lparr>pr_pc := PSend [update_m]\<rparr>" "[update_m]"] in \<open>auto simp: sent_m_def NewProducer_def intro: produces\<close>)
qed

theorem supervisors_in_order_witness:
  "\<exists>s. reachable (MetadataSupervisor mem_client length) (line_start two_updates) s \<and> on_the_way s = [update_m] \<and>
     disp_jobs (ln_pool s) = [[update_m]] \<and>
     [''m'', ''n''] = read_from MetadataFileUpdateQueue (on_the_way s) @ fst (pr_redis (ln_prod s)) MetadataFileUpdateQueue"
proof -
  let ?r = "line_start two_updates\<lparr>ln_prod := sent_m\<rparr> :: (int, mem_redis, nat) line"
  let ?s = "?r\<lparr>ln_prod := sent_m\<lparr>pr_resultsCh := [], pr_received := [[update_m]]\<rparr>,
    ln_pool := NewWorkerPool\<lparr>ps_disp := DHasJob [update_m], ps_entered := [[update_m]]\<rparr>\<rparr>"
  have "MetadataSupervisor mem_client length ?r ?s"
    unfolding MetadataSupervisor_def
    using supervise.hand_over [of ?r "[update_m]" "[]"] by (simp add: line_start_def NewWorkerPool_def sent_m_def NewProducer_def)
  from reachable.step [where step = "MetadataSupervisor mem_client length", OF sent_m_reachable this]
  have r: "reachable (MetadataSupervisor mem_client length) (line_start two_updates) ?s" .
  moreover have "ps_processed (ln_pool ?s) = []" "on_the_way ?s = [update_m]" "disp_jobs (ln_pool ?s) = [[update_m]]"
    by (simp_all add: on_the_way_def worker_jobs_def disp_jobs_def NewWorkerPool_def sent_m_def NewProducer_def in_flight_def)
  moreover have "pr_pc (ln_prod ?s) \<noteq> PReturned" "pr_pushed (ln_prod ?s) = []" "fst two_updates MetadataFileUpdateQueue = [''m'', ''n'']"
    by (simp_all add: sent_m_def NewProducer_def two_updates_def)
  ultimately show ?thesis
    using supervisors_in_order [OF mem_lists, of length two_updates ?s, THEN conjunct1, THEN mp]
    by (intro exI [of _ ?s] conjI) (simp_all only: append_Nil append_Nil2 concat.simps sent_to_simps not_False_eq_True simp_thms)
qed

end
