(* ===== verification/RoundTrip.thy ===== *)
theory RoundTrip
  imports Download
begin

text \<open>
  The upload and the download of a file together: chunks that are uploaded one by one, in any order,
  through \<open>FileChunkService.Create\<close> (\<open>core/files/userfiles.service.go\<close>, \<open>pkg/blobstore/localfs.go\<close>) are what
  \<open>ListOrderedFileChunks\<close> and \<open>Download\<close> (\<open>core/files/service.metadata.go\<close>,
  \<open>core/files/download.service.go\<close>) assemble.
\<close>

subsection \<open>A run of uploads\<close>

fun upload_all :: "'r env \<Rightarrow> string \<Rightarrow> FileChunkRequest list \<Rightarrow> 'r world \<Rightarrow> bool \<times> 'r world" where
  "upload_all E d [] w = (True, w)"
| "upload_all E d (req # reqs) w =
     (case FileChunkService_Create E d req w of
        (resp, w1) \<Rightarrow> (if rs_Success resp then upload_all E d reqs w1 else (False, w1)))"

text \<open>The chunk number of a request, and the requests a client makes for a file.\<close>

definition request_id :: "FileChunkRequest \<Rightarrow> int" where
  "request_id req = fst (Atoi (cr_ChunkID req))"

definition good_request :: "'r env \<Rightarrow> string \<Rightarrow> FileChunkRequest \<Rightarrow> bool" where
  "good_request E fid req \<longleftrightarrow> cr_FileID req = fid \<and> cr_ChunkDigest req = hex_EncodeToString (e_sha256 E (cr_Data req)) \<and>
     snd (Atoi (cr_ChunkID req)) = None \<and> snd (ParseInt (cr_NextChunkID req)) = None"

text \<open>No file stands where the store needs a directory, and no directory where it puts a chunk.\<close>

definition store_ready :: "string \<Rightarrow> string \<Rightarrow> fs \<Rightarrow> bool" where
  "store_ready d fid fs \<longleftrightarrow> \<not> list_ex (is_file fs) (parents (path_elems [d, fid])) \<and>
     (\<forall>c. fs (chunk_path d fid c) \<noteq> Some FDir \<and> chunk_path d fid c \<notin> set (parents (path_elems [d, fid])))"

definition with_dirs :: "string \<Rightarrow> string \<Rightarrow> fs \<Rightarrow> fs" where
  "with_dirs d fid fs = (\<lambda>q. if q \<in> set (parents (path_elems [d, fid])) then Some FDir else fs q)"

lemma UpdateChunk_fs:
  assumes "no_faults E" "store_ready d fid (w_fs w)"
  shows "LocalFS_UpdateChunk E d fid data c w = (r, w') \<Longrightarrow> r = Inr (chunk_path d fid c) \<and> w_db w' = w_db w \<and>
    w_redis w' = w_redis w \<and> w_fs w' = (with_dirs d fid (w_fs w))(chunk_path d fid c := Some (FFile data))"
  using assms
  by (auto simp: store_ready_def with_dirs_def LocalFS_UpdateChunk_def EnsureDir_def os_MkdirAll_def os_Create_def
      copy_to_file_def go_simps split: if_splits)

lemma store_ready_after:
  "store_ready d fid fs \<Longrightarrow> store_ready d fid ((with_dirs d fid fs)(chunk_path d fid c := Some (FFile data)))"
  by (auto simp: store_ready_def with_dirs_def list_ex_iff is_file_def)

lemma Create_good:
  assumes "no_faults E" "stmts_loaded E" "store_ready d fid (w_fs w)" "good_request E fid req"
  obtains resp w' u where "FileChunkService_Create E d req w = (resp, w')" "rs_Success resp"
    "w_db w' = sql_CreateFileChunk u (w_db w)" "uf_FileID u = fid" "uf_ChunkID u = request_id req"
    "uf_ChunkBlobUrl u = chunk_path d fid (request_id req)" "w_redis w' = w_redis w"
    "w_fs w' = (with_dirs d fid (w_fs w))(chunk_path d fid (request_id req) := Some (FFile (cr_Data req)))"
proof -
  let ?c = "request_id req" and ?n = "fst (ParseInt (cr_NextChunkID req))" and ?p = "chunk_path d fid (request_id req)"
  have g: "cr_FileID req = fid" using assms(4) by (simp add: good_request_def)
  obtain r w2 where up: "LocalFS_UpdateChunk E d fid (cr_Data req) ?c (tick w) = (r, w2)" by fastforce
  note u = UpdateChunk_fs [OF assms(1) _ up, simplified, OF assms(3)]
  obtain st w3 where st: "NewTimestamp E w2 = (st, w3)" by (cases "NewTimestamp E w2")
  have fr: "w_db w3 = w_db w2" "w_redis w3 = w_redis w2" "w_fs w3 = w_fs w2" using st by (auto simp: NewTimestamp_def Now_def)
  have "e_chunkQ E CreateFileChunkStmt \<noteq> None" using assms(2) by (rule stmts_loadedD)
  then obtain w4 where y: "UserFileRepository_Create E (chunk_record req ?c ?n ?p st) w3 = (OK (), w4)"
    using assms(1) by (auto simp: UserFileRepository_Create_def ext_call_def)
  have run: "FileChunkService_Create E d req w =
      (BuildResponse None (Some (chunk_answer (chunk_record req ?c ?n ?p st) ?n)), w4)"
    using assms(1,4) up u st y by (simp add: Create_steps good_request_def store_chunk_def request_id_def g)
  show ?thesis
    by (rule that [OF run, of "chunk_record req ?c ?n ?p st"])
      (use UserFile_Create_cases [OF y] fr u g in \<open>auto simp: chunk_record_def BuildResponse_def\<close>)
qed

lemma path_of_chunk: "plain_elem fid \<Longrightarrow> chunk_path d fid c = chunk_path d fid k \<longleftrightarrow> c = k"
  using chunk_path_inj [of fid fid d c k] by simp

text \<open>What a run of uploads leaves: one record per request with the path of its chunk, the data of
  each request under its path, and every other file as it was.\<close>

definition uploaded :: "string \<Rightarrow> string \<Rightarrow> FileChunkRequest list \<Rightarrow> 'r world \<Rightarrow> 'r world \<Rightarrow> bool" where
  "uploaded d fid reqs w w' \<longleftrightarrow> file_metadatas (w_db w') = file_metadatas (w_db w) \<and> tokens_tbl (w_db w') = tokens_tbl (w_db w) \<and>
     (\<exists>us. user_files (w_db w') = user_files (w_db w) @ us \<and> (\<forall>u \<in> set us. uf_FileID u = fid) \<and>
        map (\<lambda>u. (uf_ChunkID u, uf_ChunkBlobUrl u)) us = map (\<lambda>req. (request_id req, chunk_path d fid (request_id req))) reqs) \<and>
     w_redis w' = w_redis w \<and> (\<forall>req \<in> set reqs. w_fs w' (chunk_path d fid (request_id req)) = Some (FFile (cr_Data req))) \<and>
     (\<forall>q. q \<notin> (\<lambda>req. chunk_path d fid (request_id req)) ` set reqs \<longrightarrow>
        w_fs w' q = w_fs w q \<or> w_fs w' q = Some FDir \<and> \<not> is_file (w_fs w) q)"

lemma uploaded_keeps:
  "uploaded d fid reqs w w' \<Longrightarrow> w_fs w q = Some (FFile b) \<Longrightarrow>
     q \<notin> (\<lambda>req. chunk_path d fid (request_id req)) ` set reqs \<Longrightarrow> w_fs w' q = Some (FFile b)"
  unfolding uploaded_def by (fastforce simp: is_file_def)

lemma upload_all_run:
  assumes "no_faults E" "stmts_loaded E" "plain_elem fid"
  shows "store_ready d fid (w_fs w) \<Longrightarrow> list_all (good_request E fid) reqs \<Longrightarrow> distinct (map request_id reqs) \<Longrightarrow>
    \<exists>w'. upload_all E d reqs w = (True, w') \<and> uploaded d fid reqs w w'"
proof (induction reqs arbitrary: w)
  case (Cons req reqs)
  let ?path = "\<lambda>req. chunk_path d fid (request_id req)"
  from Cons.prems(2) have "good_request E fid req" by simp
  then obtain resp w1 u where run: "FileChunkService_Create E d req w = (resp, w1)" "rs_Success resp"
    and u: "w_db w1 = sql_CreateFileChunk u (w_db w)" "uf_FileID u = fid" "uf_ChunkID u = request_id req"
      "uf_ChunkBlobUrl u = ?path req" "w_redis w1 = w_redis w"
    and fs: "w_fs w1 = (with_dirs d fid (w_fs w))(?path req := Some (FFile (cr_Data req)))"
    using Create_good [OF assms(1,2) Cons.prems(1)] by blast
  have "store_ready d fid (w_fs w1)" using store_ready_after [OF Cons.prems(1)] fs by simp
  with Cons.IH [of w1] Cons.prems(2,3) obtain w' where all: "upload_all E d reqs w1 = (True, w')" "uploaded d fid reqs w1 w'"
    by auto
  then obtain us where us: "user_files (w_db w') = user_files (w_db w1) @ us" "\<forall>u \<in> set us. uf_FileID u = fid"
    "map (\<lambda>u. (uf_ChunkID u, uf_ChunkBlobUrl u)) us = map (\<lambda>req. (request_id req, ?path req)) reqs"
    unfolding uploaded_def by blast
  have new: "?path req \<notin> ?path ` set reqs" using Cons.prems(3) by (auto simp: path_of_chunk [OF assms(3)])
  have own: "w_fs w' (?path req) = Some (FFile (cr_Data req))" by (rule uploaded_keeps [OF all(2) _ new]) (simp add: fs)
  have rest: "w_fs w' q = w_fs w q \<or> w_fs w' q = Some FDir \<and> \<not> is_file (w_fs w) q" if "q \<notin> ?path ` set (req # reqs)" for q
  proof -
    have "w_fs w1 q = w_fs w q \<or> w_fs w1 q = Some FDir \<and> \<not> is_file (w_fs w) q"
      using that fs Cons.prems(1) by (auto simp: with_dirs_def store_ready_def list_ex_iff)
    with all(2) that show ?thesis unfolding uploaded_def by (fastforce simp: is_file_def)
  qed
  have "uploaded d fid (req # reqs) w w'"
    unfolding uploaded_def
    using all(2) u own rest us by (intro conjI exI [of _ "u # us"]) (auto simp: uploaded_def)
  with run all(1) show ?case by simp
qed (simp add: uploaded_def)

lemma uploaded_coherent:
  assumes "uploaded d fid reqs w w'" "cache_coherent E w" "\<And>c. RGet (e_redis E) (chunk_path d fid c) (w_redis w) = None"
  shows "cache_coherent E w'"
proof -
  have "w_fs w' p = Some (FFile v)" if "RGet (e_redis E) p (w_redis w') = Some v" for p v
  proof -
    have r: "RGet (e_redis E) p (w_redis w) = Some v" using that assms(1) by (simp add: uploaded_def)
    with assms(2) have f: "w_fs w p = Some (FFile v)" by (simp add: cache_coherent_def)
    have "p \<notin> (\<lambda>req. chunk_path d fid (request_id req)) ` set reqs" using r assms(3) by auto
    from uploaded_keeps [OF assms(1) f this] show ?thesis .
  qed
  then show ?thesis by (simp add: cache_coherent_def)
qed

subsection \<open>The download\<close>

lemma uploaded_records:
  assumes "uploaded d fid reqs w w'" "file_chunks fid (w_db w) = []"
  shows "chunk_ids fid (w_db w') = request_id ` set reqs"
    and "\<forall>u \<in> set (file_chunks fid (w_db w')). uf_ChunkBlobUrl u = chunk_path d fid (uf_ChunkID u)"
    and "file_chunks fid (w_db w') = [] \<longleftrightarrow> reqs = []"
proof -
  from assms(1) obtain us where us: "user_files (w_db w') = user_files (w_db w) @ us" "\<forall>u \<in> set us. uf_FileID u = fid"
    "map (\<lambda>u. (uf_ChunkID u, uf_ChunkBlobUrl u)) us = map (\<lambda>req. (request_id req, chunk_path d fid (request_id req))) reqs"
    unfolding uploaded_def by blast
  have f: "file_chunks fid (w_db w') = us" using us(1,2) assms(2) by (simp add: file_chunks_def)
  have s: "(\<lambda>u. (uf_ChunkID u, uf_ChunkBlobUrl u)) ` set us = (\<lambda>req. (request_id req, chunk_path d fid (request_id req))) ` set reqs"
    using arg_cong [OF us(3), of set] by simp
  from arg_cong [OF s, of "image fst"] show "chunk_ids fid (w_db w') = request_id ` set reqs"
    by (simp add: chunk_ids_def f image_image)
  have "uf_ChunkBlobUrl u = chunk_path d fid (uf_ChunkID u)" if u: "u \<in> set us" for u
  proof -
    have "(uf_ChunkID u, uf_ChunkBlobUrl u) \<in> (\<lambda>req. (request_id req, chunk_path d fid (request_id req))) ` set reqs"
      using imageI [OF u, of "\<lambda>u. (uf_ChunkID u, uf_ChunkBlobUrl u)"] unfolding s .
    then show ?thesis by auto
  qed
  then show "\<forall>u \<in> set (file_chunks fid (w_db w')). uf_ChunkBlobUrl u = chunk_path d fid (uf_ChunkID u)" by (simp add: f)
  show "file_chunks fid (w_db w') = [] \<longleftrightarrow> reqs = []" using arg_cong [OF us(3), of length] by (auto simp: f)
qed

lemma sorted_ids:
  assumes "distinct (map request_id reqs)" "request_id ` set reqs = {0..<n}"
  shows "map request_id (sort_key request_id reqs) = map int [0..<nat n]"
proof (rule sorted_distinct_set_unique)
  show "distinct (map request_id (sort_key request_id reqs))" using assms(1) by (metis mset_map mset_sort mset_eq_imp_distinct_iff)
  have "x \<in> int ` {0..<nat n}" if "0 \<le> x" "x < n" for x using that by (intro image_eqI [of _ _ "nat x"]) auto
  then show "set (map request_id (sort_key request_id reqs)) = set (map int [0..<nat n])" using assms(2) by auto
  show "sorted (map int [0..<nat n])" by (simp add: sorted_map)
qed (simp_all add: distinct_map)

text \<open>
  C7.  A file comes back as it was uploaded: for a registered file without chunks, uploading its declared
  chunks one by one in any order, each with its digest, succeeds; then the owner's list of urls has all
  their paths, and the download through the cache returns the chunks' data in the order of their
  numbers, when no call fails, no file is in the way of the store's directories and no chunk of the file
  is cached.
\<close>

theorem uploaded_chunks_download:
  assumes "no_faults E" "stmts_loaded E" "sql_order_ok E" "range_ok E" "redis_cache (e_redis E)"
    and "db_wf (w_db w)" "file_row fid (w_db w) = Some row" "file_chunks fid (w_db w) = []" "0 \<le> fm_FileSize row"
    and "plain_elem fid" "store_ready d fid (w_fs w)"
    and "cache_coherent E w" "\<And>c. RGet (e_redis E) (chunk_path d fid c) (w_redis w) = None"
    and "list_all (good_request E fid) reqs" "distinct (map request_id reqs)" "reqs \<noteq> []"
    and "request_id ` set reqs = {0..<fm_NChunks row}"
  shows "\<exists>w1 urls info w2 w3. upload_all E d reqs w = (True, w1) \<and>
    MetadataService_ListOrderedFileChunks E fid (fm_UserID row) w1 = (OK (urls, info), w2) \<and>
    DownloadHandler_Download E (fi_Size info) urls w2 = (OK (concat (map cr_Data (sort_key request_id reqs))), w3)"
proof -
  let ?path = "\<lambda>c. chunk_path d fid c" and ?rs = "sort_key request_id reqs" and ?n = "fm_NChunks row"
  obtain w1 where up: "upload_all E d reqs w = (True, w1)" "uploaded d fid reqs w w1"
    using upload_all_run [OF assms(1,2,10,11,14,15)] by blast
  note recs = uploaded_records [OF up(2) assms(8)]
  have db: "db_wf (w_db w1)" "file_row fid (w_db w1) = Some row" using up(2) assms(6,7)
    by (simp_all add: uploaded_def db_wf_def file_row_def)
  have "request_id (hd reqs) \<in> {0..<?n}" using assms(16) unfolding assms(17) [symmetric] by simp
  then have n: "0 \<le> ?n" by simp
  have "\<forall>c \<in> chunk_ids fid (w_db w1). 0 \<le> c \<and> c < ?n" using recs(1) assms(17) by auto
  from ListOrdered_inside [OF assms(1-4) db _ refl n this] recs(3) assms(16) obtain urls info where
    list: "MetadataService_ListOrderedFileChunks E fid (fm_UserID row) w1 = (OK (urls, info), tick w1)"
    and info: "fi_Size info = fm_FileSize row" "int (length urls) = ?n"
    and url: "\<forall>c < length urls. if int c \<in> chunk_ids fid (w_db w1)
         then \<exists>v \<in> set (file_chunks fid (w_db w1)). uf_ChunkID v = int c \<and> urls ! c = uf_ChunkBlobUrl v else urls ! c = []"
    by blast
  have len: "length urls = nat ?n" using info(2) by simp
  have "urls = map (\<lambda>c. ?path (int c)) [0..<nat ?n]"
  proof (rule nth_equalityI)
    fix c assume c: "c < length urls"
    then have "int c \<in> chunk_ids fid (w_db w1)" using recs(1) assms(17) info(2) by simp
    with url c recs(2) show "urls ! c = map (\<lambda>c. ?path (int c)) [0..<nat ?n] ! c" by (force simp: len)
  qed (simp add: len)
  then have urls: "urls = map (\<lambda>req. ?path (request_id req)) ?rs"
    using arg_cong [OF sorted_ids [OF assms(15,17)], of "map ?path"] by (simp add: comp_def)
  have read: "\<forall>req \<in> set ?rs. w_fs (tick w1) (?path (request_id req)) = Some (FFile (cr_Data req))"
    using up(2) by (simp add: uploaded_def)
  let ?content = "\<lambda>p. case w_fs (tick w1) p of Some (FFile b) \<Rightarrow> b | _ \<Rightarrow> []"
  have files: "\<forall>p \<in> set urls. w_fs (tick w1) p = Some (FFile (?content p))" using read by (auto simp: urls)
  have "map ?content urls = map cr_Data ?rs" using read by (auto simp: urls)
  moreover have "cache_coherent E (tick w1)"
    using uploaded_coherent [OF up(2) assms(12,13)] by (simp add: cache_coherent_def)
  ultimately obtain w3 where "DownloadHandler_Download E (fi_Size info) urls (tick w1) = (OK (concat (map cr_Data ?rs)), w3)"
    using download_loop_contents [OF assms(1,5) _ files, of "[]"] info(1) assms(9) by (auto simp: DownloadHandler_Download_def)
  with up(1) list show ?thesis by blast
qed

subsection \<open>Instances\<close>

definition chunk_of :: "string \<Rightarrow> string \<Rightarrow> string \<Rightarrow> string \<Rightarrow> FileChunkRequest" where
  "chunk_of i nxt digest data = sample_chunk\<lparr>cr_ChunkID := i, cr_NextChunkID := nxt, cr_ChunkDigest := digest, cr_Data := data\<rparr>"

definition two_chunks :: "FileChunkRequest list" where
  "two_chunks = [chunk_of ''1'' ''-1'' ''21'' ''!'', chunk_of ''0'' ''1'' ''6869'' ''hi'']"

definition fresh_world :: "mem_redis world" where
  "fresh_world = sample_world\<lparr>w_db := sample_db\<lparr>user_files := []\<rparr>\<rparr>"

lemma two_chunks_ids: "request_id (chunk_of ''1'' n g x) = 1" "request_id (chunk_of ''0'' n g x) = 0"
proof -
  have "fst (Atoi ''1'') = 1" "fst (Atoi ''0'') = 0" by code_simp+
  then show "request_id (chunk_of ''1'' n g x) = 1" "request_id (chunk_of ''0'' n g x) = 0"
    by (simp_all add: request_id_def chunk_of_def)
qed

lemma two_chunks_ok:
  "list_all (good_request sample_env ''B'') two_chunks" "map request_id two_chunks = [1, 0]"
  "map cr_Data (sort_key request_id two_chunks) = [''hi'', ''!'']"
proof -
  have "hex_EncodeToString ''!'' = ''21''" "hex_EncodeToString ''hi'' = ''6869''" "snd (Atoi ''1'') = None" "snd (Atoi ''0'') = None"
    "snd (ParseInt ''-1'') = None" "snd (ParseInt ''1'') = None" by code_simp+
  then show "list_all (good_request sample_env ''B'') two_chunks"
    by (simp add: two_chunks_def chunk_of_def good_request_def sample_chunk_def sample_env_def)
  show "map request_id two_chunks = [1, 0]" "map cr_Data (sort_key request_id two_chunks) = [''hi'', ''!'']"
    by (simp_all add: two_chunks_def two_chunks_ids) (simp_all add: chunk_of_def)
qed

lemma fresh_ready: "store_ready ''/data'' ''B'' (w_fs fresh_world)"
  using sample_paths by (simp add: store_ready_def fresh_world_def)

theorem uploaded_chunks_download_witness:
  "\<exists>w1 urls info w2 w3. upload_all sample_env ''/data'' two_chunks fresh_world = (True, w1) \<and>
    MetadataService_ListOrderedFileChunks sample_env ''B'' ''U1'' w1 = (OK (urls, info), w2) \<and>
    DownloadHandler_Download sample_env (fi_Size info) urls w2 = (OK ''hi!'', w3)"
proof -
  have ids: "distinct (map request_id two_chunks)" "two_chunks \<noteq> []" "request_id ` set two_chunks = {0..<fm_NChunks row_B}"
    using two_chunks_ok(2) arg_cong [OF two_chunks_ok(2), of set] by (auto simp: row_B_def two_chunks_def)
  have w: "db_wf (w_db fresh_world)" "file_row ''B'' (w_db fresh_world) = Some row_B" "file_chunks ''B'' (w_db fresh_world) = []"
    using sample_db_wf sample_rows(2) by (simp_all add: fresh_world_def db_wf_def file_row_def file_chunks_def)
  have c: "redis_cache (e_redis sample_env)" "cache_coherent sample_env fresh_world"
    "\<And>c. RGet (e_redis sample_env) (chunk_path ''/data'' ''B'' c) (w_redis fresh_world) = None"
    using mem_cache by (simp_all add: cache_coherent_def fresh_world_def sample_world_def sample_env_def mem_client_def)
  have r: "0 \<le> fm_FileSize row_B" "fm_UserID row_B = ''U1''" by (simp_all add: row_B_def)
  have "plain_elem ''B''" by (simp add: plain_elem_def)
  from uploaded_chunks_download [OF sample_ok(1-4) c(1) w r(1) this fresh_ready c(2,3) two_chunks_ok(1) ids] r
  show ?thesis by (simp add: two_chunks_ok(3))
qed

end
