(* ===== verification/Batch.thy ===== *)
theory Batch
  imports RoundTrip Machines
begin

text \<open>
  \<open>LocalFS.BatchCreateChunk\<close> (\<open>pkg/blobstore/localfs.go\<close>): one goroutine per chunk runs \<open>UpdateChunk\<close> and
  sends its result on a channel with room for all; when all have finished, the results in the channel
  are the answer, or an error when one is missing.  The goroutines interleave between the calls of
  \<open>UpdateChunk\<close>, so a run is a sequence of steps, each one call of one goroutine.
\<close>

subsection \<open>Steps\<close>

datatype batch_pc = CkStart | CkDir | CkFile | CkSent | CkFailed

record 'r batch_state =
  bt_world :: "'r world"
  bt_pc :: "nat \<Rightarrow> batch_pc"
  bt_receiver :: "(nat \<times> string) list"

definition batch_start :: "'r world \<Rightarrow> 'r batch_state" where
  "batch_start w = \<lparr>bt_world = w, bt_pc = (\<lambda>i. CkStart), bt_receiver = []\<rparr>"

text \<open>A failed copy ends \<open>UpdateChunk\<close> with an empty path and no error, so its goroutine sends too.\<close>

inductive BatchCreateChunk_go :: "'r env \<Rightarrow> string \<Rightarrow> string \<Rightarrow> (int \<times> bytes) list \<Rightarrow> 'r batch_state \<Rightarrow> 'r batch_state \<Rightarrow> bool"
  for E dirPath fileID chunks where
  dir_made: "i < length chunks \<Longrightarrow> bt_pc s i = CkStart \<Longrightarrow> EnsureDir E (path_elems [dirPath, fileID]) (bt_world s) = (None, w) \<Longrightarrow>
     BatchCreateChunk_go E dirPath fileID chunks s (s\<lparr>bt_world := w, bt_pc := (bt_pc s)(i := CkDir)\<rparr>)"
| dir_failed: "i < length chunks \<Longrightarrow> bt_pc s i = CkStart \<Longrightarrow> EnsureDir E (path_elems [dirPath, fileID]) (bt_world s) = (Some e, w) \<Longrightarrow>
     BatchCreateChunk_go E dirPath fileID chunks s (s\<lparr>bt_world := w, bt_pc := (bt_pc s)(i := CkFailed)\<rparr>)"
| file_made: "i < length chunks \<Longrightarrow> bt_pc s i = CkDir \<Longrightarrow>
     os_Create E (chunk_path dirPath fileID (fst (chunks ! i))) (bt_world s) = (None, w) \<Longrightarrow>
     BatchCreateChunk_go E dirPath fileID chunks s (s\<lparr>bt_world := w, bt_pc := (bt_pc s)(i := CkFile)\<rparr>)"
| file_failed: "i < length chunks \<Longrightarrow> bt_pc s i = CkDir \<Longrightarrow>
     os_Create E (chunk_path dirPath fileID (fst (chunks ! i))) (bt_world s) = (Some e, w) \<Longrightarrow>
     BatchCreateChunk_go E dirPath fileID chunks s (s\<lparr>bt_world := w, bt_pc := (bt_pc s)(i := CkFailed)\<rparr>)"
| copied: "i < length chunks \<Longrightarrow> bt_pc s i = CkFile \<Longrightarrow>
     copy_to_file E (chunk_path dirPath fileID (fst (chunks ! i))) (snd (chunks ! i)) (bt_world s) = (err, w) \<Longrightarrow>
     BatchCreateChunk_go E dirPath fileID chunks s (s\<lparr>bt_world := w, bt_pc := (bt_pc s)(i := CkSent),
       bt_receiver := bt_receiver s @
         [(i, case err of None \<Rightarrow> chunk_path dirPath fileID (fst (chunks ! i)) | Some e \<Rightarrow> [])]\<rparr>)"

text \<open>\<open>wg.Wait\<close> and what follows: nothing while a goroutine runs, then the answer.\<close>

definition ErrFileUpload :: goerr where "ErrFileUpload = ''file_upload_failed''"

definition BatchCreateChunk :: "(int \<times> bytes) list \<Rightarrow> 'r batch_state \<Rightarrow> (goerr + (nat \<times> string) list) option" where
  "BatchCreateChunk chunks s =
     (if list_ex (\<lambda>i. bt_pc s i \<notin> {CkSent, CkFailed}) [0..<length chunks] then None
      else Some (if length (bt_receiver s) \<noteq> length chunks then Inl ErrFileUpload else Inr (bt_receiver s)))"

subsection \<open>Invariants\<close>

text \<open>Under any faults: the channel has one result of each goroutine that sent, and nothing else.\<close>

definition results_inv :: "(int \<times> bytes) list \<Rightarrow> 'r batch_state \<Rightarrow> bool" where
  "results_inv chunks s \<longleftrightarrow> distinct (map fst (bt_receiver s)) \<and> fst ` set (bt_receiver s) = {i. i < length chunks \<and> bt_pc s i = CkSent}"

text \<open>When no call fails: a goroutine does not fail, what it made is there, and it sends its path.\<close>

definition batch_inv :: "string \<Rightarrow> string \<Rightarrow> (int \<times> bytes) list \<Rightarrow> 'r batch_state \<Rightarrow> bool" where
  "batch_inv d fid chunks s \<longleftrightarrow> store_ready d fid (w_fs (bt_world s)) \<and>
     (\<forall>i < length chunks. bt_pc s i \<noteq> CkFailed \<and>
        (bt_pc s i = CkSent \<longrightarrow> w_fs (bt_world s) (chunk_path d fid (fst (chunks ! i))) = Some (FFile (snd (chunks ! i))))) \<and>
     (\<forall>q \<in> set (bt_receiver s). snd q = chunk_path d fid (fst (chunks ! fst q)))"

interpretation results: invariant "BatchCreateChunk_go E d fid chunks" "results_inv chunks" "batch_start w" for E d fid chunks w
proof
  fix s s'
  assume i: "results_inv chunks s" and st: "BatchCreateChunk_go E d fid chunks s s'"
  from st show "results_inv chunks s'" using i
    by cases (auto simp: results_inv_def)
qed (simp add: results_inv_def batch_start_def)

text \<open>The calls of \<open>UpdateChunk\<close> on a store that is ready, when none fails.\<close>

lemma EnsureDir_ready:
  "no_faults E \<Longrightarrow> store_ready d fid (w_fs w) \<Longrightarrow>
     EnsureDir E (path_elems [d, fid]) w = (None, (tick w)\<lparr>w_fs := with_dirs d fid (w_fs w)\<rparr>)"
  by (simp add: EnsureDir_def os_MkdirAll_def ext_call_def store_ready_def with_dirs_def cong: if_cong)

lemma os_Create_ready:
  "no_faults E \<Longrightarrow> store_ready d fid (w_fs w) \<Longrightarrow>
     os_Create E (chunk_path d fid c) w = (None, (tick w)\<lparr>w_fs := (w_fs w)(chunk_path d fid c := Some (FFile []))\<rparr>)"
  by (simp add: os_Create_def ext_call_def store_ready_def)

lemma copy_ready:
  "no_faults E \<Longrightarrow> copy_to_file E p data w = (None, (tick w)\<lparr>w_fs := (w_fs w)(p := Some (FFile data))\<rparr>)"
  by (simp add: copy_to_file_def ext_call_def)

lemmas batch_calls = EnsureDir_ready os_Create_ready copy_ready

lemma ready_dirs: "store_ready d fid fs \<Longrightarrow> store_ready d fid (with_dirs d fid fs)"
  and ready_file: "store_ready d fid fs \<Longrightarrow> store_ready d fid (fs(chunk_path d fid c := Some (FFile b)))"
  and dirs_keep: "store_ready d fid fs \<Longrightarrow> with_dirs d fid fs (chunk_path d fid c) = fs (chunk_path d fid c)"
  by (auto simp: store_ready_def with_dirs_def list_ex_iff is_file_def)

text \<open>The goroutines do not interfere: chunks with different numbers have different paths.\<close>

lemma batch_step:
  assumes "no_faults E" "plain_elem fid" "distinct (map fst chunks)"
    and "batch_inv d fid chunks s" "BatchCreateChunk_go E d fid chunks s s'"
  shows "batch_inv d fid chunks s'"
proof -
  have other: "chunk_path d fid (fst (chunks ! j)) \<noteq> chunk_path d fid (fst (chunks ! i))"
    if "i < length chunks" "j < length chunks" "i \<noteq> j" for i j
    using that assms(3) by (simp add: path_of_chunk [OF assms(2)] distinct_conv_nth)
  have ready: "store_ready d fid (w_fs (bt_world s))" using assms(4) by (simp add: batch_inv_def)
  note run = batch_calls(1,2) [OF assms(1) ready] batch_calls(3) [OF assms(1)]
  from assms(5) show ?thesis
  proof cases
    case (dir_made i w)
    with run assms(4) show ?thesis by (auto simp: batch_inv_def ready_dirs dirs_keep)
  next
    case (file_made i w)
    with run assms(4) other show ?thesis by (auto simp: batch_inv_def ready_file)
  next
    case (copied i err w)
    with run assms(4) other show ?thesis by (auto simp: batch_inv_def ready_file)
  qed (use run in auto)
qed

lemma batch_holds:
  assumes "no_faults E" "plain_elem fid" "distinct (map fst chunks)" "store_ready d fid (w_fs w)"
    and "reachable (BatchCreateChunk_go E d fid chunks) (batch_start w) s"
  shows "batch_inv d fid chunks s"
  using assms(5)
proof (induction rule: reachable.induct)
  case start
  show ?case using assms(4) by (simp add: batch_inv_def batch_start_def)
qed (rule batch_step [OF assms(1-3)])

text \<open>Under any faults: a result with a path is the path of its chunk, whose data is there; a failed copy
  gives an empty path.\<close>

definition entry_ok :: "string \<Rightarrow> string \<Rightarrow> (int \<times> bytes) list \<Rightarrow> fs \<Rightarrow> nat \<Rightarrow> string \<Rightarrow> bool" where
  "entry_ok d fid chunks fs i p \<longleftrightarrow> p = [] \<or> p = chunk_path d fid (fst (chunks ! i)) \<and> fs p = Some (FFile (snd (chunks ! i)))"

definition paths_inv :: "string \<Rightarrow> string \<Rightarrow> (int \<times> bytes) list \<Rightarrow> 'r batch_state \<Rightarrow> bool" where
  "paths_inv d fid chunks s \<longleftrightarrow> (\<forall>(i, p) \<in> set (bt_receiver s). i < length chunks \<and> bt_pc s i = CkSent \<and>
     entry_ok d fid chunks (w_fs (bt_world s)) i p)"

lemma file_stays: "EnsureDir E els w = (r, w') \<Longrightarrow> w_fs w p = Some (FFile b) \<Longrightarrow> w_fs w' p = Some (FFile b)"
  using EnsureDir_cases [of E els w r w' "{}"] by (auto simp: files_kept_def is_file_def)

lemma os_Create_fs: "os_Create E p w = (r, w') \<Longrightarrow> q \<noteq> p \<Longrightarrow> w_fs w' q = w_fs w q"
  and copy_fs: "copy_to_file E p data w = (r, w') \<Longrightarrow> q \<noteq> p \<Longrightarrow> w_fs w' q = w_fs w q"
  and copy_done: "copy_to_file E p data w = (None, w') \<Longrightarrow> w_fs w' p = Some (FFile data)"
  by (auto simp: os_Create_def copy_to_file_def ext_call_def split: option.splits if_splits)

text \<open>What goroutine \<open>i\<close> does before it has sent leaves the results of the others true.\<close>

lemma paths_kept:
  assumes "paths_inv d fid chunks s" "bt_pc s i \<noteq> CkSent" "(k, p) \<in> set (bt_receiver s)"
    and "\<And>k b. k < length chunks \<Longrightarrow> k \<noteq> i \<Longrightarrow> w_fs (bt_world s) (chunk_path d fid (fst (chunks ! k))) = Some (FFile b) \<Longrightarrow>
      w_fs w (chunk_path d fid (fst (chunks ! k))) = Some (FFile b)"
  shows "k < length chunks \<and> k \<noteq> i \<and> bt_pc s k = CkSent \<and> entry_ok d fid chunks (w_fs w) k p"
proof -
  from assms(1,3) have k: "k < length chunks" "bt_pc s k = CkSent" "entry_ok d fid chunks (w_fs (bt_world s)) k p"
    by (auto simp: paths_inv_def)
  moreover have "k \<noteq> i" using k(2) assms(2) by auto
  ultimately show ?thesis using assms(4) [of k "snd (chunks ! k)"] by (auto simp: entry_ok_def)
qed

lemma paths_moved:
  assumes "paths_inv d fid chunks s" "bt_pc s i \<noteq> CkSent"
    and "\<And>k b. k < length chunks \<Longrightarrow> k \<noteq> i \<Longrightarrow> w_fs (bt_world s) (chunk_path d fid (fst (chunks ! k))) = Some (FFile b) \<Longrightarrow>
      w_fs w (chunk_path d fid (fst (chunks ! k))) = Some (FFile b)"
  shows "paths_inv d fid chunks (s\<lparr>bt_world := w, bt_pc := (bt_pc s)(i := pc)\<rparr>)"
  using paths_kept [OF assms(1,2) _ assms(3)] by (fastforce simp: paths_inv_def)

lemma paths_step:
  assumes "plain_elem fid" "distinct (map fst chunks)" "paths_inv d fid chunks s" "BatchCreateChunk_go E d fid chunks s s'"
  shows "paths_inv d fid chunks s'"
proof -
  have other: "chunk_path d fid (fst (chunks ! j)) \<noteq> chunk_path d fid (fst (chunks ! i))"
    if "i < length chunks" "j < length chunks" "j \<noteq> i" for i j
    using that assms(2) by (simp add: path_of_chunk [OF assms(1)] distinct_conv_nth)
  from assms(4) show ?thesis
  proof cases
    case (dir_made i w)
    show ?thesis unfolding dir_made(1) by (rule paths_moved [OF assms(3)]) (use dir_made(3) file_stays [OF dir_made(4)] in simp_all)
  next
    case (dir_failed i e w)
    show ?thesis unfolding dir_failed(1) by (rule paths_moved [OF assms(3)]) (use dir_failed(3) file_stays [OF dir_failed(4)] in simp_all)
  next
    case (file_made i w)
    show ?thesis unfolding file_made(1)
    proof (rule paths_moved [OF assms(3)])
      fix k b
      assume k: "k < length chunks" "k \<noteq> i" "w_fs (bt_world s) (chunk_path d fid (fst (chunks ! k))) = Some (FFile b)"
      from os_Create_fs [OF file_made(4) other [OF file_made(2) k(1,2)]] k(3)
      show "w_fs w (chunk_path d fid (fst (chunks ! k))) = Some (FFile b)" by (rule trans)
    qed (simp add: file_made(3))
  next
    case (file_failed i e w)
    show ?thesis unfolding file_failed(1)
    proof (rule paths_moved [OF assms(3)])
      fix k b
      assume k: "k < length chunks" "k \<noteq> i" "w_fs (bt_world s) (chunk_path d fid (fst (chunks ! k))) = Some (FFile b)"
      from os_Create_fs [OF file_failed(4) other [OF file_failed(2) k(1,2)]] k(3)
      show "w_fs w (chunk_path d fid (fst (chunks ! k))) = Some (FFile b)" by (rule trans)
    qed (simp add: file_failed(3))
  next
    case (copied i err w)
    have old: "k < length chunks \<and> k \<noteq> i \<and> bt_pc s k = CkSent \<and> entry_ok d fid chunks (w_fs w) k p"
      if "(k, p) \<in> set (bt_receiver s)" for k p
    proof (rule paths_kept [OF assms(3) _ that])
      fix k b
      assume k: "k < length chunks" "k \<noteq> i" "w_fs (bt_world s) (chunk_path d fid (fst (chunks ! k))) = Some (FFile b)"
      from copy_fs [OF copied(4) other [OF copied(2) k(1,2)]] k(3)
      show "w_fs w (chunk_path d fid (fst (chunks ! k))) = Some (FFile b)" by (rule trans)
    qed (simp add: copied(3))
    have new: "w_fs w (chunk_path d fid (fst (chunks ! i))) = Some (FFile (snd (chunks ! i)))" if "err = None"
      using copied(4) that copy_done by blast
    have "entry_ok d fid chunks (w_fs w) i (case err of None \<Rightarrow> chunk_path d fid (fst (chunks ! i)) | Some e \<Rightarrow> [])"
      using new by (simp add: entry_ok_def split: option.split)
    with old copied(2) show ?thesis unfolding copied(1) by (fastforce simp: paths_inv_def)
  qed
qed

lemma paths_hold:
  assumes "plain_elem fid" "distinct (map fst chunks)"
    and "reachable (BatchCreateChunk_go E d fid chunks) (batch_start w) s"
  shows "paths_inv d fid chunks s"
  using assms(3)
proof (induction rule: reachable.induct)
  case start
  show ?case by (simp add: paths_inv_def batch_start_def)
qed (rule paths_step [OF assms(1,2)])

subsection \<open>Progress\<close>

primrec pc_work :: "batch_pc \<Rightarrow> nat" where
  "pc_work CkStart = 3"
| "pc_work CkDir = 2"
| "pc_work CkFile = 1"
| "pc_work CkSent = 0"
| "pc_work CkFailed = 0"

definition batch_work :: "(int \<times> bytes) list \<Rightarrow> 'r batch_state \<Rightarrow> nat" where
  "batch_work chunks s = (\<Sum>i < length chunks. pc_work (bt_pc s i))"

lemma sum_one_less:
  fixes f g :: "nat \<Rightarrow> nat"
  assumes "i < n" "g i < f i" "\<And>j. j \<noteq> i \<Longrightarrow> g j = f j"
  shows "(\<Sum>j < n. g j) < (\<Sum>j < n. f j)"
proof (rule sum_strict_mono_ex1)
  show "\<forall>j \<in> {..<n}. g j \<le> f j" using assms(2,3) by (metis less_imp_le order_refl)
  show "\<exists>j \<in> {..<n}. g j < f j" using assms(1,2) by blast
qed simp

lemma batch_work_less:
  assumes "BatchCreateChunk_go E d fid chunks s s'"
  shows "batch_work chunks s' < batch_work chunks s"
  using assms unfolding batch_work_def by cases (auto intro!: sum_one_less)

lemma batch_enabled:
  assumes "BatchCreateChunk chunks s = None"
  shows "\<exists>s'. BatchCreateChunk_go E d fid chunks s s'"
proof -
  from assms obtain i where i: "i < length chunks" "bt_pc s i \<notin> {CkSent, CkFailed}"
    by (auto simp: BatchCreateChunk_def list_ex_iff split: if_splits)
  let ?els = "path_elems [d, fid]" and ?p = "chunk_path d fid (fst (chunks ! i))"
  show ?thesis
  proof (cases "bt_pc s i")
    case CkStart
    obtain r w where "EnsureDir E ?els (bt_world s) = (r, w)" by fastforce
    with dir_made [OF i(1) CkStart] dir_failed [OF i(1) CkStart] show ?thesis by (cases r) blast+
  next
    case CkDir
    obtain r w where "os_Create E ?p (bt_world s) = (r, w)" by fastforce
    with file_made [OF i(1) CkDir] file_failed [OF i(1) CkDir] show ?thesis by (cases r) blast+
  next
    case CkFile
    obtain r w where "copy_to_file E ?p (snd (chunks ! i)) (bt_world s) = (r, w)" by fastforce
    with copied [OF i(1) CkFile] show ?thesis by blast
  qed (use i(2) in auto)
qed

lemma batch_run:
  "(BatchCreateChunk_go E d fid chunks ^^ n) (batch_start w) s \<Longrightarrow>
     reachable (BatchCreateChunk_go E d fid chunks) (batch_start w) s \<and> n + batch_work chunks s \<le> 3 * length chunks"
proof (induction n arbitrary: s)
  case 0
  then show ?case by (auto simp: batch_work_def batch_start_def intro: reachable.start)
next
  case (Suc n)
  then obtain t where t: "(BatchCreateChunk_go E d fid chunks ^^ n) (batch_start w) t" "BatchCreateChunk_go E d fid chunks t s" by auto
  from Suc.IH [OF t(1)] batch_work_less [OF t(2)]
    reachable.step [where step = "BatchCreateChunk_go E d fid chunks", OF _ t(2)] show ?case by auto
qed

lemma receiver_length:
  assumes "reachable (BatchCreateChunk_go E d fid chunks) (batch_start w) s" "BatchCreateChunk chunks s = Some r"
  shows "length (bt_receiver s) = length chunks \<longleftrightarrow> (\<forall>i < length chunks. bt_pc s i = CkSent)"
proof -
  have inv: "results_inv chunks s" by (rule results.holds [OF assms(1)])
  then have "length (bt_receiver s) = card {i. i < length chunks \<and> bt_pc s i = CkSent}"
    using distinct_card [of "map fst (bt_receiver s)"] by (simp add: results_inv_def)
  moreover have "card {i. i < length chunks \<and> bt_pc s i = CkSent} = length chunks \<longleftrightarrow> (\<forall>i < length chunks. bt_pc s i = CkSent)"
  proof
    assume c: "card {i. i < length chunks \<and> bt_pc s i = CkSent} = length chunks"
    have "{i. i < length chunks \<and> bt_pc s i = CkSent} = {..<length chunks}"
      by (rule card_subset_eq) (auto simp: c)
    then show "\<forall>i < length chunks. bt_pc s i = CkSent" by blast
  next
    assume "\<forall>i < length chunks. bt_pc s i = CkSent"
    then have "{i. i < length chunks \<and> bt_pc s i = CkSent} = {..<length chunks}" by auto
    then show "card {i. i < length chunks \<and> bt_pc s i = CkSent} = length chunks" by simp
  qed
  ultimately show ?thesis by simp
qed

lemma batch_finished:
  "BatchCreateChunk chunks s = Some r \<Longrightarrow> \<forall>i < length chunks. bt_pc s i = CkSent \<or> bt_pc s i = CkFailed"
  by (auto simp: BatchCreateChunk_def list_ex_iff split: if_splits)

subsection \<open>Properties\<close>


subsection \<open>Instances\<close>


end
