(* ===== verification/Spec2Isabelle.thy ===== *)
theory Spec2Isabelle
  imports Pipeline Handlers Races Startup Merging Streams Users Supervision Batch
begin

text \<open>
  \<^bold>\<open>arbokcore\<close> is a file store.  A client registers a file, uploads its chunks, and ends the upload; a
  worker completes a new version with the chunks it shares with the previous one and makes it the
  current version; the devices of the user are told through an event stream.  This development
  models the Go sources of the service and proves what each part promises.

  \<^bold>\<open>The parts and how they interact.\<close>  The server (\<open>cmd/server/main.go\<close>) routes requests through the
  middlewares (\<open>web/middlewares\<close>) to the handlers (\<open>web/routes\<close>), which call the services of
  \<open>core/files\<close> and \<open>core/tokens\<close>; these write SQLite tables through repositories, chunk files through
  \<open>pkg/blobstore\<close>, and Redis lists through \<open>pkg/queuer\<close>.  Ending an upload puts a message on the update
  queue; \<open>MetadataChangelog\<close> (\<open>core/supervisors\<close>) reads it on demand and hands it through a pool of
  workers (\<open>pkg/workerpool\<close>) to \<open>MetadataExecutor\<close>, which reconciles the version and puts a notification
  on the list of the user; \<open>MetadataUpdateConsumer\<close> reads that, and \<open>SSEConsumer\<close> and \<open>SSEBroker\<close>
  (\<open>pkg/brokers\<close>) pass it to the connections of the user's devices.

  \<^bold>\<open>How the code is modelled.\<close>  A struct is a record with the fields of the source, an operation one
  definition with the branches of the source, its errors and panics included (type \<open>res\<close> of
  \<open>Prelude\<close>).  An operation takes the environment \<open>env\<close> and the world \<open>world\<close> of theory \<open>Data\<close> and returns
  its result with the next world: the tables, the state of Redis, the file system and a counter of
  the calls made so far.  Whatever is not in the sources is a field of the environment, and call
  number \<open>n\<close> asks it for its answer: driver errors, the clock, random bytes, SHA-256, the order in which
  SQLite returns rows and Go ranges over a map, \<open>encoding/gob\<close> and the Redis client.  Integers are
  unbounded with the 64-bit range where they are parsed or rounded (\<open>GoStd\<close>), strings are bytes.  Goroutines are
  inductive step relations, a step being one channel operation or one call, and a theorem about
  them speaks of every interleaving.  All functions terminate, so no fuel is used; loops that run
  for ever in the code are step relations.

  \<^bold>\<open>Theories, from the bottom.\<close>
  \<^item> \<open>Prelude\<close>, \<open>GoStd\<close>, \<open>Machines\<close>: results and maps, the standard library (decimal numbers,
    \<open>strings.Split\<close>, \<open>TrimSpace\<close>, \<open>Sprintf\<close>, \<open>float64\<close>), and reachable states with the locales \<open>stable\<close>,
    \<open>invariant\<close> and \<open>simulation\<close> that every machine below interprets.
  \<^item> \<open>Api\<close>, \<open>Data\<close>, \<open>FilesModel\<close>: error texts and responses (\<open>core/api\<close>), the records, and the pure parts of
    \<open>core/files\<close>: the chunk count is the ceiling of the size, joined rows are grouped by file.
  \<^item> \<open>SqlStore\<close>, \<open>FilesRepo\<close>, \<open>Tokens\<close>: the SQL statements as functions on the tables, the repositories
    over them, tokens and their expiry.  The locale \<open>tx_operation\<close> is the contract of a transaction, all or
    nothing; its instances are the three operations that run one.
  \<^item> \<open>Queuer\<close>, \<open>Streams\<close>: the two implementations of the interface \<open>Queuer\<close> (\<open>redis.queue.go\<close>,
    \<open>redis.stream.go\<close>), both instances of the locale \<open>queuer\<close>, a first-in first-out queue.
  \<^item> \<open>MetadataService\<close>, \<open>Uploads\<close>: registering files and versions and ending an upload
    (\<open>service.metadata.go\<close>), what each does with and without faults, and that the stream token it returns
    is accepted for its file.
  \<^item> \<open>Blobstore\<close>, \<open>Chunks\<close>, \<open>Batch\<close>, \<open>Download\<close>, \<open>RoundTrip\<close>: storing chunks (\<open>localfs.go\<close>,
    \<open>userfiles.service.go\<close>), also many at once, assembling a file with and without the cache
    (\<open>download.service.go\<close>), and that what was uploaded in any order is what is downloaded.
  \<^item> \<open>Supervisor\<close>, \<open>Reconcile\<close>, \<open>Executor\<close>: the worker (\<open>metadata.changelog.go\<close>, \<open>notifiers/metadata.go\<close>,
    \<open>metadata.manualreconcile.go\<close>): its effect without faults, what it keeps under any faults, and the
    error paths that leave a version incomplete.
  \<^item> \<open>WorkerPool\<close>, \<open>Merging\<close>, \<open>Producers\<close>, \<open>Supervision\<close>, \<open>Brokers\<close>: the concurrent parts.  No job of a pool is lost or
    done twice, a pool works off what it was given, one worker keeps the order, \<open>Merge\<close> is complete
    for a reader that ranges over its output channel (without one it waits);
    messages stay in order from the queue to the dispatcher for both producers (locale \<open>producer\<close>);
    \<open>Supervision\<close> joins a producer with its pool: every message is executed once and in order; the
    broker never uses a closed channel and delivers in order.  Three ways to hang are proved as such.
  \<^item> \<open>Authnz\<close>, \<open>Handlers\<close>: middlewares, handlers and routes; no request changes anything without the token
    its route asks for, unexpired when it is checked.  The event stream is there as what it takes off the
    user's notification list; its goroutines are in \<open>Brokers\<close> and \<open>Producers\<close>.
  \<^item> \<open>Squirtle\<close>, \<open>Migrations\<close>, \<open>Users\<close>: query files and their stores, schema migrations, accounts.
  \<^item> \<open>Startup\<close>: configuration, connections and the start of the server and of the workers with every exit
    (\<open>pkg/config\<close>, \<open>cmd/server\<close>, \<open>cmd/workers\<close>, \<open>core/workers\<close>): the processes meet on one database and the
    same queues with all statements loaded; and how an interrupt ends the server, in runs with and
    without a failing listener.
  \<^item> \<open>Registry\<close>, \<open>System\<close>, \<open>Pipeline\<close>: the abstract registry of files, the service with whole operations as
    steps, which refines it, and the way of an upload from the request to the devices.
  \<^item> \<open>Threads\<close>, \<open>Goroutines\<close>, \<open>Concurrent\<close>, \<open>Races\<close> and this theory: goroutines as resumptions over shared
    state, with the proof rule of rely and guarantee in the locale \<open>thread_system\<close>; every operation of the
    requests, the producers and the worker as a thread of its calls, which run alone is the operation;
    the service with all of them interleaved keeps its invariant and refines the registry; and the race
    that the check of duplicates loses.
  \<^item> \<open>Sample\<close>: an environment in which all assumptions hold; the closed instances (\<open>_witness\<close>) run in it.

  \<^bold>\<open>Assumptions.\<close>  They are premises, and each is documented behaviour of code outside the sources:
  \<open>redis_lists\<close>, \<open>redis_errors\<close>, \<open>redis_cache\<close> and \<open>redis_streams\<close> (the commands of Redis), \<open>gob_ok\<close> (decoding
  what was encoded), \<open>sql_order_ok\<close> and \<open>range_ok\<close> (rows in the order of the statement, each map entry
  once), \<open>cap_ok\<close> (a capacity is at least the length), \<open>bcrypt_ok\<close>, and \<open>new_ids\<close> (a ULID is new).  Theorems
  about successful runs add \<open>no_faults\<close>, \<open>redis_up\<close> and \<open>stmts_loaded\<close>; the last one is what
  \<open>processes_meet\<close> proves of the stores of a started server.  Theorems about safety have none of the three.

  \<^bold>\<open>Granularity.\<close>  In \<open>Concurrent\<close> one call to a repository, the blob store, Redis, the clock or a generator
  is one step: a repository call is a single statement or a transaction, which SQLite serialises.  The
  middlewares before an operation only read.  A batch between producer and worker is in
  \<open>sy_batches\<close>; how it gets there through channels and pool is the subject of \<open>Producers\<close>, \<open>WorkerPool\<close> and
  \<open>Supervision\<close>, as are the goroutines of the broker and of the batch upload of theirs.

  \<^bold>\<open>Not modelled.\<close>  The CORS settings are data for the web framework, the command lines are read by the
  cli package (the parsed flags are arguments), and the configuration file and the YAML list are decoded
  by other packages (fields of \<open>host\<close>).  The HTTP client (\<open>pkg/httputils\<close>) is called by nothing; \<open>s3.go\<close>,
  \<open>share.service.go\<close>, \<open>helpers.go\<close> and \<open>metadata.notifier.go\<close> of \<open>core/workers\<close> have empty or commented-out
  bodies; \<open>pkg/utils\<close> prints.  Reading a request body is the web framework's and an argument of the
  handlers.  Log lines are left out.  \<open>make\<close> panics for a negative size, but its upper limit, the memory
  of the machine, is not modelled; nor are failures of \<open>Seek\<close>, whose errors \<open>UpdateChunk\<close> ignores.  The expiry of a cached chunk after two hours is left to the
  Redis client: no law assumed of the cache says that a value is still there.
\<close>

subsection \<open>The service refines the registry of files\<close>

text \<open>
  C2.  However the calls of the requests, the producers and the workers interleave, whatever requests come in
  and whatever calls fail, the table of files behaves like a registry: a file is registered as pending,
  and the only other thing that ever happens is that a file becomes current in the same step in which
  the file it replaces is retired.
\<close>

theorem threads_refine_registry:
  assumes "reachable (service_threads E0 view s0 dir) (s0, []) (s, ts)" "sys_inv E0 view s0"
  shows "reachable registry_step (registry_of (w_db (sy_world s0))) (registry_of (w_db (sy_world s)))"
  using threads_keep(2) [OF assms] by (simp add: moves_def)

text \<open>The version links of the table of files.\<close>

definition versions :: "db \<Rightarrow> (string \<times> string) set" where
  "versions d = {(p, i). \<exists>row. file_row i d = Some row \<and> fm_PrevID row = Some p}"

lemma succs_registry_of: "succs (registry_of d) = versions d"
  by (auto simp: succs_def versions_def registry_of_def row_entry_def)

text \<open>What the invariants say of the table of files and of the messages.\<close>

lemma retired_row:
  assumes "registry_inv (registry_of d)" "tables_ok d"
    and "file_row p d = Some row" "\<not> fm_CurrentFlag row" "fm_EndDate row \<noteq> None"
  shows "\<exists>i row'. (p, i) \<in> (versions d)\<^sup>+ \<and> file_row i d = Some row' \<and> fm_CurrentFlag row' \<and> fm_UploadStaus row' \<noteq> StatusUploading"
proof -
  have "registry_of d p = Some (row_entry row)" "en_phase (row_entry row) = Retired"
    using assms(3-5) by (simp_all add: registry_of_def row_entry_def row_phase_def)
  with assms(1) obtain i e where i: "(p, i) \<in> (versions d)\<^sup>+" "registry_of d i = Some e" "en_phase e = Current"
    using retired_has_current [of "registry_of d" p "row_entry row"] unfolding succs_registry_of by blast
  then obtain row' where row': "file_row i d = Some row'" "fm_CurrentFlag row'"
    by (auto simp: registry_of_def row_entry_def row_phase_def split: if_splits)
  then have "fm_UploadStaus row' \<noteq> StatusUploading"
    using assms(2) file_row_Some [of d i row'] by (auto simp: tables_ok_def db_wf_def files_wf_def)
  with i(1) row' show ?thesis by blast
qed

lemma typed_state:
  assumes "sys_inv E0 view s"
  shows "let d = w_db (sy_world s); files = file_metadatas d in
    distinct (map fm_ID files) \<and> [] \<notin> fm_ID ` set files \<and>
    (\<forall>row \<in> set files. (\<forall>p. fm_PrevID row = Some p \<longrightarrow> p \<in> fm_ID ` set files \<and> p \<noteq> fm_ID row) \<and>
       (fm_CurrentFlag row \<longrightarrow> fm_UploadStaus row \<noteq> StatusUploading)) \<and>
    (\<forall>t \<in> set (tokens_tbl d). tk_ResouceType t = ''stream'' \<longrightarrow> tk_ResourceID t \<in> fm_ID ` set files) \<and>
    (\<forall>b \<in> set (view (w_redis (sy_world s)) MetadataFileUpdateQueue) \<union> (\<Union>ps \<in> set (sy_batches s). pl_Message ` set ps).
       \<exists>c row. e_ungob_cache E0 b = Inr c \<and> file_row (cm_ID c) d = Some row \<and> fm_PrevID row = cm_PrevID c)"
proof -
  from assms have t: "db_wf (w_db (sy_world s))" "[] \<notin> fm_ID ` set (file_metadatas (w_db (sy_world s)))"
    by (simp_all add: sys_inv_def tables_ok_def)
  have "\<exists>c row. e_ungob_cache E0 b = Inr c \<and> file_row (cm_ID c) (w_db (sy_world s)) = Some row \<and> fm_PrevID row = cm_PrevID c"
    if "msg_ok E0 (registry_of (w_db (sy_world s))) b" for b
    using that by (auto simp: msg_ok_def registry_of_def row_entry_def)
  with assms t show ?thesis unfolding Let_def sys_inv_def db_wf_def files_wf_def by blast
qed

text \<open>
  C1.  No file is lost by versioning: in every state that the goroutines of the service reach from good
  tables, interleaved at every call, a file that was retired has, following the version links, a
  version that is current and no longer being uploaded.
\<close>

theorem threads_retired_has_current:
  assumes "reachable (service_threads E0 view s0 dir) (s0, []) (s, ts)"
    and "sys_inv E0 view s0" "registry_inv (registry_of (w_db (sy_world s0)))"
    and "file_row p (w_db (sy_world s)) = Some row" "\<not> fm_CurrentFlag row" "fm_EndDate row \<noteq> None"
  shows "\<exists>i row'. (p, i) \<in> (versions (w_db (sy_world s)))\<^sup>+ \<and> file_row i (w_db (sy_world s)) = Some row' \<and>
    fm_CurrentFlag row' \<and> fm_UploadStaus row' \<noteq> StatusUploading"
proof -
  from threads_keep(2) [OF assms(1,2)] have m: "reachable registry_step (registry_of (w_db (sy_world s0))) (registry_of (w_db (sy_world s)))"
    "tables_ok (w_db (sy_world s))" by (simp_all add: moves_def)
  from m(1) assms(3) have "registry_inv (registry_of (w_db (sy_world s)))" by (rule registry.stays)
  from retired_row [OF this m(2) assms(4-6)] show ?thesis .
qed

text \<open>
  C3.  The state of the service stays well typed: in every state that its goroutines reach from good tables,
  interleaved at every call, file ids are distinct and not empty, a version refers to another file
  that is in the table, no current file is still being uploaded, every stream token is for a file in
  the table, and every message on its way to the worker decodes to a file in the table with the
  predecessor the table has for it.
\<close>

theorem threads_state_typed:
  assumes "reachable (service_threads E0 view s0 dir) (s0, []) (s, ts)" "sys_inv E0 view s0"
  shows "let d = w_db (sy_world s); files = file_metadatas d in
    distinct (map fm_ID files) \<and> [] \<notin> fm_ID ` set files \<and>
    (\<forall>row \<in> set files. (\<forall>p. fm_PrevID row = Some p \<longrightarrow> p \<in> fm_ID ` set files \<and> p \<noteq> fm_ID row) \<and>
       (fm_CurrentFlag row \<longrightarrow> fm_UploadStaus row \<noteq> StatusUploading)) \<and>
    (\<forall>t \<in> set (tokens_tbl d). tk_ResouceType t = ''stream'' \<longrightarrow> tk_ResourceID t \<in> fm_ID ` set files) \<and>
    (\<forall>b \<in> set (view (w_redis (sy_world s)) MetadataFileUpdateQueue) \<union> (\<Union>ps \<in> set (sy_batches s). pl_Message ` set ps).
       \<exists>c row. e_ungob_cache E0 b = Inr c \<and> file_row (cm_ID c) d = Some row \<and> fm_PrevID row = cm_PrevID c)"
  using threads_keep(1) [OF assms] by (rule typed_state)

text \<open>
  A goroutine that is not interrupted does what its operation does: run alone, the threads of the
  requests, of the two producers and of the worker compute the results and the state that the
  definitions of the operations compute, on every branch.
\<close>

lemma threads_run_operations:
  "run (PrepareFileForUpload_go E mreq) s = on_world (MetadataService_PrepareFileForUpload E mreq) s \<and>
   run (UpdateFileMetadata_go E ureq) s = on_world (MetadataService_UpdateFileMetadata E ureq) s \<and>
   run (MarkUploadComplete_go E ud) s = on_world (MetadataService_MarkUploadComplete E ud) s \<and>
   run (FileChunkService_Create_go E dir creq) s = on_world (FileChunkService_Create E dir creq) s \<and>
   run (Download_go E n urls) s = on_world (DownloadHandler_Download E n urls) s \<and>
   snd (run (MetadataChangelog_go R d) s) = (case MetadataChangelog_batch R d (w_redis (sy_world s)) of (q, r) \<Rightarrow>
     s\<lparr>sy_world := (sy_world s)\<lparr>w_redis := r\<rparr>, sy_batches := sy_batches s @ (case q of None \<Rightarrow> [] | Some results \<Rightarrow> [results])\<rparr>) \<and>
   snd (run (MetadataUpdateConsumer_go R d u) s) = (case MetadataUpdateConsumer_batch R d u (w_redis (sy_world s)) of (q, r) \<Rightarrow>
     s\<lparr>sy_world := (sy_world s)\<lparr>w_redis := r\<rparr>\<rparr>) \<and>
   run (Execute_go E) s = (case sy_batches s of [] \<Rightarrow> (None, s) | payloads # rest \<Rightarrow>
     (case MetadataExecutor_Execute E (map Some payloads) (sy_world s) of (x, w) \<Rightarrow> (Some x, s\<lparr>sy_world := w, sy_batches := rest\<rparr>)))"
  by (intro conjI run_Prepare run_Update run_MarkUploadComplete run_Create run_Download run_worker)
    (simp_all add: run_Changelog run_Consumer case_prod_beta)

text \<open>The same for the service whose operations are taken as single steps.\<close>

lemma service_refines_registry:
  assumes "reachable (service_step E0 view s0 dir) s0 s"
  shows "reachable registry_step (registry_of (w_db (sy_world s0))) (registry_of (w_db (sy_world s)))"
  using assms by (rule service.simulates)

lemma reachable_sys_inv:
  assumes "reachable (service_step E0 view s0 dir) s0 s" "sys_inv E0 view s0"
  shows "sys_inv E0 view s"
  using service_is_threads [OF assms(1)] threads_keep(1) [OF _ assms(2)] by blast

lemma retired_file_has_current_version:
  assumes "reachable (service_step E0 view s0 dir) s0 s"
    and "sys_inv E0 view s0" "registry_inv (registry_of (w_db (sy_world s0)))"
    and "file_row p (w_db (sy_world s)) = Some row" "\<not> fm_CurrentFlag row" "fm_EndDate row \<noteq> None"
  shows "\<exists>i row'. (p, i) \<in> (versions (w_db (sy_world s)))\<^sup>+ \<and> file_row i (w_db (sy_world s)) = Some row' \<and>
    fm_CurrentFlag row' \<and> fm_UploadStaus row' \<noteq> StatusUploading"
  using retired_row [OF registry.stays [OF service.simulates [OF assms(1)] assms(3)] sys_inv_ok [OF reachable_sys_inv [OF assms(1,2)]] assms(4-6)] .

subsection \<open>From the end of an upload to the devices\<close>

lemma changelog_reads_one:
  assumes "redis_up R" "redis_lists R view" "view r MetadataFileUpdateQueue = [b]"
  shows "\<exists>r'. MetadataChangelog_batch R 1 r = (Some [\<lparr>pl_Message = b, pl_Key = MetadataFileUpdateQueue, pl_TTL = 0\<rparr>], r') \<and>
    view r' = (view r)(MetadataFileUpdateQueue := [])"
  using read_one [OF assms(1,2), of r MetadataFileUpdateQueue "[]" b] assms(3)
  by (auto simp: MetadataChangelog_batch_def file_queue)

lemma clients_read_one:
  assumes "redis_up R" "redis_lists R view" "view r (client_queue userID) = [v]"
  shows "\<exists>r'. MetadataUpdateConsumer_batch R 1 userID r = (Some [\<lparr>pl_Message = v, pl_Key = client_queue userID, pl_TTL = 0\<rparr>], r')"
  using read_one [OF assms] by (metis MetadataUpdateConsumer_batch_def nat_one_as_int nat_int of_nat_1)

lemma predecessor_row:
  assumes "db_wf d" "file_row i d = Some row" "fm_PrevID row = Some p"
  shows "\<exists>prow. file_row p d = Some prow"
  using assms file_row_Some [of d i row] file_row_None [of p d] by (auto simp: db_wf_def files_wf_def)

text \<open>
  C6.  When nothing fails, ending the upload of a new version carries through.  Both versions have chunk
  records, and the update queue and the user's notification list are empty at the start.  The request
  succeeds and queues one message, the producer takes it, and the worker makes the version current with
  status completed and retires the version it replaces; if both were declared with the same number of
  chunks it adds exactly one record for each chunk that only the old version has, copied from it, so that
  the new version has every chunk of both, and otherwise it adds none.  The notification it queues makes
  the consumer send one message to the uploading device and one to the other device of the user.
\<close>

theorem eof_reaches_devices:
  assumes "no_faults E" "stmts_loaded E" "sql_order_ok E" "range_ok E" "gob_ok E"
    and "redis_lists (e_redis E) view" "redis_up (e_redis E)" and "tables_ok (w_db w)"
    and "file_row (ud_FileID ud) (w_db w) = Some row" "fm_UploadStaus row = StatusUploading" "fm_PrevID row = Some p"
    and "file_chunks (ud_FileID ud) (w_db w) \<noteq> []" "file_chunks p (w_db w) \<noteq> []"
    and "view (w_redis w) MetadataFileUpdateQueue = []" "view (w_redis w) (client_queue (fm_UserID row)) = []"
    and "e_gob_cache E (eof_message ud row) = Inr b" "e_gob_event E (success_event (eof_message ud row)) = Inr v"
  shows "\<exists>resp w1 payloads r2 w3 notes r4 t ufs prow.
    MetadataService_MarkUploadComplete E ud w = (resp, w1) \<and> rs_Success resp \<and>
    MetadataChangelog_batch (e_redis E) 1 (w_redis w1) = (Some payloads, r2) \<and>
    MetadataExecutor_Execute E (map Some payloads) (w1\<lparr>w_redis := r2\<rparr>) = (EOk, w3) \<and>
    w_db w3 = reconciled (ud_FileID ud) p StatusCompleted t ufs (w_db w) \<and> file_row p (w_db w) = Some prow \<and>
    (if fm_NChunks row = fm_NChunks prow
     then fills (w_db w) (ud_FileID ud) p ufs \<and>
       chunk_ids (ud_FileID ud) (w_db w3) = chunk_ids (ud_FileID ud) (w_db w) \<union> chunk_ids p (w_db w)
     else ufs = []) \<and>
    MetadataUpdateConsumer_batch (e_redis E) 1 (fm_UserID row) (w_redis w3) = (Some notes, r4) \<and>
    SSEConsumer_Execute E notes = (device_messages (fm_UserID row) (ud_DeviceID ud) (ud_FileID ud), None)"
proof -
  let ?c = "eof_message ud row" and ?R = "e_redis E" and ?Q = MetadataFileUpdateQueue and ?U = "client_queue (fm_UserID row)"
  have wf: "db_wf (w_db w)" using assms(8) by (simp add: tables_ok_def)
  obtain w1 where w1: "MetadataService_MarkUploadComplete E ud w = (BuildResponse None (Some [(''eof'', True)]), w1)"
    "w_db w1 = w_db w" "view (w_redis w1) = (view (w_redis w))(?Q := [b])"
    using MarkUploadComplete_run [OF assms(1,2) wf assms(7,6,9,10,16)] assms(14) by auto
  then obtain r2 where r2: "MetadataChangelog_batch ?R 1 (w_redis w1) = (Some [\<lparr>pl_Message = b, pl_Key = ?Q, pl_TTL = 0\<rparr>], r2)"
    "view r2 = (view (w_redis w))(?Q := [])"
    using changelog_reads_one [OF assms(7,6), of "w_redis w1" b] by auto
  let ?w2 = "w1\<lparr>w_redis := r2\<rparr>"
  obtain prow where prow: "file_row p (w_db w) = Some prow" using predecessor_row [OF wf assms(9,11)] by blast
  have db2: "w_db ?w2 = w_db w" using w1(2) by simp
  obtain ufs t w3 where ex: "ExecuteEach E ?c ?w2 = (OK (), w3)" "w_redis w3 = r2"
    "w_db w3 = reconciled (ud_FileID ud) p StatusCompleted t ufs (w_db w)"
    and fill: "if fm_NChunks row = fm_NChunks prow
      then fills (w_db w) (ud_FileID ud) p ufs \<and>
        chunk_ids (ud_FileID ud) (w_db w3) = chunk_ids (ud_FileID ud) (w_db w) \<union> chunk_ids p (w_db w)
      else ufs = []"
    using ExecuteEach_reconciles [OF assms(1-4), of ?w2 ?c "ud_FileID ud" p row prow] wf prow assms(9,11-13)
    unfolding db2 by (auto simp: eof_message_def)
  have dec: "e_ungob_cache E b = Inr ?c" by (rule eof_decodes [OF assms(5,16,9,8)])
  let ?m = "\<lparr>pl_Message = b, pl_Key = ?Q, pl_TTL = 0\<rparr>"
  have c: "cm_UserID ?c = fm_UserID row" by (simp add: eof_message_def)
  have m: "e_ungob_cache E (pl_Message ?m) = Inr ?c" "w_redis w3 = w_redis ?w2" using dec ex(2) by simp_all
  obtain w4 where w4: "MetadataExecutor_Execute E [Some ?m] ?w2 = (EOk, w4)" "w_db w4 = w_db w3"
    and v4: "view (w_redis w4) = (view (w_redis ?w2))(?U := view (w_redis ?w2) ?U @ [v])"
    using Execute_one [OF assms(7,6) m(1) ex(1) m(2) assms(17)] unfolding c .
  have u4: "view (w_redis w4) ?U = [v]"
    using queues_differ [of "fm_UserID row"] assms(15) by (simp add: v4 r2(2))
  obtain r4 where "MetadataUpdateConsumer_batch ?R 1 (fm_UserID row) (w_redis w4) =
      (Some [\<lparr>pl_Message = v, pl_Key = ?U, pl_TTL = 0\<rparr>], r4)"
    using clients_read_one [OF assms(7,6) u4] by blast
  moreover have "SSEConsumer_Execute E [\<lparr>pl_Message = v, pl_Key = ?U, pl_TTL = 0\<rparr>] =
      (device_messages (fm_UserID row) (ud_DeviceID ud) (ud_FileID ud), None)"
    using SSEConsumer_one [OF assms(5), of ?c "\<lparr>pl_Message = v, pl_Key = ?U, pl_TTL = 0\<rparr>"] assms(17)
    by (simp add: eof_message_def)
  moreover have "rs_Success (BuildResponse None (Some [(''eof'', True)]))" by (simp add: BuildResponse_def)
  ultimately show ?thesis
    using w1(1) r2(1) w4(1) ex(3) [folded w4(2)] prow fill [folded w4(2)]
    by - (rule exI [of _ "BuildResponse None (Some [(''eof'', True)])"], rule exI [of _ w1],
        rule exI [of _ "[\<lparr>pl_Message = b, pl_Key = ?Q, pl_TTL = 0\<rparr>]"], rule exI [of _ r2], rule exI [of _ w4],
        rule exI [of _ "[\<lparr>pl_Message = v, pl_Key = ?U, pl_TTL = 0\<rparr>]"], rule exI [of _ r4],
        rule exI [of _ t], rule exI [of _ ufs], rule exI [of _ prow],
        intro conjI, simp_all only: list.map)
qed

subsection \<open>A sample service\<close>

text \<open>Version \<open>B\<close> of file \<open>A\<close> ends its upload; its message is taken off the queue and executed.\<close>

definition demo_device :: UserFileDevice where
  "demo_device = \<lparr>ud_UserID = [], ud_DeviceID = ''1'', ud_FileID = ''B'', ud_ChunkID = []\<rparr>"

definition demo1 :: "mem_redis sys" where
  "demo1 = demo0\<lparr>sy_world := snd (MetadataService_MarkUploadComplete sample_env demo_device (sy_world demo0))\<rparr>"

definition demo2 :: "mem_redis sys" where
  "demo2 = (case MetadataChangelog_batch mem_client 1 (w_redis (sy_world demo1)) of (q, r') \<Rightarrow>
     demo1\<lparr>sy_world := (sy_world demo1)\<lparr>w_redis := r'\<rparr>, sy_batches := (case q of None \<Rightarrow> [] | Some results \<Rightarrow> [results])\<rparr>)"

definition demo3 :: "mem_redis sys" where
  "demo3 = demo2\<lparr>sy_world := snd (MetadataExecutor_Execute sample_env (map Some (hd (sy_batches demo2))) (sy_world demo2)),
     sy_batches := tl (sy_batches demo2)\<rparr>"

lemma demo2_batch: "sy_batches demo2 = [[\<lparr>pl_Message = ''m'', pl_Key = MetadataFileUpdateQueue, pl_TTL = 0\<rparr>]]"
  by code_simp

lemma demo3_reachable: "reachable (service_step sample_env fst demo0 ''/data'') demo0 demo3"
proof -
  let ?S = "service_step sample_env fst demo0 ''/data''"
  have R: "e_redis sample_env = mem_client" by (simp add: sample_env_def)
  have s1: "?S demo0 demo1"
    unfolding demo1_def by (rule service_step.eof [OF demo_env prod.collapse [symmetric]])
  have s2: "?S demo1 demo2"
    using service_step.produce [OF demo_env prod.collapse [symmetric], where s = demo1 and d = 1] unfolding demo2_def R
    by (simp add: demo1_def demo0_def case_prod_beta)
  have "sy_batches demo2 = hd (sy_batches demo2) # tl (sy_batches demo2)" by (simp add: demo2_batch)
  note step3 = service_step.execute [OF demo_env this prod.collapse [symmetric], where dir = "''/data''"]
  have s3: "?S demo2 demo3" using step3 unfolding demo3_def .
  show ?thesis by (intro reachable.step [where step = ?S, OF reachable.step [where step = ?S, OF
      reachable.step [where step = ?S, OF reachable.start s1] s2] s3])
qed

lemma demo3_threads: "\<exists>ts. reachable (service_threads sample_env fst demo0 ''/data'') (demo0, []) (demo3, ts)"
  using service_is_threads [OF demo3_reachable] by blast

theorem threads_refine_registry_witness:
  "reachable registry_step (registry_of sample_db) (registry_of (w_db (sy_world demo3))) \<and>
   map_option en_phase (registry_of sample_db ''B'') = Some Pending \<and>
   map_option en_phase (registry_of (w_db (sy_world demo3)) ''B'') = Some Current \<and>
   map_option en_phase (registry_of (w_db (sy_world demo3)) ''A'') = Some Retired"
proof -
  have "sy_world demo0 = sample_world" "w_db sample_world = sample_db" by (simp_all add: demo0_def sample_world_def)
  with demo3_threads threads_refine_registry [OF _ demo0_inv]
  have "reachable registry_step (registry_of sample_db) (registry_of (w_db (sy_world demo3)))" by metis
  moreover have "map_option en_phase (registry_of sample_db ''B'') = Some Pending"
    "map_option en_phase (registry_of (w_db (sy_world demo3)) ''B'') = Some Current"
    "map_option en_phase (registry_of (w_db (sy_world demo3)) ''A'') = Some Retired"
    by code_simp+
  ultimately show ?thesis by simp
qed

lemma demo0_registry: "registry_inv (registry_of (w_db (sy_world demo0)))"
proof -
  let ?a = "registry_of (w_db (sy_world demo0))"
  have a: "?a = [''A'' \<mapsto> row_entry row_A, ''B'' \<mapsto> row_entry row_B]"
    by (rule ext) (simp add: registry_of_def demo0_def sample_world_def sample_db_def file_row_def row_A_def row_B_def)
  have s: "succs ?a = {(''A'', ''B'')}"
    unfolding a by (auto simp: succs_def row_entry_def row_A_def row_B_def split: if_splits)
  show ?thesis
    unfolding registry_inv_def s unfolding a
    by (auto simp: row_entry_def row_phase_def row_A_def row_B_def acyclic_def split: if_splits elim: tranclE)
qed

theorem threads_state_typed_witness:
  "distinct (map fm_ID (file_metadatas (w_db (sy_world demo3)))) \<and> [] \<notin> fm_ID ` set (file_metadatas (w_db (sy_world demo3)))"
proof -
  obtain ts where "reachable (service_threads sample_env fst demo0 ''/data'') (demo0, []) (demo3, ts)" using demo3_threads by blast
  from threads_state_typed [OF this demo0_inv] show ?thesis unfolding Let_def by blast
qed

theorem threads_retired_has_current_witness:
  "\<exists>row i row'. file_row ''A'' (w_db (sy_world demo3)) = Some row \<and> \<not> fm_CurrentFlag row \<and> fm_EndDate row \<noteq> None \<and>
    (''A'', i) \<in> (versions (w_db (sy_world demo3)))\<^sup>+ \<and> file_row i (w_db (sy_world demo3)) = Some row' \<and> fm_CurrentFlag row'"
proof -
  have "map_option (\<lambda>row. (fm_CurrentFlag row, fm_EndDate row = None)) (file_row ''A'' (w_db (sy_world demo3))) = Some (False, False)"
    by code_simp
  then obtain row where row: "file_row ''A'' (w_db (sy_world demo3)) = Some row" "\<not> fm_CurrentFlag row" "fm_EndDate row \<noteq> None"
    by auto
  obtain ts where "reachable (service_threads sample_env fst demo0 ''/data'') (demo0, []) (demo3, ts)" using demo3_threads by blast
  from threads_retired_has_current [OF this demo0_inv demo0_registry row] row show ?thesis by blast
qed

theorem eof_reaches_devices_witness:
  "\<exists>resp w1 payloads r2 w3 notes r4 t ufs.
    MetadataService_MarkUploadComplete sample_env demo_device sample_world = (resp, w1) \<and> rs_Success resp \<and>
    MetadataChangelog_batch (e_redis sample_env) 1 (w_redis w1) = (Some payloads, r2) \<and>
    MetadataExecutor_Execute sample_env (map Some payloads) (w1\<lparr>w_redis := r2\<rparr>) = (EOk, w3) \<and>
    w_db w3 = reconciled ''B'' ''A'' StatusCompleted t ufs (w_db sample_world) \<and>
    MetadataUpdateConsumer_batch (e_redis sample_env) 1 ''U1'' (w_redis w3) = (Some notes, r4) \<and>
    chunk_ids ''B'' (w_db w3) = {0, 1} \<and>
    SSEConsumer_Execute sample_env notes = (device_messages ''U1'' ''1'' ''B'', None)"
proof -
  have R: "redis_lists (e_redis sample_env) fst" "redis_up (e_redis sample_env)"
    using mem_lists mem_up by (simp_all add: sample_env_def)
  have t: "tables_ok (w_db sample_world)" using demo0_inv by (simp add: sys_inv_def demo0_def)
  have w: "w_db sample_world = sample_db" "fst (w_redis sample_world) q = []" for q
    by (simp_all add: sample_world_def)
  have u: "ud_FileID demo_device = ''B''" "ud_DeviceID demo_device = ''1''" by (simp_all add: demo_device_def)
  have r: "fm_UploadStaus row_B = StatusUploading" "fm_PrevID row_B = Some ''A''" "fm_UserID row_B = ''U1''"
    by (simp_all add: row_B_def)
  have g: "e_gob_cache sample_env (eof_message demo_device row_B) = Inr ''m''"
    "e_gob_event sample_env (success_event (eof_message demo_device row_B)) = Inr ''e''"
    by (simp_all add: sample_env_def eof_message_def demo_device_def row_B_def sample_cache_def sample_event_def success_event_def)
  have c: "file_chunks ''B'' sample_db \<noteq> []" "file_chunks ''A'' sample_db \<noteq> []" by (simp_all add: sample_rows)
  note all = eof_reaches_devices [OF sample_ok(1-4) sample_gob R t, of demo_device row_B "''A''" "''m''" "''e''",
      unfolded w(1) u r(3), OF sample_rows(2) r(1,2) c w(2) w(2) g]
  have n: "fm_NChunks row_B = fm_NChunks row_A" by (simp add: row_A_def row_B_def)
  have k: "chunk_ids ''B'' sample_db \<union> chunk_ids ''A'' sample_db = {0, 1}"
    by (auto simp: chunk_ids_def sample_rows chunk_row_def)
  from all obtain resp w1 payloads r2 w3 ns r4 t ufs prow where
    run: "MetadataService_MarkUploadComplete sample_env demo_device sample_world = (resp, w1)" "rs_Success resp"
      "MetadataChangelog_batch (e_redis sample_env) 1 (w_redis w1) = (Some payloads, r2)"
      "MetadataExecutor_Execute sample_env (map Some payloads) (w1\<lparr>w_redis := r2\<rparr>) = (EOk, w3)"
      "w_db w3 = reconciled ''B'' ''A'' StatusCompleted t ufs sample_db"
      "MetadataUpdateConsumer_batch (e_redis sample_env) 1 ''U1'' (w_redis w3) = (Some ns, r4)"
      "SSEConsumer_Execute sample_env ns = (device_messages ''U1'' ''1'' ''B'', None)"
    and p: "file_row ''A'' sample_db = Some prow"
    and f: "if fm_NChunks row_B = fm_NChunks prow
      then fills sample_db ''B'' ''A'' ufs \<and> chunk_ids ''B'' (w_db w3) = chunk_ids ''B'' sample_db \<union> chunk_ids ''A'' sample_db
      else ufs = []"
    by (elim exE conjE)
  have "chunk_ids ''B'' (w_db w3) = {0, 1}" using f p n k by (simp only: sample_rows(1) option.inject simp_thms if_True)
  with run show ?thesis unfolding w(1) by blast
qed

end
